(* ===== verification/Prelude.thy ===== *)
theory Prelude
  imports Main "HOL-Library.Word" "HOL-Library.Monad_Syntax"
begin

text \<open>
  The vocabulary shared by all components of the model of AXE: the machine
  integer types of the C++ sources, the result type of host code that can
  abort, the development's collections of simplification rules, and generic
  facts about words, lists and options.

  Host failure (a failing \<open>assert\<close>, \<open>std::abort\<close>, an access out of the
  bounds of a C++ array) is the value \<open>None\<close> of the option type; what the
  simulated program can observe (an XCore exception, a deschedule, a failed
  lookup) is always an explicit datatype of the component concerned.
\<close>

unbundle bit_operations_syntax

type_synonym u8 = "8 word"
type_synonym u16 = "16 word"
type_synonym u32 = "32 word"
type_synonym u64 = "64 word"

text \<open>\<open>ticks_t\<close> of \<open>Config.h\<close>: a 64 bit count of reference cycles.\<close>

type_synonym ticks_t = u64

named_theorems frame_simps \<open>what an operation leaves unchanged\<close>
named_theorems step_simps \<open>unfolding of handler definitions\<close>
named_theorems decode_simps \<open>unfolding of the instruction decoder\<close>

text \<open>\<open>assert\<close> and \<open>abort\<close>: the run of the host program ends.\<close>

definition assert_that :: "bool \<Rightarrow> unit option" where
  "assert_that b = (if b then Some () else None)"

text \<open>Reading and writing an element of a C++ array; out of bounds the run ends.\<close>

definition array_get :: "'a list \<Rightarrow> nat \<Rightarrow> 'a option" where
  "array_get xs i = (if i < length xs then Some (xs ! i) else None)"

definition array_set :: "'a list \<Rightarrow> nat \<Rightarrow> 'a \<Rightarrow> 'a list option" where
  "array_set xs i v = (if i < length xs then Some (xs[i := v]) else None)"

lemma array_get_eq [simp]: "i < length xs \<Longrightarrow> array_get xs i = Some (xs ! i)"
  by (simp add: array_get_def)

lemma array_set_eq [simp]: "i < length xs \<Longrightarrow> array_set xs i v = Some (xs[i := v])"
  by (simp add: array_set_def)

subsection \<open>Words\<close>

lemma assert_that_simps [simp]:
  "assert_that True = Some ()"
  "assert_that False = None"
  by (simp_all add: assert_that_def)

lemma assert_that_eq_Some [simp]: "assert_that b = Some u \<longleftrightarrow> b"
  by (simp add: assert_that_def)

lemma bit32_lessD: "bit (x :: u32) n \<Longrightarrow> n < 32"
  using bit_imp_le_length [of x n] by simp

lemma not_bit32 [simp]: "32 \<le> n \<Longrightarrow> \<not> bit (x :: u32) n"
  using bit32_lessD by force

lemma not_bit8 [simp]: "8 \<le> n \<Longrightarrow> \<not> bit (x :: u8) n"
  using bit_imp_le_length [of x n] by force

lemma not_bit16 [simp]: "16 \<le> n \<Longrightarrow> \<not> bit (x :: u16) n"
  using bit_imp_le_length [of x n] by force

lemma all_less_32:
  assumes "list_all P [0, 1, 2, 3, 4, 5, 6, 7, 8, 9, 10, 11, 12, 13, 14, 15, 16, 17, 18, 19, 20, 21, 22, 23, 24, 25, 26, 27, 28, 29, 30, 31]" and "n < (32 :: nat)"
  shows "P n"
proof -
  have "[0 ..< 32] = [0, 1, 2, 3, 4, 5, 6, 7, 8, 9, 10, 11, 12, 13, 14, 15, 16, 17, 18, 19, 20, 21, 22, 23, 24, 25, 26, 27, 28, 29, 30, 31 :: nat]"
    by code_simp
  with assms show ?thesis
    by (metis atLeastLessThan_iff le0 list_all_iff set_upt)
qed

lemma word32_eqI: "(\<And>n. n < 32 \<Longrightarrow> bit (x :: u32) n = bit y n) \<Longrightarrow> x = y"
  by (rule bit_word_eqI) simp

lemma word8_eqI: "(\<And>n. n < 8 \<Longrightarrow> bit (x :: u8) n = bit y n) \<Longrightarrow> x = y"
  by (rule bit_word_eqI) simp

lemma word16_eqI: "(\<And>n. n < 16 \<Longrightarrow> bit (x :: u16) n = bit y n) \<Longrightarrow> x = y"
  by (rule bit_word_eqI) simp

lemma push_one_minus_one: "push_bit k 1 - 1 = (mask k :: 'a::len word)"
  by (simp add: mask_eq_exp_minus_1 push_bit_eq_mult)

lemma unat_drop_bit_less: "x \<noteq> 0 \<Longrightarrow> unat (drop_bit (Suc 0) x) < unat (x :: u32)"
  by (simp add: drop_bit_eq_div unat_div unat_gt_0)

lemma unat_less_32: "unat (a :: u32) < 2 ^ 32"
  using unsigned_less [where 'a = nat and w = a] by simp

lemma unat_ucast64: "unat (ucast (a :: u32) :: u64) = unat a"
  using unat_less_32 [of a] by (simp add: unsigned_ucast_eq take_bit_nat_eq_self)

lemma unat_ucast32: "unat (w :: u64) < 2 ^ 32 \<Longrightarrow> unat (ucast w :: u32) = unat w"
  by (simp add: unsigned_ucast_eq take_bit_nat_eq_self)

lemma unat_half: "unat (drop_bit (Suc 0) (a :: u32)) = unat a div 2"
  by (simp only: unat_drop_bit_eq) (simp only: drop_bit_eq_div power_Suc power_0 mult_1_right)

lemma unat_pow: "k < 32 \<Longrightarrow> unat (2 ^ k :: u32) = 2 ^ k"
proof -
  assume "k < 32"
  then have "(2 :: nat) ^ k < 2 ^ 32"
    by (rule power_strict_increasing) simp
  then show ?thesis
    using unat_of_nat [of "2 ^ k", where 'a = 32] by (simp add: take_bit_nat_eq_self)
qed

end
