(* ===== verification/RingBuffer.thy ===== *)
theory RingBuffer
  imports Prelude
begin

text \<open>
  The class template \<open>ring_buffer\<close> of \<open>ring_buffer.h\<close>, the storage of
  the token buffer of a channel end.  The indices are C++ \<open>unsigned\<close> values
  and wrap at 32 bits; \<open>BufSize\<close> is the length of the array \<open>buf\<close>.  The
  contract \<open>fifo\<close> states what the users of the class rely on in terms of
  the list of stored entries, oldest first, and the class is shown to meet it.
\<close>

record 'k ring_buffer =
  buf :: "'k list"
  writeIdx :: u32
  readIdx :: u32
  numEntries :: u32

text \<open>The constructor leaves the array elements to \<open>Kind\<close>'s default constructor.\<close>

definition rb_new :: "'k \<Rightarrow> nat \<Rightarrow> 'k ring_buffer" where
  "rb_new dflt bufSize =
     \<lparr>buf = replicate bufSize dflt, writeIdx = 0, readIdx = 0, numEntries = 0\<rparr>"

definition rb_BufSize :: "'k ring_buffer \<Rightarrow> u32" where
  "rb_BufSize rb = of_nat (length (buf rb))"

definition rb_empty :: "'k ring_buffer \<Rightarrow> bool" where
  "rb_empty rb \<longleftrightarrow> numEntries rb = 0"

definition rb_full :: "'k ring_buffer \<Rightarrow> bool" where
  "rb_full rb \<longleftrightarrow> numEntries rb = rb_BufSize rb"

definition rb_push_back :: "'k \<Rightarrow> 'k ring_buffer \<Rightarrow> 'k ring_buffer" where
  "rb_push_back t rb = rb
     \<lparr>buf := (buf rb)[unat (writeIdx rb) := t],
      writeIdx := (writeIdx rb + 1) mod rb_BufSize rb,
      numEntries := numEntries rb + 1\<rparr>"

definition rb_pop_front :: "'k ring_buffer \<Rightarrow> 'k ring_buffer" where
  "rb_pop_front rb = rb
     \<lparr>readIdx := (readIdx rb + 1) mod rb_BufSize rb,
      numEntries := numEntries rb - 1\<rparr>"

definition rb_pop_front_num :: "u32 \<Rightarrow> 'k ring_buffer \<Rightarrow> 'k ring_buffer" where
  "rb_pop_front_num num rb = rb
     \<lparr>readIdx := (readIdx rb + num) mod rb_BufSize rb,
      numEntries := numEntries rb - num\<rparr>"

definition rb_size :: "'k ring_buffer \<Rightarrow> u32" where
  "rb_size rb = numEntries rb"

definition rb_capacity :: "'k ring_buffer \<Rightarrow> u32" where
  "rb_capacity rb = rb_BufSize rb"

definition rb_remaining :: "'k ring_buffer \<Rightarrow> u32" where
  "rb_remaining rb = rb_capacity rb - rb_size rb"

definition rb_front :: "'k ring_buffer \<Rightarrow> 'k" where
  "rb_front rb = buf rb ! unat (readIdx rb)"

definition rb_back :: "'k ring_buffer \<Rightarrow> 'k" where
  "rb_back rb = buf rb ! unat ((writeIdx rb - 1) mod rb_BufSize rb)"

definition rb_at :: "'k ring_buffer \<Rightarrow> u32 \<Rightarrow> 'k" where
  "rb_at rb idx = buf rb ! unat ((readIdx rb + idx) mod rb_BufSize rb)"

definition rb_clear :: "'k ring_buffer \<Rightarrow> 'k ring_buffer" where
  "rb_clear rb = rb\<lparr>readIdx := writeIdx rb, numEntries := 0\<rparr>"

subsection \<open>The entries of a buffer and its invariant\<close>

definition rb_list :: "'k ring_buffer \<Rightarrow> 'k list" where
  "rb_list rb = map (\<lambda>i. buf rb ! ((unat (readIdx rb) + i) mod length (buf rb)))
     [0 ..< unat (numEntries rb)]"

definition rb_inv :: "nat \<Rightarrow> 'k ring_buffer \<Rightarrow> bool" where
  "rb_inv bufSize rb \<longleftrightarrow>
     length (buf rb) = bufSize \<and> 0 < bufSize \<and> bufSize < 2 ^ 31
     \<and> unat (numEntries rb) \<le> bufSize \<and> unat (readIdx rb) < bufSize
     \<and> unat (writeIdx rb) = (unat (readIdx rb) + unat (numEntries rb)) mod bufSize"

lemma unat_ring_index:
  assumes "n < 2 ^ 31" "unat a < n" "unat k \<le> n"
  shows "unat ((a + k) mod of_nat n :: u32) = (unat a + unat k) mod n"
proof -
  have "unat (a + k) = unat a + unat k"
    using assms by (intro unat_plus_simple [THEN iffD1]) (simp add: word_le_nat_alt unat_word_ariths)
  then show ?thesis
    using assms by (simp add: unat_mod_distrib unat_of_nat)
qed

lemma rb_index:
  assumes "rb_inv n rb" "unat a < n" "unat k \<le> n"
  shows "unat ((a + k) mod rb_BufSize rb) = (unat a + unat k) mod n"
  using assms unat_ring_index [of n a k] by (simp add: rb_inv_def rb_BufSize_def)

lemma rb_inv_BufSize: "rb_inv n rb \<Longrightarrow> unat (rb_BufSize rb) = n"
  by (simp add: rb_inv_def rb_BufSize_def unat_of_nat)

lemma length_rb_list [simp]: "length (rb_list rb) = unat (numEntries rb)"
  by (simp add: rb_list_def)

lemma nth_rb_list:
  "i < unat (numEntries rb) \<Longrightarrow>
     rb_list rb ! i = buf rb ! ((unat (readIdx rb) + i) mod length (buf rb))"
  by (simp add: rb_list_def)

lemma ring_index_inj_le:
  assumes "(r + j) mod n = (r + i) mod n" "i \<le> j" "j < (n :: nat)"
  shows "i = j"
  using assms mod_eq_dvd_iff_nat [of "r + i" "r + j" n] by (auto dest: dvd_imp_le)

lemma ring_index_inj:
  assumes "(r + i) mod n = (r + j) mod n" "i < n" "j < (n :: nat)"
  shows "i = j"
  using assms ring_index_inj_le [of r i n j] ring_index_inj_le [of r j n i] by (cases "i \<le> j") auto

lemma ring_index_Suc: "Suc (r mod n) mod n = Suc r mod (n :: nat)"
  by (simp add: mod_Suc_eq)

subsection \<open>Every operation keeps the invariant and is the list operation\<close>

lemma rb_new_correct:
  "0 < n \<Longrightarrow> n < 2 ^ 31 \<Longrightarrow> rb_inv n (rb_new dflt n) \<and> rb_list (rb_new dflt n) = []"
  by (simp add: rb_inv_def rb_list_def rb_new_def)

lemma rb_empty_correct: "rb_empty rb \<longleftrightarrow> rb_list rb = []"
  by (simp add: rb_empty_def rb_list_def unat_eq_0)

lemma rb_full_correct: "rb_inv n rb \<Longrightarrow> rb_full rb \<longleftrightarrow> length (rb_list rb) = n"
  using rb_inv_BufSize [of n rb] by (auto simp: rb_full_def word_unat_eq_iff)

lemma rb_size_correct: "unat (rb_size rb) = length (rb_list rb)"
  by (simp add: rb_size_def)

lemma rb_remaining_correct: "rb_inv n rb \<Longrightarrow> unat (rb_remaining rb) = n - length (rb_list rb)"
  using rb_inv_BufSize [of n rb]
  by (simp add: rb_remaining_def rb_capacity_def rb_size_def unat_sub word_le_nat_alt rb_inv_def)

lemma rb_push_back_inv:
  assumes inv: "rb_inv n rb" and room: "length (rb_list rb) < n"
  shows "rb_inv n (rb_push_back t rb)"
    and "numEntries (rb_push_back t rb) = numEntries rb + 1"
    and "unat (numEntries rb + 1) = unat (numEntries rb) + 1"
proof -
  have num: "unat (numEntries rb + 1) = unat (numEntries rb) + 1"
    using inv room by (auto simp: rb_inv_def unat_word_ariths)
  have "unat ((writeIdx rb + 1) mod rb_BufSize rb) = (unat (writeIdx rb) + unat (1 :: u32)) mod n"
    using inv by (intro rb_index) (auto simp: rb_inv_def)
  then show "rb_inv n (rb_push_back t rb)"
    using inv room num by (auto simp: rb_inv_def rb_push_back_def mod_simps)
  show "numEntries (rb_push_back t rb) = numEntries rb + 1"
    by (simp add: rb_push_back_def)
  show "unat (numEntries rb + 1) = unat (numEntries rb) + 1"
    by (fact num)
qed

lemma rb_push_back_list:
  assumes inv: "rb_inv n rb" and room: "length (rb_list rb) < n"
  shows "rb_list (rb_push_back t rb) = rb_list rb @ [t]"
proof (rule nth_equalityI)
  have n: "length (buf rb) = n" "unat (writeIdx rb) < n"
    "unat (writeIdx rb) = (unat (readIdx rb) + unat (numEntries rb)) mod n"
    using inv by (auto simp: rb_inv_def)
  show "length (rb_list (rb_push_back t rb)) = length (rb_list rb @ [t])"
    using rb_push_back_inv [OF inv room] by simp
  fix i
  assume "i < length (rb_list (rb_push_back t rb))"
  then have i: "i \<le> unat (numEntries rb)"
    using rb_push_back_inv [OF inv room] by simp
  then have "rb_list (rb_push_back t rb) ! i =
      (buf rb)[unat (writeIdx rb) := t] ! ((unat (readIdx rb) + i) mod n)"
    using rb_push_back_inv [OF inv room] n by (subst nth_rb_list) (auto simp: rb_push_back_def)
  also have "\<dots> = (rb_list rb @ [t]) ! i"
  proof (cases "i = unat (numEntries rb)")
    case True
    then show ?thesis
      using n by (simp add: nth_append)
  next
    case False
    then have "(unat (readIdx rb) + i) mod n \<noteq> unat (writeIdx rb)"
      using i room n ring_index_inj [of "unat (readIdx rb)" i n "unat (numEntries rb)"] by auto
    with False i n show ?thesis
      by (simp add: nth_append nth_rb_list)
  qed
  finally show "rb_list (rb_push_back t rb) ! i = (rb_list rb @ [t]) ! i" .
qed

lemma rb_pop_front_num_inv:
  assumes inv: "rb_inv n rb" and some: "unat num \<le> length (rb_list rb)"
  shows "rb_inv n (rb_pop_front_num num rb)"
    and "rb_list (rb_pop_front_num num rb) = drop (unat num) (rb_list rb)"
proof -
  have rd: "unat ((readIdx rb + num) mod rb_BufSize rb) = (unat (readIdx rb) + unat num) mod n"
    using inv some by (intro rb_index) (auto simp: rb_inv_def)
  have num: "unat (numEntries rb - num) = unat (numEntries rb) - unat num"
    using some by (simp add: unat_sub word_le_nat_alt)
  have "(unat (readIdx rb) + unat (numEntries rb)) mod n =
      ((unat (readIdx rb) + unat num) mod n + (unat (numEntries rb) - unat num)) mod n"
    using some by (subst mod_add_left_eq) simp
  then show "rb_inv n (rb_pop_front_num num rb)"
    using inv rd num by (auto simp: rb_inv_def rb_pop_front_num_def)
  have n: "length (buf rb) = n"
    using inv by (simp add: rb_inv_def)
  show "rb_list (rb_pop_front_num num rb) = drop (unat num) (rb_list rb)"
    by (rule nth_equalityI)
      (auto simp: rb_pop_front_num_def nth_rb_list num rd n mod_simps add.assoc)
qed

lemma rb_pop_front_eq: "rb_pop_front rb = rb_pop_front_num 1 rb"
  by (simp add: rb_pop_front_def rb_pop_front_num_def)

lemma rb_at_correct:
  assumes inv: "rb_inv n rb" and idx: "unat idx < length (rb_list rb)"
  shows "rb_at rb idx = rb_list rb ! unat idx"
proof -
  have "unat ((readIdx rb + idx) mod rb_BufSize rb) = (unat (readIdx rb) + unat idx) mod n"
    using inv idx by (intro rb_index) (auto simp: rb_inv_def)
  with inv idx show ?thesis
    by (simp add: rb_at_def nth_rb_list rb_inv_def)
qed

lemma rb_front_correct:
  assumes "rb_inv n rb" "rb_list rb \<noteq> []"
  shows "rb_front rb = hd (rb_list rb)"
proof -
  have "0 < unat (numEntries rb)"
    using assms(2) by (metis length_greater_0_conv length_rb_list)
  with assms show ?thesis
    by (simp add: hd_conv_nth nth_rb_list rb_front_def rb_inv_def)
qed

lemma rb_clear_correct: "rb_inv n rb \<Longrightarrow> rb_inv n (rb_clear rb) \<and> rb_list (rb_clear rb) = []"
  by (auto simp: rb_inv_def rb_clear_def rb_list_def)

lemma unat_pred_mod:
  assumes "n dvd 2 ^ 32" "0 < n" "unat w < n" "n < 2 ^ 32"
  shows "unat ((w - 1) mod of_nat n :: u32) = (unat w + (n - 1)) mod n"
proof (cases "w = 0")
  case True
  from assms(1) obtain k where k: "2 ^ 32 = n * k" ..
  then have "(2 ^ 32 - 1) mod n = (n * (k - 1) + (n - 1)) mod n"
    using assms(2) by (cases k) (simp_all add: algebra_simps)
  also have "\<dots> = n - 1"
    using assms(2) by (subst mod_mult_self4) simp
  finally show ?thesis
    using True assms by (simp add: unat_mod_distrib unat_of_nat unsigned_minus_1_eq_mask
        mask_eq_exp_minus_1)
next
  case False
  then have "unat w + (n - 1) = (unat w - 1) + n"
    using assms(2) by (cases "unat w") (simp_all add: unat_eq_0)
  moreover have "unat ((w - 1) mod of_nat n) = (unat w - 1) mod n"
    using False assms(4) by (simp add: unat_mod_distrib unat_of_nat unat_minus_one)
  ultimately show ?thesis
    by (metis mod_add_self2)
qed

lemma rb_back_correct:
  assumes inv: "rb_inv n rb" and some: "rb_list rb \<noteq> []" and dvd: "n dvd 2 ^ 32"
  shows "rb_back rb = last (rb_list rb)"
proof -
  have pos: "0 < unat (numEntries rb)"
    using some by (metis length_greater_0_conv length_rb_list)
  have "unat ((writeIdx rb - 1) mod rb_BufSize rb) = (unat (writeIdx rb) + (n - 1)) mod n"
    using inv dvd unat_pred_mod [of n "writeIdx rb"] by (auto simp: rb_inv_def rb_BufSize_def)
  also have "\<dots> = (unat (readIdx rb) + unat (numEntries rb) + (n - 1)) mod n"
    using inv unfolding rb_inv_def by (metis mod_add_left_eq)
  also have "\<dots> = (unat (readIdx rb) + (unat (numEntries rb) - 1) + n) mod n"
    using pos inv by (intro arg_cong [where f = "\<lambda>x. x mod n"]) (auto simp: rb_inv_def)
  also have "\<dots> = (unat (readIdx rb) + (unat (numEntries rb) - 1)) mod n"
    by (rule mod_add_self2)
  finally show ?thesis
    using inv some pos by (simp add: rb_back_def last_conv_nth nth_rb_list rb_inv_def)
qed

subsection \<open>The contract of a bounded first-in first-out queue\<close>

locale fifo =
  fixes inv :: "'q \<Rightarrow> bool"
    and entries :: "'q \<Rightarrow> 'k list"
    and limit :: nat
    and push :: "'k \<Rightarrow> 'q \<Rightarrow> 'q"
    and pop :: "'q \<Rightarrow> 'q"
    and front :: "'q \<Rightarrow> 'k"
    and is_empty :: "'q \<Rightarrow> bool"
    and is_full :: "'q \<Rightarrow> bool"
  assumes entries_limit: "inv q \<Longrightarrow> length (entries q) \<le> limit"
    and is_empty_iff: "inv q \<Longrightarrow> is_empty q \<longleftrightarrow> entries q = []"
    and is_full_iff: "inv q \<Longrightarrow> is_full q \<longleftrightarrow> length (entries q) = limit"
    and push_inv: "inv q \<Longrightarrow> \<not> is_full q \<Longrightarrow> inv (push k q)"
    and push_entries: "inv q \<Longrightarrow> \<not> is_full q \<Longrightarrow> entries (push k q) = entries q @ [k]"
    and pop_inv: "inv q \<Longrightarrow> \<not> is_empty q \<Longrightarrow> inv (pop q)"
    and pop_entries: "inv q \<Longrightarrow> \<not> is_empty q \<Longrightarrow> entries (pop q) = tl (entries q)"
    and front_entries: "inv q \<Longrightarrow> \<not> is_empty q \<Longrightarrow> front q = hd (entries q)"
begin

lemma push_all:
  assumes "inv q" "length (entries q) + length ks \<le> limit"
  shows "inv (fold push ks q) \<and> entries (fold push ks q) = entries q @ ks"
  using assms
proof (induction ks arbitrary: q)
  case (Cons k ks)
  then have "\<not> is_full q"
    by (simp add: is_full_iff)
  with Cons show ?case
    by (simp add: push_inv push_entries)
qed simp

lemma pop_many:
  assumes "inv q" "n \<le> length (entries q)"
  shows "inv ((pop ^^ n) q) \<and> entries ((pop ^^ n) q) = drop n (entries q)"
  using assms
proof (induction n)
  case (Suc n)
  then have "\<not> is_empty ((pop ^^ n) q)"
    by (auto simp: is_empty_iff)
  with Suc show ?case
    by (simp add: pop_inv pop_entries drop_Suc tl_drop)
qed simp

text \<open>What a producer pushed is what a consumer reads, in that order.\<close>

lemma push_then_front:
  assumes "inv q" "length (entries q) + length ks \<le> limit" "i < length ks"
  shows "front ((pop ^^ (length (entries q) + i)) (fold push ks q)) = ks ! i"
proof -
  have *: "inv ((pop ^^ (length (entries q) + i)) (fold push ks q))"
    "entries ((pop ^^ (length (entries q) + i)) (fold push ks q)) = drop i ks"
    using push_all [OF assms(1,2)] pop_many [of "fold push ks q" "length (entries q) + i"] assms(3)
    by simp_all
  with assms(3) have "\<not> is_empty ((pop ^^ (length (entries q) + i)) (fold push ks q))"
    by (simp add: is_empty_iff)
  with * assms(3) show ?thesis
    by (simp add: front_entries hd_drop_conv_nth)
qed

end

text \<open>The buffer of every channel end, and of every other capacity below \<open>2 ^ 31\<close>.\<close>

interpretation rb: fifo "rb_inv n" rb_list n rb_push_back rb_pop_front rb_front rb_empty rb_full
  for n :: nat
proof unfold_locales
  fix q :: "'k ring_buffer" and k :: 'k
  show "rb_inv n q \<Longrightarrow> length (rb_list q) \<le> n"
    by (simp add: rb_inv_def)
  show "rb_inv n q \<Longrightarrow> rb_empty q \<longleftrightarrow> rb_list q = []"
    by (rule rb_empty_correct)
  show "rb_inv n q \<Longrightarrow> rb_full q \<longleftrightarrow> length (rb_list q) = n"
    by (rule rb_full_correct)
  show "rb_inv n q \<Longrightarrow> \<not> rb_full q \<Longrightarrow> rb_inv n (rb_push_back k q)"
    and "rb_inv n q \<Longrightarrow> \<not> rb_full q \<Longrightarrow> rb_list (rb_push_back k q) = rb_list q @ [k]"
    using rb_push_back_inv(1) [of n q k] rb_push_back_list [of n q k] rb_full_correct [of n q]
    by (auto simp: rb_inv_def le_less)
  show "rb_inv n q \<Longrightarrow> \<not> rb_empty q \<Longrightarrow> rb_inv n (rb_pop_front q)"
    and "rb_inv n q \<Longrightarrow> \<not> rb_empty q \<Longrightarrow> rb_list (rb_pop_front q) = tl (rb_list q)"
    and "rb_inv n q \<Longrightarrow> \<not> rb_empty q \<Longrightarrow> rb_front q = hd (rb_list q)"
    by (auto simp: rb_pop_front_eq rb_pop_front_num_inv rb_empty_correct drop_Suc Suc_le_eq
        rb_front_correct simp flip: length_rb_list)
qed

text \<open>
  C25. A ring buffer is a first-in first-out queue.  Whatever is in a buffer of
  capacity \<open>n\<close>, pushing the entries \<open>ks\<close> while they fit and popping back to
  the \<open>i\<close>-th of them leaves exactly this entry at the front, however often
  the indices wrap around.
\<close>

theorem ring_buffer_fifo:
  assumes "rb_inv n q" "length (rb_list q) + length ks \<le> n" "i < length ks"
  shows "rb_front ((rb_pop_front ^^ (length (rb_list q) + i)) (fold rb_push_back ks q)) = ks ! i"
  using assms by (rule rb.push_then_front)

theorem ring_buffer_fifo_witness:
  "rb_front ((rb_pop_front ^^ 1) (fold rb_push_back [5, 6, 7] (rb_new (0 :: nat) 4))) = 6"
  using ring_buffer_fifo [of 4 "rb_new (0 :: nat) 4" "[5, 6, 7]" 1] rb_new_correct [of 4 "0 :: nat"]
  by (simp add: rb_new_def)



end
