(* ===== verification/RunnableQueue.thy ===== *)
theory RunnableQueue
  imports Prelude "HOL-Library.Multiset"
begin

text \<open>
  The scheduler queue of \<open>RunnableQueue.h\<close> and \<open>RunnableQueue.cpp\<close>: an
  intrusive doubly linked list of \<open>Runnable\<close> objects ordered by wake up
  time.  The link fields of the objects are functions of the object identity
  \<open>'r\<close>; a null pointer is \<open>None\<close>.  The queue is shown to refine a list of
  (time, runnable) pairs that is sorted by time and in which entries of equal
  time keep the order in which they were pushed.
\<close>

record 'r runnable_queue =
  rq_head :: "'r option"
  rq_prev :: "'r \<Rightarrow> 'r option"
  rq_next :: "'r \<Rightarrow> 'r option"
  rq_wakeUpTime :: "'r \<Rightarrow> ticks_t"

text \<open>The constructors of \<open>RunnableQueue\<close> and of \<open>Runnable\<close>.\<close>

definition rq_new :: "'r runnable_queue" where
  "rq_new = \<lparr>rq_head = None, rq_prev = (\<lambda>_. None), rq_next = (\<lambda>_. None),
     rq_wakeUpTime = (\<lambda>_. 0)\<rparr>"

definition rq_contains :: "'r runnable_queue \<Rightarrow> 'r \<Rightarrow> bool" where
  "rq_contains q thread \<longleftrightarrow> rq_prev q thread \<noteq> None \<or> rq_head q = Some thread"

definition rq_front :: "'r runnable_queue \<Rightarrow> 'r option" where
  "rq_front q = rq_head q"

definition rq_empty :: "'r runnable_queue \<Rightarrow> bool" where
  "rq_empty q \<longleftrightarrow> rq_head q = None"

text \<open>Assignments through a pointer that may be null.\<close>

definition set_prev :: "'r option \<Rightarrow> 'r option \<Rightarrow> 'r runnable_queue \<Rightarrow> 'r runnable_queue" where
  "set_prev r p q = (case r of None \<Rightarrow> q | Some x \<Rightarrow> q\<lparr>rq_prev := (rq_prev q)(x := p)\<rparr>)"

definition set_next :: "'r option \<Rightarrow> 'r option \<Rightarrow> 'r runnable_queue \<Rightarrow> 'r runnable_queue" where
  "set_next r n q = (case r of None \<Rightarrow> q | Some x \<Rightarrow> q\<lparr>rq_next := (rq_next q)(x := n)\<rparr>)"

definition rq_remove :: "'r \<Rightarrow> 'r runnable_queue \<Rightarrow> 'r runnable_queue option" where
  "rq_remove thread q = do {
     assert_that (rq_contains q thread);
     let q = (if rq_head q = Some thread then q\<lparr>rq_head := rq_next q thread\<rparr>
              else set_next (rq_prev q thread) (rq_next q thread) q);
     let q = set_prev (rq_next q thread) (rq_prev q thread) q;
     Some (set_prev (Some thread) None q)
   }"

text \<open>
  The search loop of \<open>push\<close>.  It follows \<open>next\<close> pointers, so it ends only
  on a list without a cycle.
\<close>

partial_function (option) rq_push_scan ::
  "'r runnable_queue \<Rightarrow> ticks_t \<Rightarrow> 'r \<Rightarrow> 'r option" where
  "rq_push_scan q time p =
     (case rq_next q p of
        None \<Rightarrow> Some p
      | Some n \<Rightarrow> if rq_wakeUpTime q n \<le> time then rq_push_scan q time n else Some p)"

declare rq_push_scan.simps [code]

definition rq_push :: "'r \<Rightarrow> ticks_t \<Rightarrow> 'r runnable_queue \<Rightarrow> 'r runnable_queue option" where
  "rq_push thread time q = do {
     q \<leftarrow> (if rq_contains q thread then rq_remove thread q else Some q);
     let q = q\<lparr>rq_wakeUpTime := (rq_wakeUpTime q)(thread := time)\<rparr>;
     (case rq_head q of
        None \<Rightarrow> Some (set_next (Some thread) None q\<lparr>rq_head := Some thread\<rparr>)
      | Some front \<Rightarrow>
          if time < rq_wakeUpTime q front then
            Some ((set_next (Some thread) (Some front) (set_prev (Some front) (Some thread) q))
              \<lparr>rq_head := Some thread\<rparr>)
          else do {
            p \<leftarrow> rq_push_scan q time front;
            let q = set_prev (Some thread) (Some p) q;
            let q = set_next (Some thread) (rq_next q p) q;
            let q = set_prev (rq_next q p) (Some thread) q;
            Some (set_next (Some p) (Some thread) q)
          })
   }"

definition rq_pop :: "'r runnable_queue \<Rightarrow> 'r runnable_queue option" where
  "rq_pop q = (case rq_head q of
      None \<Rightarrow> None
    | Some front \<Rightarrow>
        let q = set_prev (rq_next q front) None q in
        Some (q\<lparr>rq_head := rq_next q front\<rparr>))"

subsection \<open>The list of queued runnables\<close>

text \<open>
  A segment of the linked list: entered at pointer \<open>h\<close> from the element
  \<open>p\<close>, left at element \<open>l\<close> through pointer \<open>e\<close>.
\<close>

fun dseg :: "'r runnable_queue \<Rightarrow> 'r option \<Rightarrow> 'r option \<Rightarrow> 'r list \<Rightarrow> 'r option \<Rightarrow> 'r option \<Rightarrow> bool" where
  "dseg q p h [] l e \<longleftrightarrow> h = e \<and> p = l"
| "dseg q p h (x # xs) l e \<longleftrightarrow>
     h = Some x \<and> rq_prev q x = p \<and> dseg q (Some x) (rq_next q x) xs l e"

definition rq_inv :: "'r runnable_queue \<Rightarrow> 'r list \<Rightarrow> bool" where
  "rq_inv q xs \<longleftrightarrow>
     (\<exists>l. dseg q None (rq_head q) xs l None) \<and> distinct xs
     \<and> (\<forall>x. x \<notin> set xs \<longrightarrow> rq_prev q x = None)
     \<and> sorted (map (rq_wakeUpTime q) xs)"

text \<open>The abstract queue: a list sorted by time, equal times in push order.\<close>

type_synonym 'r schedule = "(ticks_t \<times> 'r) list"

definition sched_remove :: "'r \<Rightarrow> 'r schedule \<Rightarrow> 'r schedule" where
  "sched_remove x s = filter (\<lambda>(t, y). y \<noteq> x) s"

definition sched_insert :: "ticks_t \<Rightarrow> 'r \<Rightarrow> 'r schedule \<Rightarrow> 'r schedule" where
  "sched_insert time x s =
     takeWhile (\<lambda>(t, y). t \<le> time) s @ (time, x) # dropWhile (\<lambda>(t, y). t \<le> time) s"

definition rq_schedule :: "'r runnable_queue \<Rightarrow> 'r list \<Rightarrow> 'r schedule" where
  "rq_schedule q xs = map (\<lambda>x. (rq_wakeUpTime q x, x)) xs"

lemma dseg_append:
  "dseg q p h (xs @ ys) l e \<longleftrightarrow> (\<exists>m k. dseg q p h xs m k \<and> dseg q m k ys l e)"
  by (induction xs arbitrary: p h) auto

lemma dseg_cong:
  assumes "\<And>x. x \<in> set xs \<Longrightarrow> rq_next q' x = rq_next q x \<and> rq_prev q' x = rq_prev q x"
  shows "dseg q' p h xs l e = dseg q p h xs l e"
  using assms by (induction xs arbitrary: p h) auto

lemma set_prev_simps [simp]:
  "set_prev None p q = q"
  "rq_head (set_prev r p q) = rq_head q"
  "rq_next (set_prev r p q) = rq_next q"
  "rq_wakeUpTime (set_prev r p q) = rq_wakeUpTime q"
  "rq_prev (set_prev (Some x) p q) = (rq_prev q)(x := p)"
  by (simp_all add: set_prev_def split: option.splits)

lemma set_next_simps [simp]:
  "set_next None p q = q"
  "rq_head (set_next r p q) = rq_head q"
  "rq_prev (set_next r p q) = rq_prev q"
  "rq_wakeUpTime (set_next r p q) = rq_wakeUpTime q"
  "rq_next (set_next (Some x) p q) = (rq_next q)(x := p)"
  by (simp_all add: set_next_def split: option.splits)

lemma dseg_frame [simp]:
  "r \<notin> set xs \<Longrightarrow> dseg (set_prev (Some r) v q) p h xs l e = dseg q p h xs l e"
  "r \<notin> set xs \<Longrightarrow> dseg (set_next (Some r) v q) p h xs l e = dseg q p h xs l e"
  "dseg (q\<lparr>rq_head := hp\<rparr>) p h xs l e = dseg q p h xs l e"
  "dseg (q\<lparr>rq_wakeUpTime := w\<rparr>) p h xs l e = dseg q p h xs l e"
  by (rule dseg_cong; auto)+

lemma dseg_last:
  "dseg q p h xs l e \<Longrightarrow> xs \<noteq> [] \<Longrightarrow> l = Some (last xs)"
  by (induction xs arbitrary: p h) (auto split: if_splits)

lemma rq_contains_iff:
  assumes "rq_inv q xs"
  shows "rq_contains q x \<longleftrightarrow> x \<in> set xs"
proof
  assume "rq_contains q x"
  with assms show "x \<in> set xs"
    by (cases xs) (auto simp: rq_inv_def rq_contains_def)
next
  assume "x \<in> set xs"
  then obtain us vs where xs: "xs = us @ x # vs"
    by (meson split_list)
  with assms obtain m l where "dseg q None (rq_head q) us m (Some x)" "rq_prev q x = m"
    by (auto simp: rq_inv_def dseg_append)
  then show "rq_contains q x"
    using dseg_last [of q None "rq_head q" us m "Some x"]
    by (cases "us = []") (auto simp: rq_contains_def)
qed

lemma rq_new_inv: "rq_inv rq_new []"
  by (simp add: rq_inv_def rq_new_def)

lemma rq_empty_iff: "rq_inv q xs \<Longrightarrow> rq_empty q \<longleftrightarrow> xs = []"
  by (cases xs) (auto simp: rq_inv_def rq_empty_def)

lemma rq_front_eq: "rq_inv q (x # xs) \<Longrightarrow> rq_front q = Some x"
  by (auto simp: rq_inv_def rq_front_def)

lemma rq_invI:
  assumes "dseg q None (rq_head q) xs l None" "distinct xs"
    and "\<And>x. x \<notin> set xs \<Longrightarrow> rq_prev q x = None" "sorted (map (rq_wakeUpTime q) xs)"
  shows "rq_inv q xs"
  using assms by (auto simp: rq_inv_def)

lemma rq_remove_inv:
  assumes inv: "rq_inv q (us @ x # vs)"
  shows "\<exists>q'. rq_remove x q = Some q' \<and> rq_inv q' (us @ vs)
    \<and> rq_wakeUpTime q' = rq_wakeUpTime q"
proof -
  from inv obtain l m where
    us: "dseg q None (rq_head q) us m (Some x)" and px: "rq_prev q x = m" and
    vs: "dseg q (Some x) (rq_next q x) vs l None" and
    dist: "distinct (us @ x # vs)" and out: "\<And>y. y \<notin> set (us @ x # vs) \<Longrightarrow> rq_prev q y = None"
    and srt: "sorted (map (rq_wakeUpTime q) (us @ x # vs))"
    unfolding rq_inv_def by (auto simp: dseg_append)
  have c: "rq_contains q x"
    using rq_contains_iff [OF inv] by simp
  define q1 where "q1 = (if rq_head q = Some x then q\<lparr>rq_head := rq_next q x\<rparr>
    else set_next (rq_prev q x) (rq_next q x) q)"
  define q2 where "q2 = set_prev (rq_next q1 x) (rq_prev q1 x) q1"
  define q3 where "q3 = set_prev (Some x) None q2"
  have run: "rq_remove x q = Some q3"
    using c by (simp add: rq_remove_def q3_def q2_def q1_def Let_def)
  have wk: "rq_wakeUpTime q3 = rq_wakeUpTime q"
    by (simp add: q3_def q2_def q1_def)
  have srt': "sorted (map (rq_wakeUpTime q3) (us @ vs))"
    using srt by (simp add: wk sorted_append)
  have "m \<noteq> Some x"
    using dseg_last [OF us] us dist by (cases "us = []") auto
  then have q1: "rq_next q1 x = rq_next q x" "rq_prev q1 = rq_prev q"
    using px by (auto simp: q1_def set_next_def split: option.splits)
  have out': "\<And>y. y \<notin> set (us @ vs) \<Longrightarrow> rq_prev q3 y = None"
    using out vs dist by (cases vs) (auto simp: q3_def q2_def q1)
  have "dseg q3 None (rq_head q3) (us @ vs) (if vs = [] then m else l) None"
  proof (cases us rule: rev_cases)
    case Nil
    then have "rq_head q = Some x" "m = None"
      using us by auto
    then show ?thesis
      using Nil vs px dist by (cases vs) (auto simp: q3_def q2_def q1_def)
  next
    case (snoc us' u)
    with us have u: "dseg q None (rq_head q) us' (rq_prev q u) (Some u)" "rq_next q u = Some x" "m = Some u"
      by (auto simp: dseg_append)
    have hx: "rq_head q \<noteq> Some x"
      using u(1) snoc dist by (cases us') auto
    have "rq_head q3 = rq_head q"
      using hx by (simp add: q3_def q2_def q1_def)
    moreover have "dseg q3 None (rq_head q) us' (rq_prev q u) (Some u)"
      using u(1) u(3) hx px vs snoc dist by (cases vs) (auto simp: q3_def q2_def q1_def)
    moreover have "rq_prev q3 u = rq_prev q u" "rq_next q3 u = rq_next q x"
      using u(1) u(3) hx px vs snoc dist by (cases vs; auto simp: q3_def q2_def q1_def)+
    moreover have "dseg q3 (Some u) (rq_next q x) vs (if vs = [] then m else l) None"
      using u(1) u(3) hx px vs snoc dist by (cases vs) (auto simp: q3_def q2_def q1_def)
    ultimately show ?thesis
      using snoc by (auto simp: dseg_append)
  qed
  then have "rq_inv q3 (us @ vs)"
    using dist out' srt' by (intro rq_invI) simp_all
  with run wk show ?thesis
    by blast
qed

lemma rq_pop_inv:
  assumes "rq_inv q (x # xs)"
  shows "\<exists>q'. rq_pop q = Some q' \<and> rq_inv q' xs \<and> rq_wakeUpTime q' = rq_wakeUpTime q"
proof -
  from assms obtain l where
    xs: "rq_head q = Some x" "rq_prev q x = None" "dseg q (Some x) (rq_next q x) xs l None" and
    dist: "distinct (x # xs)" and out: "\<And>y. y \<notin> set (x # xs) \<Longrightarrow> rq_prev q y = None"
    and srt: "sorted (map (rq_wakeUpTime q) (x # xs))"
    unfolding rq_inv_def by auto
  define q' where "q' = (set_prev (rq_next q x) None q)\<lparr>rq_head := rq_next q x\<rparr>"
  have "rq_pop q = Some q'"
    using xs by (simp add: rq_pop_def q'_def)
  moreover have "rq_inv q' xs"
  proof (rule rq_invI [where l = "if xs = [] then None else l"])
    show "dseg q' None (rq_head q') xs (if xs = [] then None else l) None"
      using xs(3) dist by (cases xs) (auto simp: q'_def)
    show "rq_prev q' y = None" if "y \<notin> set xs" for y
      using xs(2,3) out [of y] that by (cases "y = x"; cases xs) (auto simp: q'_def)
    show "distinct xs" "sorted (map (rq_wakeUpTime q') xs)"
      using dist srt by (simp_all add: q'_def)
  qed
  moreover have "rq_wakeUpTime q' = rq_wakeUpTime q"
    by (simp add: q'_def)
  ultimately show ?thesis
    by blast
qed

lemma rq_push_scan_eq:
  assumes "dseg q (Some p) (rq_next q p) xs l None"
  shows "rq_push_scan q time p =
    Some (last (p # takeWhile (\<lambda>x. rq_wakeUpTime q x \<le> time) xs))"
  using assms
  by (induction xs arbitrary: p) (subst rq_push_scan.simps; force)+

lemma sorted_insert_after:
  fixes f :: "'r \<Rightarrow> 'a::linorder"
  assumes "sorted (map f xs)" "f t = time"
  shows "sorted (map f (takeWhile (\<lambda>x. f x \<le> time) xs @ t # dropWhile (\<lambda>x. f x \<le> time) xs))"
  using assms
proof (induction xs)
  case (Cons x xs)
  show ?case
  proof (cases "f x \<le> time")
    case True
    have "f x \<le> f y" if "y \<in> set (takeWhile (\<lambda>x. f x \<le> time) xs) \<union> set (dropWhile (\<lambda>x. f x \<le> time) xs)" for y
      using Cons.prems that by (auto dest: set_takeWhileD set_dropWhileD)
    with True Cons show ?thesis
      by auto
  next
    case False
    with Cons.prems show ?thesis
      by auto
  qed
qed simp

text \<open>The two ways in which \<open>push\<close> links a runnable: at the head, and after \<open>u\<close>.\<close>

definition link_front :: "'r \<Rightarrow> 'r runnable_queue \<Rightarrow> 'r runnable_queue" where
  "link_front x q = (case rq_head q of
      None \<Rightarrow> set_next (Some x) None q\<lparr>rq_head := Some x\<rparr>
    | Some h \<Rightarrow> (set_next (Some x) (Some h) (set_prev (Some h) (Some x) q))\<lparr>rq_head := Some x\<rparr>)"

definition link_after :: "'r \<Rightarrow> 'r \<Rightarrow> 'r runnable_queue \<Rightarrow> 'r runnable_queue" where
  "link_after u x q = (
     let q = set_prev (Some x) (Some u) q;
         q = set_next (Some x) (rq_next q u) q;
         q = set_prev (rq_next q u) (Some x) q
     in set_next (Some u) (Some x) q)"

lemma link_wakeUpTime [simp]:
  "rq_wakeUpTime (link_front x q) = rq_wakeUpTime q"
  "rq_wakeUpTime (link_after u x q) = rq_wakeUpTime q"
  by (simp_all add: link_front_def link_after_def Let_def split: option.splits)

lemma link_front_inv:
  assumes seg: "dseg q None (rq_head q) xs l None" and dist: "distinct (x # xs)"
    and out: "\<And>y. y \<notin> set xs \<Longrightarrow> rq_prev q y = None"
    and srt: "sorted (map (rq_wakeUpTime q) (x # xs))"
  shows "rq_inv (link_front x q) (x # xs)"
proof (rule rq_invI [where l = "if xs = [] then Some x else l"])
  show "dseg (link_front x q) None (rq_head (link_front x q)) (x # xs)
      (if xs = [] then Some x else l) None"
    using seg dist out [of x] by (cases xs) (auto simp: link_front_def)
  show "rq_prev (link_front x q) y = None" if "y \<notin> set (x # xs)" for y
    using seg that out [of y] by (cases xs) (auto simp: link_front_def)
qed (use dist srt in simp_all)

lemma link_after_inv:
  assumes seg: "dseg q None (rq_head q) (us @ u # vs) l None" and dist: "distinct (us @ u # x # vs)"
    and out: "\<And>y. y \<notin> set (us @ u # vs) \<Longrightarrow> rq_prev q y = None"
    and srt: "sorted (map (rq_wakeUpTime q) (us @ u # x # vs))"
  shows "rq_inv (link_after u x q) (us @ u # x # vs)"
proof (rule rq_invI [where l = "if vs = [] then Some x else l"])
  let ?q = "link_after u x q"
  have us: "dseg q None (rq_head q) us (rq_prev q u) (Some u)"
    and vs: "dseg q (Some u) (rq_next q u) vs l None"
    using seg by (auto simp: dseg_append)
  have "dseg ?q None (rq_head ?q) us (rq_prev q u) (Some u)"
    using us dist vs by (cases vs) (auto simp: link_after_def)
  moreover have "dseg ?q (rq_prev q u) (Some u) [u, x] (Some x) (rq_next q u)"
    using dist vs by (cases vs) (auto simp: link_after_def)
  moreover have "dseg ?q (Some x) (rq_next q u) vs (if vs = [] then Some x else l) None"
    using dist vs by (cases vs) (auto simp: link_after_def)
  ultimately show "dseg ?q None (rq_head ?q) (us @ u # x # vs) (if vs = [] then Some x else l) None"
    by (auto simp: dseg_append)
  show "rq_prev ?q y = None" if "y \<notin> set (us @ u # x # vs)" for y
    using vs out [of y] that dist by (cases vs) (auto simp: link_after_def)
qed (use dist srt in simp_all)

lemma rq_push_absent_inv:
  fixes time :: ticks_t
  assumes inv: "rq_inv q xs" and x: "x \<notin> set xs"
  defines "w \<equiv> (rq_wakeUpTime q)(x := time)"
  shows "\<exists>q'. rq_push x time q = Some q' \<and> rq_wakeUpTime q' = w
    \<and> rq_inv q' (takeWhile (\<lambda>y. w y \<le> time) xs @ x # dropWhile (\<lambda>y. w y \<le> time) xs)"
    (is "\<exists>q'. _ \<and> _ \<and> rq_inv q' (?us @ x # ?vs)")
proof -
  define q0 where "q0 = q\<lparr>rq_wakeUpTime := w\<rparr>"
  from inv obtain l where
    seg: "dseg q0 None (rq_head q0) xs l None" and dist: "distinct xs" and
    out: "\<And>y. y \<notin> set xs \<Longrightarrow> rq_prev q0 y = None" and srt: "sorted (map (rq_wakeUpTime q) xs)"
    unfolding rq_inv_def q0_def by auto
  have wq0: "rq_wakeUpTime q0 = w"
    by (simp add: q0_def)
  have "map w xs = map (rq_wakeUpTime q) xs"
    using x by (auto simp: w_def)
  with srt have "sorted (map w xs)"
    by (simp only:)
  then have srt': "sorted (map w (?us @ x # ?vs))"
    by (rule sorted_insert_after) (simp add: w_def)
  have push: "rq_push x time q = (case rq_head q0 of
        None \<Rightarrow> Some (link_front x q0)
      | Some f \<Rightarrow>
          if time < w f then Some (link_front x q0)
          else Option.bind (rq_push_scan q0 time f) (\<lambda>p. Some (link_after p x q0)))"
    using rq_contains_iff [OF inv] x
    by (simp add: rq_push_def Let_def q0_def w_def link_front_def link_after_def split: option.split)
  have front: "\<exists>q'. rq_push x time q = Some q' \<and> rq_wakeUpTime q' = w \<and> rq_inv q' (x # xs)"
    if "?us = []"
  proof -
    have "rq_push x time q = Some (link_front x q0)"
      using that seg by (cases xs) (auto simp: push split: if_splits)
    then show ?thesis
      using that seg dist x out srt' dropWhile_eq_self_iff [of "\<lambda>y. w y \<le> time" xs]
      by (cases xs) (auto intro!: link_front_inv simp: wq0 split: if_splits)
  qed
  show ?thesis
  proof (cases "?us" rule: rev_cases)
    case Nil
    then have "?vs = xs"
      by (metis append_Nil takeWhile_dropWhile_id)
    with Nil front show ?thesis
      by simp
  next
    case (snoc us' u)
    then obtain f fs where f: "xs = f # fs" "w f \<le> time" "u = last (f # takeWhile (\<lambda>y. w y \<le> time) fs)"
      by (cases xs) (auto split: if_splits dest: arg_cong [where f = last])
    then have "rq_push x time q = Some (link_after u x q0)"
      using seg rq_push_scan_eq [of q0 f fs l time] by (auto simp: push wq0)
    moreover define vs where "vs = ?vs"
    have xs: "xs = us' @ u # vs"
      using snoc takeWhile_dropWhile_id [of "\<lambda>y. w y \<le> time" xs] by (simp add: vs_def)
    have "sorted (map w (us' @ u # x # vs))"
      using srt' snoc by (simp flip: vs_def)
    then have "rq_inv (link_after u x q0) (us' @ u # x # vs)"
      using seg dist x out unfolding xs by (intro link_after_inv [where l = l]) (auto simp: wq0)
    ultimately show ?thesis
      using snoc by (simp add: wq0 vs_def)
  qed
qed

subsection \<open>Refinement of the sorted list\<close>

definition rq_rel :: "'r runnable_queue \<Rightarrow> 'r schedule \<Rightarrow> bool" where
  "rq_rel q s \<longleftrightarrow> (\<exists>xs. rq_inv q xs \<and> s = rq_schedule q xs)"

lemma sched_insert_schedule:
  assumes "x \<notin> set xs" "rq_wakeUpTime q' = (rq_wakeUpTime q)(x := time)"
  shows "sched_insert time x (rq_schedule q xs) = rq_schedule q'
    (takeWhile (\<lambda>y. rq_wakeUpTime q' y \<le> time) xs @ x # dropWhile (\<lambda>y. rq_wakeUpTime q' y \<le> time) xs)"
  using assms by (induction xs) (auto simp: sched_insert_def rq_schedule_def)

lemma sched_remove_schedule:
  "sched_remove x (rq_schedule q xs) = rq_schedule q (filter (\<lambda>y. y \<noteq> x) xs)"
  by (induction xs) (auto simp: sched_remove_def rq_schedule_def)

lemma filter_split: "distinct (us @ x # vs) \<Longrightarrow> filter (\<lambda>y. y \<noteq> x) (us @ x # vs) = us @ vs"
proof -
  assume "distinct (us @ x # vs)"
  then have "filter (\<lambda>y. y \<noteq> x) us = us" "filter (\<lambda>y. y \<noteq> x) vs = vs"
    by (auto simp: filter_id_conv)
  then show ?thesis
    by simp
qed

lemma rq_remove_rel:
  assumes "rq_rel q s" "x \<in> snd ` set s"
  shows "\<exists>q'. rq_remove x q = Some q' \<and> rq_rel q' (sched_remove x s)"
proof -
  from assms obtain xs where xs: "rq_inv q xs" "s = rq_schedule q xs" "x \<in> set xs"
    by (auto simp: rq_rel_def rq_schedule_def)
  then obtain us vs where split: "xs = us @ x # vs"
    by (meson split_list)
  obtain q' where q': "rq_remove x q = Some q'" "rq_inv q' (us @ vs)"
    "rq_wakeUpTime q' = rq_wakeUpTime q"
    using rq_remove_inv [of q us x vs] xs(1) unfolding split by blast
  have "distinct (us @ x # vs)"
    using xs(1) by (simp add: rq_inv_def split)
  then have "sched_remove x s = rq_schedule q' (us @ vs)"
    unfolding xs(2) sched_remove_schedule split
    by (simp only: filter_split) (simp add: rq_schedule_def q'(3))
  with q' show ?thesis
    by (auto simp: rq_rel_def)
qed

lemma rq_push_removes:
  "rq_contains q x \<Longrightarrow> rq_remove x q = Some q1 \<Longrightarrow> \<not> rq_contains q1 x \<Longrightarrow>
     rq_push x time q = rq_push x time q1"
  by (simp add: rq_push_def)

lemma rq_contains_rel: "rq_rel q s \<Longrightarrow> rq_contains q x \<longleftrightarrow> x \<in> snd ` set s"
proof -
  assume "rq_rel q s"
  then obtain xs where xs: "rq_inv q xs" "s = rq_schedule q xs"
    by (auto simp: rq_rel_def)
  have "snd ` set s = set xs"
    by (simp add: xs(2) rq_schedule_def image_image)
  with rq_contains_iff [OF xs(1)] show ?thesis
    by simp
qed

lemma rq_push_rel:
  assumes "rq_rel q s"
  shows "\<exists>q'. rq_push x time q = Some q' \<and> rq_rel q' (sched_insert time x (sched_remove x s))"
proof -
  have absent: "\<exists>q'. rq_push x time q = Some q' \<and> rq_rel q' (sched_insert time x s)"
    if "rq_rel q s" "x \<notin> snd ` set s" for q s
  proof -
    from that obtain xs where xs: "rq_inv q xs" "s = rq_schedule q xs" "x \<notin> set xs"
      by (force simp: rq_rel_def rq_schedule_def)
    then obtain q' where q': "rq_push x time q = Some q'" "rq_wakeUpTime q' = (rq_wakeUpTime q)(x := time)"
      "rq_inv q' (takeWhile (\<lambda>y. rq_wakeUpTime q' y \<le> time) xs @ x #
        dropWhile (\<lambda>y. rq_wakeUpTime q' y \<le> time) xs)"
      using rq_push_absent_inv [of q xs x time] by metis
    with sched_insert_schedule [OF xs(3) q'(2)] xs(2) show ?thesis
      unfolding rq_rel_def by metis
  qed
  show ?thesis
  proof (cases "x \<in> snd ` set s")
    case False
    then have "sched_remove x s = s"
      by (force simp: sched_remove_def filter_id_conv)
    with absent [OF assms False] show ?thesis
      by simp
  next
    case True
    obtain q1 where q1: "rq_remove x q = Some q1" "rq_rel q1 (sched_remove x s)"
      using rq_remove_rel [OF assms True] by auto
    have gone: "x \<notin> snd ` set (sched_remove x s)"
      by (auto simp: sched_remove_def)
    have "rq_contains q x" "\<not> rq_contains q1 x"
      using True gone by (simp_all only: rq_contains_rel [OF assms] rq_contains_rel [OF q1(2)] not_False_eq_True)
    then show ?thesis
      using rq_push_removes [OF _ q1(1)] absent [OF q1(2) gone] by simp
  qed
qed

subsection \<open>The contract of the scheduler\<close>

lemma sched_remove_append: "sched_remove x (s @ s') = sched_remove x s @ sched_remove x s'"
  by (simp add: sched_remove_def)

lemma sched_remove_insert: "sched_remove x (sched_insert t x (sched_remove x s)) = sched_remove x s"
proof -
  have "sched_remove x (sched_insert t x s') = sched_remove x s'" for s'
  proof -
    have "sched_remove x (sched_insert t x s') =
        sched_remove x (takeWhile (\<lambda>(t', y). t' \<le> t) s') @ sched_remove x (dropWhile (\<lambda>(t', y). t' \<le> t) s')"
      unfolding sched_insert_def sched_remove_append by (simp add: sched_remove_def)
    then show ?thesis
      by (simp flip: sched_remove_append)
  qed
  then show ?thesis
    by (simp add: sched_remove_def)
qed

locale timed_queue =
  fixes rel :: "'q \<Rightarrow> 'r schedule \<Rightarrow> bool"
    and push :: "'r \<Rightarrow> ticks_t \<Rightarrow> 'q \<Rightarrow> 'q option"
    and remove :: "'r \<Rightarrow> 'q \<Rightarrow> 'q option"
    and pop :: "'q \<Rightarrow> 'q option"
    and front :: "'q \<Rightarrow> 'r option"
    and wake :: "'q \<Rightarrow> 'r \<Rightarrow> ticks_t"
    and queued :: "'q \<Rightarrow> 'r \<Rightarrow> bool"
  assumes rel_sorted: "rel q s \<Longrightarrow> sorted (map fst s) \<and> distinct (map snd s)"
    and queued_iff: "rel q s \<Longrightarrow> queued q x \<longleftrightarrow> x \<in> snd ` set s"
    and front_nil: "rel q [] \<Longrightarrow> front q = None"
    and front_cons: "rel q ((t, x) # s) \<Longrightarrow> front q = Some x \<and> wake q x = t"
    and pop_cons: "rel q ((t, x) # s) \<Longrightarrow> \<exists>q'. pop q = Some q' \<and> rel q' s"
    and push_rel: "rel q s \<Longrightarrow>
      \<exists>q'. push x time q = Some q' \<and> rel q' (sched_insert time x (sched_remove x s))"
    and remove_rel: "rel q s \<Longrightarrow> x \<in> snd ` set s \<Longrightarrow>
      \<exists>q'. remove x q = Some q' \<and> rel q' (sched_remove x s)"
begin

lemma front_earliest:
  assumes "rel q s" "front q = Some x" "(t, y) \<in> set s"
  shows "wake q x \<le> t"
  using assms front_nil front_cons [of q "fst (hd s)" "snd (hd s)" "tl s"] rel_sorted [OF assms(1)]
  by (cases s) auto

text \<open>Pushing a runnable and removing it again takes it off the queue, whether or not it was on it.\<close>

lemma push_remove:
  assumes "rel q s"
  shows "\<exists>q' q''. push x t q = Some q' \<and> remove x q' = Some q'' \<and> rel q'' (sched_remove x s)"
proof -
  obtain q' where q': "push x t q = Some q'" "rel q' (sched_insert t x (sched_remove x s))"
    using push_rel [OF assms] by blast
  moreover have "x \<in> snd ` set (sched_insert t x (sched_remove x s))"
    by (simp add: sched_insert_def)
  ultimately obtain q'' where "remove x q' = Some q''"
    "rel q'' (sched_remove x (sched_insert t x (sched_remove x s)))"
    using remove_rel by blast
  then show ?thesis
    using q'(1) by (auto simp: sched_remove_insert)
qed

end

lemma rq_rel_Nil: "rq_rel q [] \<Longrightarrow> rq_inv q []"
  by (auto simp: rq_rel_def rq_schedule_def)

lemma rq_rel_Cons:
  "rq_rel q ((t, x) # s) \<Longrightarrow> \<exists>xs. rq_inv q (x # xs) \<and> t = rq_wakeUpTime q x \<and> s = rq_schedule q xs"
  by (auto simp: rq_rel_def rq_schedule_def)

lemma rq_pop_rel: "rq_rel q ((t, x) # s) \<Longrightarrow> \<exists>q'. rq_pop q = Some q' \<and> rq_rel q' s"
  by (drule rq_rel_Cons) (auto dest!: rq_pop_inv simp: rq_rel_def rq_schedule_def)

interpretation rq: timed_queue rq_rel rq_push rq_remove rq_pop rq_front rq_wakeUpTime rq_contains
proof unfold_locales
  fix q :: "'r runnable_queue" and s :: "'r schedule" and x :: 'r and t time :: ticks_t
  show "rq_rel q s \<Longrightarrow> sorted (map fst s) \<and> distinct (map snd s)"
    by (auto simp: rq_rel_def rq_inv_def rq_schedule_def comp_def)
  show "rq_rel q s \<Longrightarrow> rq_contains q x \<longleftrightarrow> x \<in> snd ` set s"
    by (rule rq_contains_rel)
  show "rq_rel q [] \<Longrightarrow> rq_front q = None"
    by (auto dest: rq_rel_Nil simp: rq_front_def rq_inv_def)
  show "rq_rel q ((t, x) # s) \<Longrightarrow> rq_front q = Some x \<and> rq_wakeUpTime q x = t"
    by (auto dest!: rq_rel_Cons simp: rq_front_eq)
  show "rq_rel q ((t, x) # s) \<Longrightarrow> \<exists>q'. rq_pop q = Some q' \<and> rq_rel q' s"
    by (rule rq_pop_rel)
qed (rule rq_push_rel rq_remove_rel; assumption)+

subsection \<open>Scheduling order\<close>

lemma rq_new_rel: "rq_rel rq_new []"
  using rq_new_inv by (auto simp: rq_rel_def rq_schedule_def)

text \<open>Pushing a list of runnables with their times, first to last.\<close>

fun rq_push_all :: "'r schedule \<Rightarrow> 'r runnable_queue \<Rightarrow> 'r runnable_queue option" where
  "rq_push_all [] q = Some q"
| "rq_push_all ((t, x) # ps) q = do {
     q \<leftarrow> rq_push x t q;
     rq_push_all ps q
   }"

lemma takeWhile_times:
  assumes "sorted (map fst s)"
  shows "takeWhile (\<lambda>(t', y). t' \<le> t) s = filter (\<lambda>p. fst p \<le> t) s"
    and "dropWhile (\<lambda>(t', y). t' \<le> t) s = filter (\<lambda>p. \<not> fst p \<le> t) s"
proof -
  have "takeWhile (\<lambda>(t', y). t' \<le> t) s = filter (\<lambda>p. fst p \<le> t) s
      \<and> dropWhile (\<lambda>(t', y). t' \<le> t) s = filter (\<lambda>p. \<not> fst p \<le> t) s"
    using assms
  proof (induction s)
    case (Cons p s)
    show ?case
    proof (cases "fst p \<le> t")
      case False
      with Cons.prems have "\<forall>r \<in> set s. \<not> fst r \<le> t"
        by fastforce
      with False show ?thesis
        by (simp add: filter_empty_conv filter_id_conv split_beta)
    qed (use Cons in \<open>simp add: split_beta\<close>)
  qed simp
  then show "takeWhile (\<lambda>(t', y). t' \<le> t) s = filter (\<lambda>p. fst p \<le> t) s"
    "dropWhile (\<lambda>(t', y). t' \<le> t) s = filter (\<lambda>p. \<not> fst p \<le> t) s"
    by simp_all
qed

text \<open>Inserting behind the entries of the same time is stable sorting.\<close>

lemma sched_insert_sort: "sched_insert t x (sort_key fst ps) = sort_key fst (ps @ [(t, x)])"
proof -
  define s where "s = sort_key fst ps"
  have s: "sorted (map fst s)" "mset s = mset ps" "\<And>k. filter (\<lambda>p. fst p = k) s = filter (\<lambda>p. fst p = k) ps"
    by (simp_all add: s_def sort_key_stable)
  have ins: "sched_insert t x s = filter (\<lambda>p. fst p \<le> t) s @ (t, x) # filter (\<lambda>p. \<not> fst p \<le> t) s"
    unfolding sched_insert_def takeWhile_times [OF s(1)] ..
  have "sort_key fst (ps @ [(t, x)]) = sched_insert t x s"
  proof (rule properties_for_sort_key)
    show "mset (sched_insert t x s) = mset (ps @ [(t, x)])"
      by (simp add: ins s(2) mset_filter multiset_partition [symmetric] flip: s(2))
    show "filter (\<lambda>p. fst k = fst p) (sched_insert t x s) = filter (\<lambda>p. fst k = fst p) (ps @ [(t, x)])" for k
    proof -
      have "filter (\<lambda>p. fst k = fst p) s = filter (\<lambda>p. fst k = fst p) ps"
        using s(3) [of "fst k"] by (simp add: eq_commute)
      moreover have "filter (\<lambda>p. fst p \<le> t \<and> fst k = fst p) s = (if fst k \<le> t then filter (\<lambda>p. fst k = fst p) s else [])"
        "filter (\<lambda>p. \<not> fst p \<le> t \<and> fst k = fst p) s = (if fst k \<le> t then [] else filter (\<lambda>p. fst k = fst p) s)"
        by (auto simp: filter_empty_conv intro: filter_cong)
      ultimately show ?thesis
        by (auto simp: ins)
    qed
    show "sorted (map fst (sched_insert t x s))"
      using s(1) by (auto simp: ins sorted_append sorted_filter)
  qed
  then show ?thesis
    by (simp add: s_def)
qed

lemma rq_push_all_rel:
  assumes "rq_rel q (sort_key fst ps)" "distinct (map snd (ps @ qs))"
  shows "\<exists>q'. rq_push_all qs q = Some q' \<and> rq_rel q' (sort_key fst (ps @ qs))"
  using assms
proof (induction qs arbitrary: q ps)
  case (Cons p qs)
  obtain t x where p: "p = (t, x)"
    by (cases p)
  have "sched_remove x (sort_key fst ps) = sort_key fst ps"
    using Cons.prems(2) by (force simp: sched_remove_def filter_id_conv p)
  with rq_push_rel [OF Cons.prems(1), of x t] obtain q1 where
    "rq_push x t q = Some q1" "rq_rel q1 (sort_key fst (ps @ [(t, x)]))"
    by (auto simp: sched_insert_sort)
  with Cons.IH [of q1 "ps @ [(t, x)]"] Cons.prems(2) show ?case
    by (simp add: p)
qed simp

text \<open>
  C18. Every operation of the scheduler queue implements the abstract queue, a
  list of (time, runnable) pairs ordered by time.  \<open>push\<close> always returns, takes
  the runnable off the queue if it was on it and puts it behind the entries of
  at most its time; \<open>remove\<close> and \<open>pop\<close> take an entry off; \<open>front\<close> is the first
  entry and \<open>contains\<close> is membership.
\<close>

theorem runnable_queue_refines:
  assumes "rq_rel q s"
  shows "(\<exists>q'. rq_push x time q = Some q' \<and> rq_rel q' (sched_insert time x (sched_remove x s)))
    \<and> (x \<in> snd ` set s \<longrightarrow> (\<exists>q'. rq_remove x q = Some q' \<and> rq_rel q' (sched_remove x s)))
    \<and> (s \<noteq> [] \<longrightarrow> (\<exists>q'. rq_pop q = Some q' \<and> rq_rel q' (tl s)))
    \<and> rq_front q = (if s = [] then None else Some (snd (hd s)))
    \<and> (rq_contains q x \<longleftrightarrow> x \<in> snd ` set s)"
proof (cases s)
  case Nil
  with assms show ?thesis
    using rq.push_rel rq.front_nil rq.queued_iff by fastforce
next
  case (Cons p s')
  with assms show ?thesis
    using rq.push_rel [OF assms] rq.front_cons [of q "fst p" "snd p" s'] rq.queued_iff [OF assms]
      rq.remove_rel [OF assms] rq.pop_cons [of q "fst p" "snd p" s'] by simp
qed

theorem runnable_queue_refines_witness:
  "\<exists>q'. rq_push (7 :: nat) 3 rq_new = Some q' \<and> rq_rel q' [(3, 7)]"
  using runnable_queue_refines [OF rq_new_rel, of "7 :: nat" 3] by (simp add: sched_insert_def sched_remove_def)

text \<open>
  C24. Runnables that are pushed with their wake up times are scheduled in the
  order of a stable sort by time: pushing distinct runnables on an empty queue
  returns a queue whose entries, front to back, are the list sorted by time,
  with runnables of equal time in the order in which they were pushed.
\<close>

theorem runnable_queue_stable_order:
  assumes "distinct (map snd ps)"
  shows "\<exists>q. rq_push_all ps rq_new = Some q \<and> rq_rel q (sort_key fst ps)"
  using rq_push_all_rel [of rq_new "[]" ps] rq_new_rel assms by simp

theorem runnable_queue_stable_order_witness:
  "\<exists>q. rq_push_all [(5, ''a''), (2, ''b''), (5, ''c'')] rq_new = Some q
     \<and> rq_rel q [(2, ''b''), (5, ''a''), (5, ''c'')]"
  using runnable_queue_stable_order [of "[(5, ''a''), (2, ''b''), (5, ''c'')]"] by simp

end
