(* ===== verification/EventList.thy ===== *)
theory EventList
  imports Prelude
begin

text \<open>
  The lists of event and interrupt enabled resources (\<open>EventableResourceList\<close>
  in \<open>Thread.h\<close>).  They are doubly linked through members of the resources, so
  all lists share the links; the model of the system has a HOL list for each,
  and here the linked lists are shown to implement them.
\<close>

subsection \<open>The linked lists\<close>

text \<open>\<open>el_head\<close> are the heads of the lists, \<open>el_next\<close> and \<open>el_prev\<close> the links of the resources.\<close>

record ('l, 'r) event_lists =
  el_head :: "'l \<Rightarrow> 'r option"
  el_next :: "'r \<Rightarrow> 'r option"
  el_prev :: "'r \<Rightarrow> 'r option"

definition el_new :: "('l, 'r) event_lists" where
  "el_new = \<lparr>el_head = (\<lambda>_. None), el_next = (\<lambda>_. None), el_prev = (\<lambda>_. None)\<rparr>"

definition el_add :: "'l \<Rightarrow> 'r \<Rightarrow> ('l, 'r) event_lists \<Rightarrow> ('l, 'r) event_lists" where
  "el_add l x s = (
     let s = s\<lparr>el_next := (el_next s)(x := el_head s l)\<rparr>;
         s = s\<lparr>el_prev := (el_prev s)(x := None)\<rparr>;
         s = (case el_head s l of
                None \<Rightarrow> s
              | Some h \<Rightarrow> s\<lparr>el_prev := (el_prev s)(h := Some x)\<rparr>) in
     s\<lparr>el_head := (el_head s)(l := Some x)\<rparr>)"

definition el_remove :: "'l \<Rightarrow> 'r \<Rightarrow> ('l, 'r) event_lists \<Rightarrow> ('l, 'r) event_lists" where
  "el_remove l x s = (
     let s = (case el_prev s x of
                Some p \<Rightarrow> s\<lparr>el_next := (el_next s)(p := el_next s x)\<rparr>
              | None \<Rightarrow> s\<lparr>el_head := (el_head s)(l := el_next s x)\<rparr>) in
     case el_next s x of
       None \<Rightarrow> s
     | Some n \<Rightarrow> s\<lparr>el_prev := (el_prev s)(n := el_prev s x)\<rparr>)"

text \<open>
  The loop of \<open>Thread::clre\<close>, as far as the list is concerned: the body takes
  the resource of the iterator off the list before the iterator moves on.
\<close>

partial_function (option) el_clear :: "'l \<Rightarrow> 'r option \<Rightarrow> ('l, 'r) event_lists \<Rightarrow> ('l, 'r) event_lists option" where
  "el_clear l it s = (case it of
      None \<Rightarrow> Some s
    | Some x \<Rightarrow> let s = el_remove l x s in el_clear l (el_next s x) s)"

declare el_clear.simps [code]

subsection \<open>The lists they hold\<close>

fun el_chain :: "('l, 'r) event_lists \<Rightarrow> 'r option \<Rightarrow> 'r option \<Rightarrow> 'r list \<Rightarrow> bool" where
  "el_chain s p h [] \<longleftrightarrow> h = None"
| "el_chain s p h (x # xs) \<longleftrightarrow> h = Some x \<and> el_prev s x = p \<and> el_chain s (Some x) (el_next s x) xs"

definition el_rel :: "('l, 'r) event_lists \<Rightarrow> ('l \<Rightarrow> 'r list) \<Rightarrow> bool" where
  "el_rel s f \<longleftrightarrow> (\<forall>l. el_chain s None (el_head s l) (f l) \<and> distinct (f l)) \<and>
     (\<forall>l m. l \<noteq> m \<longrightarrow> set (f l) \<inter> set (f m) = {})"

lemma el_chain_cong:
  assumes "el_chain s p h xs" "\<forall>x \<in> set xs. el_next s' x = el_next s x \<and> el_prev s' x = el_prev s x"
  shows "el_chain s' p h xs"
  using assms by (induction xs arbitrary: p h) auto

lemma el_chain_prev:
  assumes "el_chain s p h xs" "x \<in> set xs"
  shows "el_prev s x = p \<or> (\<exists>y \<in> set xs. el_prev s x = Some y)"
  using assms
proof (induction xs arbitrary: p h)
  case (Cons y ys)
  then show ?case
    using Cons.IH [of "Some y" "el_next s y"] by auto
qed simp

lemma el_chain_head: "el_chain s p h xs \<Longrightarrow> h = Some x \<Longrightarrow> x \<in> set xs"
  by (cases xs) auto

lemma el_chain_next:
  assumes "el_chain s p h xs" "x \<in> set xs" "el_next s x = Some y"
  shows "y \<in> set xs"
  using assms
proof (induction xs arbitrary: p h)
  case (Cons z zs)
  show ?case
  proof (cases "x = z")
    case True
    with Cons.prems have "y \<in> set zs"
      by (auto intro: el_chain_head)
    then show ?thesis
      by simp
  next
    case False
    with Cons.IH [of "Some z" "el_next s z"] Cons.prems show ?thesis
      by simp
  qed
qed simp

text \<open>Taking an element out of the middle of a chain.\<close>

lemma el_chain_drop_head:
  assumes "el_chain s p h (x # vs)" "distinct (x # vs)" "\<forall>y \<in> set vs. el_next s' y = el_next s y"
    "\<forall>y \<in> set vs. el_prev s' y = (if y = hd vs then p else el_prev s y)"
  shows "el_chain s' p (el_next s x) vs"
proof (cases vs)
  case (Cons v ws)
  have "el_chain s (Some v) (el_next s v) ws"
    using assms(1) Cons by simp
  then have "el_chain s' (Some v) (el_next s v) ws"
    by (rule el_chain_cong) (use assms(2-4) Cons in auto)
  then show ?thesis
    using assms Cons by simp
qed (use assms in simp)

lemma el_chain_remove:
  assumes "el_chain s p h (us @ x # vs)" "distinct (us @ x # vs)"
    "\<forall>y \<in> set (us @ vs). el_next s' y = (if us \<noteq> [] \<and> y = last us then el_next s x else el_next s y)"
    "\<forall>y \<in> set (us @ vs). el_prev s' y = (if vs \<noteq> [] \<and> y = hd vs then el_prev s x else el_prev s y)"
  shows "el_chain s' p (if us = [] then el_next s x else h) (us @ vs)"
  using assms
proof (induction us arbitrary: p h)
  case Nil
  have "el_chain s' p (el_next s x) vs"
    by (rule el_chain_drop_head [where h = h]) (use Nil in auto)
  then show ?case
    by simp
next
  case (Cons u us)
  have u: "el_prev s' u = el_prev s u"
    using Cons.prems(2,4) by (cases vs) auto
  show ?case
  proof (cases "us = []")
    case True
    have "el_chain s' (Some u) (el_next s x) vs"
      by (rule el_chain_drop_head [where h = "el_next s u"]) (use Cons.prems True in auto)
    then show ?thesis
      using Cons.prems True u by simp
  next
    case False
    then have l: "last us \<in> set us"
      by simp
    have "el_chain s' (Some u) (if us = [] then el_next s x else el_next s u) (us @ vs)"
      by (rule Cons.IH) (use Cons.prems False in auto)
    moreover have "el_next s' u = el_next s u"
      using Cons.prems(2,3) False l by auto
    ultimately show ?thesis
      using Cons.prems(1) False u by simp
  qed
qed

subsection \<open>The operations\<close>

lemma el_relD:
  assumes "el_rel s f"
  shows "el_chain s None (el_head s l) (f l)" "distinct (f l)" "x \<in> set (f l) \<Longrightarrow> x \<in> set (f m) \<Longrightarrow> l = m"
  using assms unfolding el_rel_def by blast+

lemma el_new_rel: "el_rel el_new (\<lambda>_. [])"
  by (simp add: el_rel_def el_new_def)

lemma el_add_rel:
  assumes rel: "el_rel s f" and x: "\<forall>m. x \<notin> set (f m)"
  shows "el_rel (el_add l x s) (f(l := x # f l))"
proof -
  note D = el_relD [OF rel]
  let ?s = "el_add l x s"
  have n: "el_next ?s = (el_next s)(x := el_head s l)" "el_head ?s = (el_head s)(l := Some x)"
    by (simp_all add: el_add_def Let_def split: option.split)
  have p: "el_prev ?s y = (if y = x \<and> el_head s l \<noteq> Some x then None else if el_head s l = Some y then Some x else el_prev s y)" for y
    by (simp add: el_add_def Let_def split: option.split)
  have other: "el_chain ?s None (el_head s m) (f m)" if "m \<noteq> l" for m
  proof (rule el_chain_cong [OF D(1)], intro ballI)
    fix y
    assume y: "y \<in> set (f m)"
    then have "y \<noteq> x" "el_head s l \<noteq> Some y"
      using x that D(3) el_chain_head [OF D(1)] by metis+
    then show "el_next ?s y = el_next s y \<and> el_prev ?s y = el_prev s y"
      by (simp add: n p)
  qed
  have hx: "el_head s l \<noteq> Some x"
    using x el_chain_head [OF D(1)] by metis
  have "el_chain ?s (Some x) (el_head s l) (f l)"
  proof (cases "f l")
    case (Cons y ys)
    have y: "el_head s l = Some y" "el_chain s (Some y) (el_next s y) ys"
      using D(1) [of l] Cons by simp_all
    have yx: "y \<noteq> x" "x \<notin> set ys"
      using x [THEN spec, of l] Cons by auto
    have "el_chain ?s (Some y) (el_next s y) ys"
      by (rule el_chain_cong [OF y(2)]) (use yx Cons D(2) [of l] y(1) in \<open>auto simp: n p\<close>)
    with yx show ?thesis
      using y(1) Cons by (simp add: n p)
  qed (use D(1) [of l] in simp)
  moreover have "el_prev ?s x = None"
    using hx by (simp add: p)
  ultimately have "el_chain ?s None (el_head ?s m) ((f(l := x # f l)) m)" for m
    using other by (simp add: n)
  moreover have "set ((f(l := x # f l)) m) \<inter> set ((f(l := x # f l)) k) = {}" if "m \<noteq> k" for m k
    using x D(3) that by (auto split: if_splits)
  ultimately show ?thesis
    using x D(2) unfolding el_rel_def by simp
qed

lemma el_chain_split:
  assumes "el_chain s p h (us @ x # vs)" "distinct (us @ x # vs)"
  shows "el_prev s x = (if us = [] then p else Some (last us))"
    and "el_next s x = (case vs of [] \<Rightarrow> None | v # ws \<Rightarrow> Some v)"
    and "us = [] \<Longrightarrow> h = Some x"
proof -
  have "el_prev s x = (if us = [] then p else Some (last us)) \<and> el_next s x = (case vs of [] \<Rightarrow> None | v # ws \<Rightarrow> Some v)"
    using assms(1)
  proof (induction us arbitrary: p h)
    case Nil
    then show ?case
      by (cases vs) auto
  next
    case (Cons u us)
    from Cons.IH [of "Some u" "el_next s u"] Cons.prems show ?case
      by (auto split: list.splits)
  qed
  then show "el_prev s x = (if us = [] then p else Some (last us))"
    "el_next s x = (case vs of [] \<Rightarrow> None | v # ws \<Rightarrow> Some v)"
    by blast+
  show "us = [] \<Longrightarrow> h = Some x"
    using assms(1) by simp
qed

lemma el_remove_eqs:
  assumes "el_prev s x = (if us = [] then None else Some (last us))" "el_next s x = (case vs of [] \<Rightarrow> None | v # ws \<Rightarrow> Some v)"
    "x \<notin> set us"
  shows "el_next (el_remove l x s) = (if us = [] then el_next s else (el_next s)(last us := el_next s x))"
    "el_head (el_remove l x s) = (if us = [] then (el_head s)(l := el_next s x) else el_head s)"
    "el_prev (el_remove l x s) = (if vs = [] then el_prev s else (el_prev s)(hd vs := el_prev s x))"
  using assms by (auto simp: el_remove_def Let_def split: list.splits)

lemma el_remove_rel:
  assumes rel: "el_rel s f" and x: "x \<in> set (f l)"
  shows "el_rel (el_remove l x s) (f(l := remove1 x (f l)))" "el_next (el_remove l x s) x = el_next s x"
proof -
  note D = el_relD [OF rel]
  let ?s = "el_remove l x s"
  obtain us vs where f: "f l = us @ x # vs" "x \<notin> set us"
    using split_list_first [OF x] by blast
  have c: "el_chain s None (el_head s l) (us @ x # vs)" "distinct (us @ x # vs)"
    using D(1,2) [of l] f(1) by simp_all
  note E = el_remove_eqs [OF el_chain_split(1,2) [OF c] f(2), where l = l]
  have last: "us \<noteq> [] \<Longrightarrow> last us \<in> set (f l)" and hd: "vs \<noteq> [] \<Longrightarrow> hd vs \<in> set (f l)"
    using f(1) by auto
  have "el_chain ?s None (if us = [] then el_next s x else el_head s l) (us @ vs)"
    by (rule el_chain_remove [OF c]) (simp_all add: E)
  moreover have "el_chain ?s None (el_head s m) (f m)" if "m \<noteq> l" for m
  proof (rule el_chain_cong [OF D(1)], intro ballI)
    fix y
    assume "y \<in> set (f m)"
    with that have "us \<noteq> [] \<Longrightarrow> y \<noteq> last us" "vs \<noteq> [] \<Longrightarrow> y \<noteq> hd vs"
      using D(3) last hd by metis+
    then show "el_next ?s y = el_next s y \<and> el_prev ?s y = el_prev s y"
      by (simp add: E)
  qed
  ultimately have "el_chain ?s None (el_head ?s m) ((f(l := us @ vs)) m)" for m
    by (auto simp: E split: if_splits)
  moreover have "set ((f(l := us @ vs)) m) \<subseteq> set (f m)" for m
    using f(1) by auto
  then have "set ((f(l := us @ vs)) m) \<inter> set ((f(l := us @ vs)) k) = {}" if "m \<noteq> k" for m k
    using D(3) that by blast
  ultimately have "el_rel ?s (f(l := us @ vs))"
    using D(2) c(2) unfolding el_rel_def by simp
  then show "el_rel ?s (f(l := remove1 x (f l)))"
    using f by (simp add: remove1_append)
  show "el_next ?s x = el_next s x"
    using f(2) by (auto simp: E)
qed

lemma el_clear_rel:
  assumes "el_rel s f" "f l = xs"
  shows "\<exists>s'. el_clear l (el_head s l) s = Some s' \<and> el_rel s' (f(l := []))"
  using assms
proof (induction xs arbitrary: s f)
  case Nil
  then have "el_head s l = None" "f(l := []) = f"
    using el_relD(1) [OF Nil.prems(1), of l] by auto
  then show ?case
    using Nil.prems(1) by (simp add: el_clear.simps)
next
  case (Cons x xs)
  let ?s = "el_remove l x s"
  have c: "el_head s l = Some x" "el_chain s None (el_head s l) ([] @ x # xs)" "distinct ([] @ x # xs)"
    using el_relD(1,2) [OF Cons.prems(1), of l] Cons.prems(2) by simp_all
  have r: "el_rel ?s (f(l := xs))" "el_next ?s x = el_next s x"
    using el_remove_rel [OF Cons.prems(1), of x l] Cons.prems(2) by simp_all
  have "el_next s x = el_head ?s l"
    using el_remove_eqs(2) [OF el_chain_split(1,2) [OF c(2,3)], of l] by simp
  then have "el_clear l (el_head s l) s = el_clear l (el_head ?s l) ?s"
    using c(1) r(2) by (subst el_clear.simps) (simp add: Let_def)
  moreover have "\<exists>s'. el_clear l (el_head ?s l) ?s = Some s' \<and> el_rel s' (f(l := []))"
    using Cons.IH [OF r(1) fun_upd_same] by (simp only: fun_upd_upd)
  ultimately show ?case
    by (simp only:)
qed

subsection \<open>The interface\<close>

text \<open>
  What the model of the system relies on: each of a family of lists gains a
  resource at its front, loses one, and is emptied by a loop over it.
\<close>

locale resource_lists =
  fixes rel :: "'s \<Rightarrow> ('l \<Rightarrow> 'r list) \<Rightarrow> bool"
    and add :: "'l \<Rightarrow> 'r \<Rightarrow> 's \<Rightarrow> 's"
    and remove :: "'l \<Rightarrow> 'r \<Rightarrow> 's \<Rightarrow> 's"
    and clear :: "'l \<Rightarrow> 's \<Rightarrow> 's option"
  assumes rel_distinct: "rel s f \<Longrightarrow> distinct (f l)"
    and add_rel: "rel s f \<Longrightarrow> \<forall>m. x \<notin> set (f m) \<Longrightarrow> rel (add l x s) (f(l := x # f l))"
    and remove_rel: "rel s f \<Longrightarrow> x \<in> set (f l) \<Longrightarrow> rel (remove l x s) (f(l := remove1 x (f l)))"
    and clear_rel: "rel s f \<Longrightarrow> \<exists>s'. clear l s = Some s' \<and> rel s' (f(l := []))"
begin

text \<open>A resource that changes lists is then in exactly one of them.\<close>

lemma move_rel:
  assumes "rel s f" "x \<in> set (f l)" "\<forall>m. m \<noteq> l \<longrightarrow> x \<notin> set (f m)" "l \<noteq> k"
  shows "rel (add k x (remove l x s)) (f(l := remove1 x (f l), k := x # f k))"
proof -
  have x: "\<forall>m. x \<notin> set ((f(l := remove1 x (f l))) m)"
    using assms(3) rel_distinct [OF assms(1), of l] by simp
  have "(f(l := remove1 x (f l))) k = f k"
    using assms(4) by simp
  with add_rel [OF remove_rel [OF assms(1,2)] x, of k] show ?thesis
    by (simp only:)
qed

end

interpretation el: resource_lists el_rel el_add el_remove "\<lambda>l s. el_clear l (el_head s l) s"
  by unfold_locales (simp_all add: el_relD(2) el_add_rel el_remove_rel(1) el_clear_rel)

text \<open>
  C23. The doubly linked lists of event enabled resources implement lists: adding
  puts a resource that is in no list at the front of one, removing takes it
  out, both leave all other lists alone, moving a resource between lists
  leaves it in the new one only, and the loop that removes each resource it
  visits ends with the list empty.
\<close>

theorem event_lists_refine:
  assumes "el_rel s f"
  shows "((\<forall>m. x \<notin> set (f m)) \<longrightarrow> el_rel (el_add l x s) (f(l := x # f l)))
    \<and> (x \<in> set (f l) \<longrightarrow> el_rel (el_remove l x s) (f(l := remove1 x (f l))))
    \<and> (x \<in> set (f l) \<and> l \<noteq> k \<longrightarrow> el_rel (el_add k x (el_remove l x s)) (f(l := remove1 x (f l), k := x # f k)))
    \<and> (\<exists>s'. el_clear l (el_head s l) s = Some s' \<and> el_rel s' (f(l := [])))"
proof (intro conjI impI)
  show "el_rel (el_add l x s) (f(l := x # f l))" if "\<forall>m. x \<notin> set (f m)"
    by (rule el.add_rel [OF assms that])
  show "el_rel (el_remove l x s) (f(l := remove1 x (f l)))" if "x \<in> set (f l)"
    by (rule el.remove_rel [OF assms that])
  show "el_rel (el_add k x (el_remove l x s)) (f(l := remove1 x (f l), k := x # f k))" if "x \<in> set (f l) \<and> l \<noteq> k"
    using that el_relD(3) [OF assms, of x l] by (intro el.move_rel [OF assms]) auto
  show "\<exists>s'. el_clear l (el_head s l) s = Some s' \<and> el_rel s' (f(l := []))"
    by (rule el.clear_rel [OF assms])
qed

text \<open>Resources 1 and 2 in the list of thread 0, then 1 moved to that of thread 1.\<close>

theorem event_lists_refine_witness:
  "\<exists>s. s = el_add (0 :: nat) (2 :: nat) (el_add 0 1 el_new) \<and> el_rel s ((\<lambda>_. [])(0 := [2, 1]))
    \<and> el_rel (el_add 1 1 (el_remove 0 1 s)) ((\<lambda>_. [])(0 := [2], 1 := [1]))"
proof -
  let ?f = "(\<lambda>_. [])(0 := [2, 1]) :: nat \<Rightarrow> nat list"
  have "el_rel (el_add 0 1 el_new) ((\<lambda>_. [])(0 := [1]) :: nat \<Rightarrow> nat list)"
    using el.add_rel [OF el_new_rel, of "1 :: nat" "0 :: nat"] by simp
  from el.add_rel [OF this, of 2 0] have s: "el_rel (el_add 0 2 (el_add 0 1 el_new)) ?f"
    by (simp add: fun_upd_def if_distrib cong: if_cong)
  have "?f(0 := remove1 1 (?f 0), 1 := 1 # ?f 1) = (\<lambda>_. [])(0 := [2], 1 := [1])"
    by (simp add: fun_eq_iff)
  then show ?thesis
    using s event_lists_refine [OF s, of 1 0 1] by simp
qed

end
