(* ===== verification/BitManip.thy ===== *)
theory BitManip
  imports Prelude
begin

text \<open>
  The bit manipulation helpers of \<open>BitManip.h\<close>, the checksum step of
  \<open>CRC.h\<close> and the byte order conversions of \<open>Endianness.h\<close>.  Shift
  amounts of type \<open>unsigned\<close> are natural numbers; every shift of the
  sources is by less than 32 on the inputs the callers pass.
\<close>

subsection \<open>\<open>BitManip.h\<close>\<close>

definition extractBits :: "u32 \<Rightarrow> nat \<Rightarrow> nat \<Rightarrow> u32" where
  "extractBits value shift sz = drop_bit shift value AND (push_bit sz 1 - 1)"

definition extractBitRange :: "u32 \<Rightarrow> nat \<Rightarrow> nat \<Rightarrow> u32" where
  "extractBitRange value high low = extractBits value low (1 + high - low)"

definition extractBit :: "u32 \<Rightarrow> nat \<Rightarrow> u32" where
  "extractBit value shift = extractBits value shift 1"

function clz_loop :: "nat \<Rightarrow> u32 \<Rightarrow> nat" where
  "clz_loop i x = (if x = 0 then i else clz_loop (i - 1) (drop_bit 1 x))"
  by pat_completeness auto
termination
  by (relation "measure (\<lambda>(i, x). unat x)") (simp_all only: wf_measure, simp add: unat_drop_bit_less)

declare clz_loop.simps [simp del]

definition countLeadingZeros :: "u32 \<Rightarrow> nat" where
  "countLeadingZeros x = clz_loop 32 x"

definition bswap16 :: "u16 \<Rightarrow> u16" where
  "bswap16 value = (drop_bit 8 (value AND 0xff00)) OR (push_bit 8 (value AND 0xff))"

definition bswap32 :: "u32 \<Rightarrow> u32" where
  "bswap32 x =
     drop_bit 24 x
     OR (drop_bit 8 x AND 0x0000ff00)
     OR (push_bit 8 x AND 0x00ff0000)
     OR push_bit 24 x"

definition bitReverse :: "u32 \<Rightarrow> u32" where
  "bitReverse x0 = (
     let x = drop_bit 1 (x0 AND 0xaaaaaaaa) OR push_bit 1 (x0 AND 0x55555555);
         x = drop_bit 2 (x AND 0xcccccccc) OR push_bit 2 (x AND 0x33333333);
         x = drop_bit 4 (x AND 0xf0f0f0f0) OR push_bit 4 (x AND 0x0f0f0f0f)
     in bswap32 x)"

definition makeMask :: "u32 \<Rightarrow> u32" where
  "makeMask x = (if 31 < x then 0xFFFFFFFF else push_bit (unat x) 1 - 1)"

definition signExtend :: "u32 \<Rightarrow> u32 \<Rightarrow> u32" where
  "signExtend value amount =
     (if amount = 0 \<or> 31 < amount then value
      else signed_drop_bit (unat (32 - amount)) (push_bit (unat (32 - amount)) value))"

definition zeroExtend :: "u32 \<Rightarrow> u32 \<Rightarrow> u32" where
  "zeroExtend value amount =
     (if amount = 0 \<or> 31 < amount then value
      else drop_bit (unat (32 - amount)) (push_bit (unat (32 - amount)) value))"

definition isPowerOf2 :: "u32 \<Rightarrow> bool" where
  "isPowerOf2 value \<longleftrightarrow> value \<noteq> 0 \<and> value AND (value - 1) = 0"

lemma unat_clear_lowest: "x \<noteq> 0 \<Longrightarrow> unat (x AND (x - 1)) < unat (x :: u32)"
proof -
  assume x: "x \<noteq> 0"
  have "x AND (x - 1) \<le> x - 1"
    by (metis and.commute word_and_le2 word_and_le1)
  also have "x - 1 < x"
    using x by (simp add: word_less_nat_alt unat_minus_one unat_gt_0)
  finally show ?thesis
    by (simp add: word_less_nat_alt)
qed

function parity_loop :: "bool \<Rightarrow> u32 \<Rightarrow> bool" where
  "parity_loop par value =
     (if value = 0 then par else parity_loop (\<not> par) (value AND (value - 1)))"
  by pat_completeness auto
termination
  by (relation "measure (\<lambda>(p, x). unat x)") (simp_all only: wf_measure, simp add: unat_clear_lowest)

declare parity_loop.simps [simp del]

definition parity :: "u32 \<Rightarrow> bool" where
  "parity value = parity_loop False value"

subsection \<open>\<open>CRC.h\<close>\<close>

text \<open>
  One iteration of the loop of the template \<open>crc\<close>; \<open>'d\<close> is its parameter
  \<open>T\<close>.  The conversion of \<open>(data & 1) << 31\<close> to \<open>uint32_t\<close> is \<open>ucast\<close>.
\<close>

definition crc_step :: "u32 \<Rightarrow> u32 \<times> 'd::len word \<Rightarrow> u32 \<times> 'd word" where
  "crc_step poly = (\<lambda>(checksum, data).
     let xorBit = checksum AND 1;
         checksum = drop_bit 1 checksum OR push_bit 31 (ucast (data AND 1));
         data = drop_bit 1 data
     in (if xorBit \<noteq> 0 then checksum XOR poly else checksum, data))"

definition crc :: "u32 \<Rightarrow> 'd::len word \<Rightarrow> u32 \<Rightarrow> u32" where
  "crc checksum data poly = fst ((crc_step poly ^^ LENGTH('d)) (checksum, data))"

definition crc32 :: "u32 \<Rightarrow> u32 \<Rightarrow> u32 \<Rightarrow> u32" where
  "crc32 checksum data poly = crc checksum data poly"

definition crc8 :: "u32 \<Rightarrow> u8 \<Rightarrow> u32 \<Rightarrow> u32" where
  "crc8 checksum data poly = crc checksum data poly"

subsection \<open>\<open>Endianness.h\<close>\<close>

text \<open>
  The host representation of an integer, as \<open>memcpy\<close> sees it: the
  parameter \<open>le\<close> is \<open>HOST_LITTLE_ENDIAN\<close>.
\<close>

definition host_store32 :: "bool \<Rightarrow> u32 \<Rightarrow> u8 list" where
  "host_store32 le w =
     (let bs = map (\<lambda>i. ucast (drop_bit (8 * i) w)) [0 ..< 4] in if le then bs else rev bs)"

definition host_load32 :: "bool \<Rightarrow> u8 list \<Rightarrow> u32" where
  "host_load32 le bs =
     (let cs = if le then bs else rev bs in
      ucast (cs ! 0) OR push_bit 8 (ucast (cs ! 1))
      OR push_bit 16 (ucast (cs ! 2)) OR push_bit 24 (ucast (cs ! 3)))"

definition read32le :: "bool \<Rightarrow> u8 list \<Rightarrow> u32" where
  "read32le le p = (let val = host_load32 le (take 4 p) in if \<not> le then bswap32 val else val)"

definition read16le :: "bool \<Rightarrow> u8 list \<Rightarrow> u16" where
  "read16le le p =
     (if le then ucast (p ! 0) OR push_bit 8 (ucast (p ! 1))
      else ucast (p ! 0) OR push_bit 8 (ucast (p ! 1)))"

definition write32le :: "bool \<Rightarrow> u32 \<Rightarrow> u8 list" where
  "write32le le val0 = (let val = if \<not> le then bswap32 val0 else val0 in host_store32 le val)"

definition write16le :: "bool \<Rightarrow> u16 \<Rightarrow> u8 list" where
  "write16le le val =
     (if le then [ucast val, ucast (drop_bit 8 val)] else [ucast val, ucast (drop_bit 8 val)])"

subsection \<open>Bit-level descriptions\<close>

lemma bit_extractBits:
  "bit (extractBits value shift sz) n \<longleftrightarrow> n < sz \<and> n < 32 \<and> bit value (n + shift)"
  unfolding extractBits_def push_one_minus_one by (auto simp: bit_simps add.commute)

lemma extractBits_eq_take_bit: "extractBits value shift sz = take_bit sz (drop_bit shift value)"
  by (rule word32_eqI) (auto simp: bit_extractBits bit_simps add.commute)

lemma bit_zeroExtend:
  "bit (zeroExtend value amount) n \<longleftrightarrow>
     bit value n \<and> (amount = 0 \<or> 31 < amount \<or> n < unat amount)"
proof (cases "amount = 0 \<or> 31 < amount")
  case False
  then have "unat (32 - amount) = 32 - unat amount" "unat amount < 32"
    by (simp_all add: unat_sub word_le_nat_alt word_less_nat_alt not_less)
  with False show ?thesis
    by (auto simp: zeroExtend_def bit_simps dest: bit32_lessD)
qed (auto simp: zeroExtend_def)

lemma bit_signExtend:
  "n < 32 \<Longrightarrow> bit (signExtend value amount) n \<longleftrightarrow>
     (if amount = 0 \<or> 31 < amount \<or> n < unat amount then bit value n
      else bit value (unat amount - 1))"
proof (cases "amount = 0 \<or> 31 < amount")
  case False
  then have "unat (32 - amount) = 32 - unat amount" "unat amount < 32" "0 < unat amount"
    by (simp_all add: unat_sub word_le_nat_alt word_less_nat_alt not_less unat_gt_0)
  with False show "n < 32 \<Longrightarrow> ?thesis"
    by (auto simp: signExtend_def bit_signed_drop_bit_iff bit_simps
        intro: arg_cong [where f = "bit value"])
qed (auto simp: signExtend_def)

lemma makeMask_eq_mask: "makeMask x = mask (unat x)"
proof (cases "31 < x")
  case True
  then have "32 \<le> unat x"
    by (simp add: word_less_nat_alt)
  then have "mask (unat x) = (mask 32 :: u32)"
    by (intro word32_eqI) (simp add: bit_mask_iff)
  also have "\<dots> = 0xFFFFFFFF"
    by (simp add: mask_eq_exp_minus_1)
  finally show ?thesis
    using True by (simp add: makeMask_def)
qed (simp add: makeMask_def push_one_minus_one del: push_bit_of_1)

lemma bit_bswap32:
  assumes "n < 32"
  shows "bit (bswap32 x) n = bit x (8 * (3 - n div 8) + n mod 8)"
  by (rule all_less_32 [OF _ assms]) (simp add: bswap32_def bit_simps flip: numeral_2_eq_2)

lemma bit_bitReverse:
  assumes "n < 32"
  shows "bit (bitReverse x) n = bit x (31 - n)"
  by (rule all_less_32 [OF _ assms])
    (simp add: bitReverse_def Let_def bit_bswap32 bit_simps del: push_bit_Suc)

lemma clz_loop_eq:
  assumes "\<And>n. bit x n \<Longrightarrow> n < m" and "m \<noteq> 0 \<Longrightarrow> bit x (m - 1)" and "m \<le> i"
  shows "clz_loop i x = i - m"
  using assms
proof (induction m arbitrary: i x)
  case 0
  then have "x = 0"
    by (intro word32_eqI) auto
  then show ?case
    by (simp add: clz_loop.simps)
next
  case (Suc m)
  then have "x \<noteq> 0"
    by auto
  moreover have "clz_loop (i - 1) (drop_bit 1 x) = (i - 1) - m"
    using Suc.prems by (intro Suc.IH) (auto simp: bit_simps simp flip: Suc_pred')
  ultimately show ?case
    using Suc.prems by (simp add: clz_loop.simps [of i x])
qed

lemma highest_bit:
  assumes "x \<noteq> (0 :: u32)"
  obtains m where "bit x m" "\<And>n. bit x n \<Longrightarrow> n \<le> m"
proof -
  from assms obtain k where k: "bit x k"
    by (auto simp: bit_eq_iff)
  have fin: "finite {n. bit x n}"
    by (rule finite_subset [of _ "{..<32}"]) (auto dest: bit32_lessD)
  from k have "Max {n. bit x n} \<in> {n. bit x n}"
    by (intro Max_in fin) auto
  with fin show ?thesis
    by (intro that) auto
qed

lemma lowest_bit:
  assumes "x \<noteq> (0 :: u32)"
  obtains k where "bit x k" "\<And>n. n < k \<Longrightarrow> \<not> bit x n"
proof -
  from assms obtain m where "bit x m"
    by (auto simp: bit_eq_iff)
  then have "bit x (LEAST n. bit x n)"
    by (rule LeastI)
  then show ?thesis
    by (rule that) (rule not_less_Least)
qed

text \<open>\<open>x & (x - 1)\<close> clears the lowest bit that is set.\<close>

lemma bit_clear_lowest:
  assumes k: "bit x k" "\<And>n. n < k \<Longrightarrow> \<not> bit (x :: u32) n"
  shows "bit (x AND (x - 1)) n \<longleftrightarrow> bit x n \<and> n \<noteq> k"
proof -
  have k32: "k < 32"
    using k(1) by (rule bit32_lessD)
  define y where "y = x AND NOT (push_bit k 1)"
  have y: "bit y n \<longleftrightarrow> bit x n \<and> n \<noteq> k" for n
    by (auto simp: y_def bit_simps dest: bit32_lessD simp del: push_bit_of_1)
  have "x = y OR push_bit k 1"
    using k(1) k32 by (intro word32_eqI) (auto simp: bit_or_iff y bit_simps simp del: push_bit_of_1)
  also have "\<dots> = y + push_bit k 1"
    by (rule disjunctive_add [symmetric]) (auto simp: y bit_simps simp del: push_bit_of_1)
  finally have "x - 1 = y + mask k"
    by (simp add: push_one_minus_one [symmetric] algebra_simps)
  also have "\<dots> = y OR mask k"
    using k by (intro disjunctive_add) (auto simp: y bit_mask_iff)
  finally show ?thesis
    using k by (auto simp: bit_and_iff bit_or_iff y bit_mask_iff)
qed

lemma finite_bits: "finite {n. bit (x :: u32) n}"
  by (rule finite_subset [of _ "{..<32}"]) (auto dest: bit32_lessD)

lemma parity_loop_eq: "parity_loop par x = (par \<noteq> odd (card {n. bit x n}))"
proof (induction par x rule: parity_loop.induct)
  case (1 par x)
  show ?case
  proof (cases "x = 0")
    case False
    then obtain k where k: "bit x k" "\<And>n. n < k \<Longrightarrow> \<not> bit x n"
      using lowest_bit by blast
    have "{n. bit x n} = insert k {n. bit (x AND (x - 1)) n}"
      and "k \<notin> {n. bit (x AND (x - 1)) n}"
      using k(1) by (auto simp: bit_clear_lowest [OF k])
    then have "card {n. bit x n} = Suc (card {n. bit (x AND (x - 1)) n})"
      by (simp add: finite_bits)
    with 1 False show ?thesis
      by (simp add: parity_loop.simps [of par x])
  qed (simp add: parity_loop.simps)
qed

lemma isPowerOf2_iff: "isPowerOf2 x \<longleftrightarrow> (\<exists>k < 32. x = push_bit k 1)"
proof
  assume p: "isPowerOf2 x"
  then have "x \<noteq> 0"
    by (simp add: isPowerOf2_def)
  then obtain k where k: "bit x k" "\<And>n. n < k \<Longrightarrow> \<not> bit x n"
    using lowest_bit by blast
  from p have clear: "x AND (x - 1) = 0"
    by (simp add: isPowerOf2_def)
  have b: "bit x n \<longleftrightarrow> n = k" for n
    using k(1) bit_clear_lowest [OF k, of n] unfolding clear by auto
  have "x = push_bit k 1"
    by (rule word32_eqI) (auto simp: b bit_simps simp del: push_bit_of_1)
  with bit32_lessD [OF k(1)] show "\<exists>k < 32. x = push_bit k 1"
    by blast
next
  assume "\<exists>k < 32. x = push_bit k 1"
  then obtain k where k: "k < 32" "x = push_bit k 1"
    by blast
  then have b: "bit x n \<longleftrightarrow> n = k" for n
    by (auto simp: bit_simps simp del: push_bit_of_1)
  then have "\<not> bit (x AND (x - 1)) n" for n
    using bit_clear_lowest [of x k n] by simp
  then have "x AND (x - 1) = 0"
    by (intro word32_eqI) simp
  moreover have "x \<noteq> 0"
    using b [of k] by auto
  ultimately show "isPowerOf2 x"
    by (simp add: isPowerOf2_def)
qed

subsection \<open>Checksums\<close>

text \<open>
  The reference description of the checksum: a shift register fed with a
  list of bits, least significant bit of the data first.
\<close>

definition crc_bit :: "u32 \<Rightarrow> u32 \<Rightarrow> bool \<Rightarrow> u32" where
  "crc_bit poly c b =
     (drop_bit 1 c OR (if b then push_bit 31 1 else 0)) XOR (if bit c 0 then poly else 0)"

definition word_bits :: "'d::len word \<Rightarrow> bool list" where
  "word_bits d = map (bit d) [0 ..< LENGTH('d)]"

lemma crc_step_bit: "crc_step poly (c, d) = (crc_bit poly c (bit d 0), drop_bit 1 d)"
proof -
  have "(c AND 1 \<noteq> 0) = bit c 0" for c :: u32
    by (simp add: and_one_eq bit_0 odd_iff_mod_2_eq_one)
  moreover have "(ucast (d AND 1) :: u32) = (if bit d 0 then 1 else 0)"
    by (auto simp: and_one_eq bit_0 odd_iff_mod_2_eq_one)
  ultimately show ?thesis
    by (simp add: crc_step_def crc_bit_def)
qed

lemma crc_step_funpow:
  "(crc_step poly ^^ n) (c, d) =
     (foldl (crc_bit poly) c (map (bit d) [0 ..< n]), drop_bit n d)"
  by (induction n) (simp_all add: crc_step_bit bit_simps)

lemma crc_eq_foldl: "crc c d poly = foldl (crc_bit poly) c (word_bits d)"
  by (simp add: crc_def crc_step_funpow word_bits_def)

lemma word_bits_byte: "word_bits (ucast (drop_bit k w) :: u8) = map (bit (w :: u32)) [k ..< k + 8]"
  by (rule nth_equalityI) (simp_all add: word_bits_def bit_simps)

lemma word_bits_append:
  "word_bits (w :: u32) = concat (map (\<lambda>k. word_bits (ucast (drop_bit k w) :: u8)) [0, 8, 16, 24])"
proof -
  have "[0 ..< 32] = [0 ..< 8] @ [8 ..< 16] @ [16 ..< 24] @ [24 ..< (32 :: nat)]"
    using upt_add_eq_append [of 0 8 24] upt_add_eq_append [of 8 16 16] upt_add_eq_append [of 16 24 8]
    by simp
  then show ?thesis
    by (simp add: word_bits_byte) (simp add: word_bits_def)
qed

lemma byte_bswap32:
  "j < 4 \<Longrightarrow> ucast (drop_bit (8 * j) (bswap32 w)) = (ucast (drop_bit (8 * (3 - j)) w) :: u8)"
  by (rule word8_eqI) (simp add: bit_simps bit_bswap32)

lemma write32le_bytes:
  "write32le le w = [ucast w, ucast (drop_bit 8 w), ucast (drop_bit 16 w), ucast (drop_bit 24 w)]"
  using byte_bswap32 [of 0 w] byte_bswap32 [of 1 w] byte_bswap32 [of 2 w] byte_bswap32 [of 3 w]
  by (simp add: write32le_def host_store32_def upt_rec)

lemma read32le_bytes:
  "read32le le (a # b # c # d # rest) =
     ucast a OR push_bit 8 (ucast b) OR push_bit 16 (ucast c) OR push_bit 24 (ucast d)"
proof (rule word32_eqI)
  fix n :: nat
  assume "n < 32"
  then show "bit (read32le le (a # b # c # d # rest)) n =
    bit (ucast a OR push_bit 8 (ucast b) OR push_bit 16 (ucast c) OR push_bit 24 (ucast d) :: u32) n"
    by (rule all_less_32 [rotated])
      (simp add: read32le_def host_load32_def bit_simps bit_bswap32 flip: numeral_2_eq_2)
qed

lemma read32le_write32le: "read32le le (write32le le' w @ rest) = w"
proof (rule word32_eqI)
  fix n :: nat
  assume "n < 32"
  then show "bit (read32le le (write32le le' w @ rest)) n = bit w n"
    by (rule all_less_32 [rotated])
      (simp add: write32le_bytes read32le_bytes bit_simps)
qed

text \<open>
  C29. A 32 bit checksum step is the four 8 bit steps over the bytes of the
  word in the order in which the word is stored in memory, on a host of
  either byte order.
\<close>

theorem crc32_is_crc8_of_bytes:
  "crc32 checksum data poly = foldl (\<lambda>c b. crc8 c b poly) checksum (write32le le data)"
  by (simp add: crc32_def crc8_def crc_eq_foldl write32le_bytes word_bits_append del: upt_Suc)

text \<open>
  C30. Memory words round trip: what \<open>write32le\<close> stored is read back by
  \<open>read32le\<close>, the byte sequence does not depend on the host's byte order,
  and the same holds of the 16 bit accessors.
\<close>

theorem le_accessors_roundtrip:
  "read32le le (write32le le' w @ rest) = w \<and> write32le le w = write32le le' w
   \<and> read16le le (write16le le' h @ rest) = h"
proof -
  have "read16le le (write16le le' h @ rest) = h"
    by (rule word16_eqI) (auto simp: read16le_def write16le_def bit_simps not_less)
  moreover have "write32le le w = write32le le' w"
    by (simp only: write32le_bytes)
  ultimately show ?thesis
    by (simp add: read32le_write32le)
qed

text \<open>
  C33. \<open>bitReverse\<close> moves bit \<open>n\<close> to bit \<open>31 - n\<close>, and
  \<open>countLeadingZeros\<close> is the position of the lowest set bit of the reversed
  word, 32 when there is none.
\<close>

theorem bitReverse_countLeadingZeros:
  "(bit (bitReverse x) n \<longleftrightarrow> n < 32 \<and> bit x (31 - n))
   \<and> countLeadingZeros x = (if x = 0 then 32 else (LEAST n. bit (bitReverse x) n))"
proof -
  have rev: "bit (bitReverse x) n \<longleftrightarrow> n < 32 \<and> bit x (31 - n)" for n
    by (cases "n < 32") (simp_all add: bit_bitReverse)
  have "countLeadingZeros x = (LEAST n. bit (bitReverse x) n)" if "x \<noteq> 0"
  proof -
    from that obtain m where m: "bit x m" "\<And>n. bit x n \<Longrightarrow> n \<le> m"
      using highest_bit by blast
    have "m < 32"
      using m(1) by (rule bit32_lessD)
    have "(LEAST n. bit (bitReverse x) n) = 31 - m"
      using m \<open>m < 32\<close> by (intro Least_equality) (auto simp: rev dest!: m(2))
    moreover have "clz_loop 32 x = 32 - Suc m"
      using m \<open>m < 32\<close> by (intro clz_loop_eq) (auto simp: less_Suc_eq_le)
    ultimately show ?thesis
      by (simp add: countLeadingZeros_def)
  qed
  moreover have "countLeadingZeros 0 = 32"
    by (simp add: countLeadingZeros_def clz_loop.simps)
  ultimately show ?thesis
    using rev [of n] by auto
qed

end
