(* ===== verification/InstructionOpcode.thy ===== *)
theory InstructionOpcode
  imports Prelude
begin

text \<open>
  The instruction set of the simulator: the enumeration \<open>InstructionOpcode\<close>
  that \<open>InstructionGen.cpp\<close> emits from its instruction table, and the
  properties of an instruction that the decoder and the executor share (its
  size and the kinds of its explicit operands).

  \<open>InstructionGen\<close> names an instruction by a mnemonic and a format suffix and
  adds it through the function of its format (\<open>f3r\<close>, \<open>fl2rus\<close>, \<open>fru6_in\<close>,
  \<dots>).  The enumeration is split along these formats: one datatype for the
  instructions of each format, and the sum of the formats.
\<close>

datatype NodeType = XS1_L | XS1_G | XS2_A

datatype OpType = Op_in | Op_out | Op_inout | Op_imm

datatype op_3r =
  ADD_3r | SUB_3r | EQ_3r | LSS_3r | LSU_3r | AND_3r | OR_3r | SHL_3r | SHR_3r | LDW_3r
| LD16S_3r | LD8U_3r | TSETR_3r

datatype op_2rus =
  ADD_2rus | ADD_mov_2rus | SUB_2rus | EQ_2rus | SHL_2rus | SHL_32_2rus | SHR_2rus
| SHR_32_2rus | LDW_2rus | STW_2rus

datatype op_l3r =
  TSETR_l3r | LSATS_l3r | LDAWF_l3r | LDAWB_l3r | LDA16F_l3r | LDA16B_l3r | STW_l3r
| ST16_l3r | ST8_l3r | MUL_l3r | DIVS_l3r | DIVU_l3r | REMS_l3r | REMU_l3r | XOR_l3r
| ASHR_l3r | CRC_l3r

datatype op_l2rus =
  LDAWF_l2rus | LDAWB_l2rus | ASHR_l2rus | ASHR_32_l2rus | UNZIP_l2rus | ZIP_l2rus
| OUTPW_l2rus | INPW_l2rus | LDDSP_l2rus | STDSP_l2rus

datatype op_l4r =
  LDD_l4r | CRCN_l4r | STD_l4r | MACCU_l4r | MACCS_l4r | CRC8_l4r

datatype op_l3rus =
  LDD_l3rus | STD_l3rus

datatype op_l5r =
  XOR4_l5r | LADD_l5r | LSUB_l5r | LDIVU_l5r

datatype op_l4rus =
  LEXTRACT_l4rus

datatype op_l6r =
  LMUL_l6r

datatype op_ru6 =
  LDAWDP_ru6 | LDWDP_ru6 | LDWCP_ru6 | LDWSP_ru6 | STWDP_ru6 | STWSP_ru6 | LDAWSP_ru6
| LDC_ru6 | BRFT_ru6 | BRFT_illegal_ru6 | BRBT_ru6 | BRBT_illegal_ru6 | BRFF_ru6
| BRFF_illegal_ru6 | BRBF_ru6 | BRBF_illegal_ru6 | SETC_ru6

datatype op_lru6 =
  LDAWDP_lru6 | LDWDP_lru6 | LDWCP_lru6 | LDWSP_lru6 | STWDP_lru6 | STWSP_lru6 | LDAWSP_lru6
| LDC_lru6 | BRFT_lru6 | BRFT_illegal_lru6 | BRBT_lru6 | BRBT_illegal_lru6 | BRFF_lru6
| BRFF_illegal_lru6 | BRBF_lru6 | BRBF_illegal_lru6 | SETC_lru6

datatype op_u6 =
  EXTSP_u6 | EXTDP_u6 | ENTSP_u6 | DUALENTSP_u6 | RETSP_u6 | RETSP_xs2a_u6 | KRESTSP_u6
| KENTSP_u6 | BRFU_u6 | BRFU_illegal_u6 | BRBU_u6 | BRBU_illegal_u6 | LDAWCP_u6 | SETSR_u6
| CLRSR_u6 | BLAT_u6 | KCALL_u6 | GETSR_u6

datatype op_lu6 =
  EXTSP_lu6 | EXTDP_lu6 | ENTSP_lu6 | DUALENTSP_lu6 | RETSP_lu6 | RETSP_xs2a_lu6
| KRESTSP_lu6 | KENTSP_lu6 | BRFU_lu6 | BRFU_illegal_lu6 | BRBU_lu6 | BRBU_illegal_lu6
| LDAWCP_lu6 | SETSR_lu6 | CLRSR_lu6 | BLAT_lu6 | KCALL_lu6 | GETSR_lu6

datatype op_u10 =
  LDWCPL_u10 | LDAPF_u10 | LDAPB_u10 | BLRF_u10 | BLRF_illegal_u10 | BLRB_u10
| BLRB_illegal_u10 | BLACP_u10

datatype op_lu10 =
  LDWCPL_lu10 | LDAPF_lu10 | LDAPB_lu10 | BLRF_lu10 | BLRF_illegal_lu10 | BLRB_lu10
| BLRB_illegal_lu10 | BLACP_lu10

datatype op_2r =
  NOT_2r | NEG_2r | SEXT_2r | ZEXT_2r | ANDNOT_2r | MKMSK_2r | GETST_2r | PEEK_2r | ENDIN_2r
| SETPSC_2r | BITREV_2r | BYTEREV_2r | CLZ_2r | IN_2r | OUT_2r | TINITPC_2r | TINITDP_2r
| TINITSP_2r | TINITCP_2r | TSETMR_2r | SETD_2r | OUTCT_2r | OUTT_2r | INT_2r | INCT_2r
| CHKCT_2r | TESTCT_2r | TESTWCT_2r | EET_2r | EEF_2r | INSHR_2r | OUTSHR_2r | GETTS_2r
| SETPT_2r

datatype op_rus =
  SEXT_rus | ZEXT_rus | MKMSK_rus | GETR_rus | OUTCT_rus | CHKCT_rus

datatype op_l2r =
  BITREV_l2r | BYTEREV_l2r | CLZ_l2r | TINITLR_l2r | GETD_l2r | TESTLCL_l2r | SETN_l2r
| GETN_l2r | GETPS_l2r | SETPS_l2r | SETC_l2r | SETCLK_l2r | SETTW_l2r | SETRDY_l2r
| TINITPC_l2r | TINITSP_l2r

datatype op_1r =
  GETTIME_1r | ELATE_1r | SETSP_1r | SETDP_1r | SETCP_1r | ECALLT_1r | ECALLF_1r | BAU_1r
| BLA_1r | BRU_1r | TSTART_1r | DGETREG_1r | KCALL_1r | FREER_1r | MSYNC_1r | MJOIN_1r
| SETV_1r | SETEV_1r | EDU_1r | EEU_1r | WAITET_1r | WAITEF_1r | SYNCR_1r | CLRPT_1r

datatype op_0r =
  NOP_0r | GETID_0r | GETET_0r | GETED_0r | GETKEP_0r | GETKSP_0r | SETKEP_0r | KRET_0r
| DRESTSP_0r | LDSPC_0r | LDSSR_0r | LDSED_0r | LDET_0r | STSPC_0r | STSSR_0r | STSED_0r
| STET_0r | FREET_0r | DCALL_0r | DRET_0r | DENTSP_0r | CLRE_0r | WAITEU_0r | SSYNC_0r

datatype op_l0r =
  KRET_l0r

datatype op_pseudo =
  ILLEGAL_PC | ILLEGAL_PC_THREAD | ILLEGAL_INSTRUCTION | BREAKPOINT | RUN_JIT
| INTERPRET_ONE | DECODE

datatype InstructionOpcode =
  F3r op_3r
| F2rus op_2rus
| Fl3r op_l3r
| Fl2rus op_l2rus
| Fl4r op_l4r
| Fl3rus op_l3rus
| Fl5r op_l5r
| Fl4rus op_l4rus
| Fl6r op_l6r
| Fru6 op_ru6
| Flru6 op_lru6
| Fu6 op_u6
| Flu6 op_lu6
| Fu10 op_u10
| Flu10 op_lu10
| F2r op_2r
| Frus op_rus
| Fl2r op_l2r
| F1r op_1r
| F0r op_0r
| Fl0r op_l0r
| Fpseudo op_pseudo

subsection \<open>Explicit operands\<close>

text \<open>
  The explicit operands of the instructions of a format, as the format's
  function passes them to \<open>inst\<close>.
\<close>

definition ops_3r :: "op_3r \<Rightarrow> OpType list" where
  "ops_3r i = (case i of
      TSETR_3r \<Rightarrow> [Op_imm, Op_in, Op_in]
    | _ \<Rightarrow> [Op_out, Op_in, Op_in])"

definition ops_2rus :: "op_2rus \<Rightarrow> OpType list" where
  "ops_2rus i = (case i of
      STW_2rus \<Rightarrow> [Op_in, Op_in, Op_imm]
    | _ \<Rightarrow> [Op_out, Op_in, Op_imm])"

definition ops_l3r :: "op_l3r \<Rightarrow> OpType list" where
  "ops_l3r i = (case i of
      TSETR_l3r \<Rightarrow> [Op_imm, Op_in, Op_in]
    | LSATS_l3r \<Rightarrow> [Op_inout, Op_inout, Op_in]
    | STW_l3r \<Rightarrow> [Op_in, Op_in, Op_in]
    | ST16_l3r \<Rightarrow> [Op_in, Op_in, Op_in]
    | ST8_l3r \<Rightarrow> [Op_in, Op_in, Op_in]
    | CRC_l3r \<Rightarrow> [Op_inout, Op_in, Op_in]
    | _ \<Rightarrow> [Op_out, Op_in, Op_in])"

definition ops_l2rus :: "op_l2rus \<Rightarrow> OpType list" where
  "ops_l2rus i = (case i of
      UNZIP_l2rus \<Rightarrow> [Op_inout, Op_inout, Op_imm]
    | ZIP_l2rus \<Rightarrow> [Op_inout, Op_inout, Op_imm]
    | OUTPW_l2rus \<Rightarrow> [Op_in, Op_in, Op_imm]
    | LDDSP_l2rus \<Rightarrow> [Op_out, Op_out, Op_imm]
    | STDSP_l2rus \<Rightarrow> [Op_in, Op_in, Op_imm]
    | _ \<Rightarrow> [Op_out, Op_in, Op_imm])"

definition ops_l4r :: "op_l4r \<Rightarrow> OpType list" where
  "ops_l4r i = (case i of
      LDD_l4r \<Rightarrow> [Op_out, Op_in, Op_in, Op_out]
    | CRC8_l4r \<Rightarrow> [Op_out, Op_in, Op_in, Op_inout]
    | _ \<Rightarrow> [Op_inout, Op_in, Op_in, Op_inout])"

definition ops_l3rus :: "op_l3rus \<Rightarrow> OpType list" where
  "ops_l3rus i = (case i of
      STD_l3rus \<Rightarrow> [Op_in, Op_in, Op_imm, Op_in]
    | _ \<Rightarrow> [Op_out, Op_in, Op_imm, Op_out])"

definition ops_l5r :: "op_l5r \<Rightarrow> OpType list" where
  "ops_l5r i = (case i of
      XOR4_l5r \<Rightarrow> [Op_out, Op_in, Op_in, Op_in, Op_in]
    | _ \<Rightarrow> [Op_out, Op_in, Op_in, Op_out, Op_in])"

definition ops_l4rus :: "op_l4rus \<Rightarrow> OpType list" where
  "ops_l4rus i = [Op_out, Op_in, Op_in, Op_in, Op_imm]"

definition ops_l6r :: "op_l6r \<Rightarrow> OpType list" where
  "ops_l6r i = [Op_out, Op_in, Op_in, Op_out, Op_in, Op_in]"

definition ops_ru6 :: "op_ru6 \<Rightarrow> OpType list" where
  "ops_ru6 i = (case i of
      LDAWDP_ru6 \<Rightarrow> [Op_out, Op_imm]
    | LDWDP_ru6 \<Rightarrow> [Op_out, Op_imm]
    | LDWCP_ru6 \<Rightarrow> [Op_out, Op_imm]
    | LDWSP_ru6 \<Rightarrow> [Op_out, Op_imm]
    | LDAWSP_ru6 \<Rightarrow> [Op_out, Op_imm]
    | LDC_ru6 \<Rightarrow> [Op_out, Op_imm]
    | _ \<Rightarrow> [Op_in, Op_imm])"

definition ops_lru6 :: "op_lru6 \<Rightarrow> OpType list" where
  "ops_lru6 i = (case i of
      LDAWDP_lru6 \<Rightarrow> [Op_out, Op_imm]
    | LDWDP_lru6 \<Rightarrow> [Op_out, Op_imm]
    | LDWCP_lru6 \<Rightarrow> [Op_out, Op_imm]
    | LDWSP_lru6 \<Rightarrow> [Op_out, Op_imm]
    | LDAWSP_lru6 \<Rightarrow> [Op_out, Op_imm]
    | LDC_lru6 \<Rightarrow> [Op_out, Op_imm]
    | _ \<Rightarrow> [Op_in, Op_imm])"

definition ops_u6 :: "op_u6 \<Rightarrow> OpType list" where
  "ops_u6 i = [Op_imm]"

definition ops_lu6 :: "op_lu6 \<Rightarrow> OpType list" where
  "ops_lu6 i = [Op_imm]"

definition ops_u10 :: "op_u10 \<Rightarrow> OpType list" where
  "ops_u10 i = [Op_imm]"

definition ops_lu10 :: "op_lu10 \<Rightarrow> OpType list" where
  "ops_lu10 i = [Op_imm]"

definition ops_2r :: "op_2r \<Rightarrow> OpType list" where
  "ops_2r i = (case i of
      SEXT_2r \<Rightarrow> [Op_inout, Op_in]
    | ZEXT_2r \<Rightarrow> [Op_inout, Op_in]
    | ANDNOT_2r \<Rightarrow> [Op_inout, Op_in]
    | SETPSC_2r \<Rightarrow> [Op_in, Op_in]
    | OUT_2r \<Rightarrow> [Op_in, Op_in]
    | TINITPC_2r \<Rightarrow> [Op_in, Op_in]
    | TINITDP_2r \<Rightarrow> [Op_in, Op_in]
    | TINITSP_2r \<Rightarrow> [Op_in, Op_in]
    | TINITCP_2r \<Rightarrow> [Op_in, Op_in]
    | TSETMR_2r \<Rightarrow> [Op_in, Op_in]
    | SETD_2r \<Rightarrow> [Op_in, Op_in]
    | OUTCT_2r \<Rightarrow> [Op_in, Op_in]
    | OUTT_2r \<Rightarrow> [Op_in, Op_in]
    | CHKCT_2r \<Rightarrow> [Op_in, Op_in]
    | EET_2r \<Rightarrow> [Op_in, Op_in]
    | EEF_2r \<Rightarrow> [Op_in, Op_in]
    | INSHR_2r \<Rightarrow> [Op_inout, Op_in]
    | OUTSHR_2r \<Rightarrow> [Op_inout, Op_in]
    | SETPT_2r \<Rightarrow> [Op_in, Op_in]
    | _ \<Rightarrow> [Op_out, Op_in])"

definition ops_rus :: "op_rus \<Rightarrow> OpType list" where
  "ops_rus i = (case i of
      MKMSK_rus \<Rightarrow> [Op_out, Op_imm]
    | GETR_rus \<Rightarrow> [Op_out, Op_imm]
    | OUTCT_rus \<Rightarrow> [Op_in, Op_imm]
    | CHKCT_rus \<Rightarrow> [Op_in, Op_imm]
    | _ \<Rightarrow> [Op_inout, Op_imm])"

definition ops_l2r :: "op_l2r \<Rightarrow> OpType list" where
  "ops_l2r i = (case i of
      BITREV_l2r \<Rightarrow> [Op_out, Op_in]
    | BYTEREV_l2r \<Rightarrow> [Op_out, Op_in]
    | CLZ_l2r \<Rightarrow> [Op_out, Op_in]
    | GETD_l2r \<Rightarrow> [Op_out, Op_in]
    | TESTLCL_l2r \<Rightarrow> [Op_out, Op_in]
    | GETN_l2r \<Rightarrow> [Op_out, Op_in]
    | GETPS_l2r \<Rightarrow> [Op_out, Op_in]
    | _ \<Rightarrow> [Op_in, Op_in])"

definition ops_1r :: "op_1r \<Rightarrow> OpType list" where
  "ops_1r i = (case i of
      GETTIME_1r \<Rightarrow> [Op_out]
    | DGETREG_1r \<Rightarrow> [Op_out]
    | _ \<Rightarrow> [Op_in])"

definition ops_0r :: "op_0r \<Rightarrow> OpType list" where
  "ops_0r i = []"

definition ops_l0r :: "op_l0r \<Rightarrow> OpType list" where
  "ops_l0r i = []"

definition ops_pseudo :: "op_pseudo \<Rightarrow> OpType list" where
  "ops_pseudo i = []"

definition explicit_ops :: "InstructionOpcode \<Rightarrow> OpType list" where
  "explicit_ops opc = (case opc of
      F3r i \<Rightarrow> ops_3r i
    | F2rus i \<Rightarrow> ops_2rus i
    | Fl3r i \<Rightarrow> ops_l3r i
    | Fl2rus i \<Rightarrow> ops_l2rus i
    | Fl4r i \<Rightarrow> ops_l4r i
    | Fl3rus i \<Rightarrow> ops_l3rus i
    | Fl5r i \<Rightarrow> ops_l5r i
    | Fl4rus i \<Rightarrow> ops_l4rus i
    | Fl6r i \<Rightarrow> ops_l6r i
    | Fru6 i \<Rightarrow> ops_ru6 i
    | Flru6 i \<Rightarrow> ops_lru6 i
    | Fu6 i \<Rightarrow> ops_u6 i
    | Flu6 i \<Rightarrow> ops_lu6 i
    | Fu10 i \<Rightarrow> ops_u10 i
    | Flu10 i \<Rightarrow> ops_lu10 i
    | F2r i \<Rightarrow> ops_2r i
    | Frus i \<Rightarrow> ops_rus i
    | Fl2r i \<Rightarrow> ops_l2r i
    | F1r i \<Rightarrow> ops_1r i
    | F0r i \<Rightarrow> ops_0r i
    | Fl0r i \<Rightarrow> ops_l0r i
    | Fpseudo i \<Rightarrow> ops_pseudo i)"

text \<open>The size in bytes: the formats with prefix \<open>l\<close> are encoded in two half-words.\<close>

definition inst_size :: "InstructionOpcode \<Rightarrow> nat" where
  "inst_size opc = (case opc of
      F3r i \<Rightarrow> 2
    | F2rus i \<Rightarrow> 2
    | Fl3r i \<Rightarrow> 4
    | Fl2rus i \<Rightarrow> 4
    | Fl4r i \<Rightarrow> 4
    | Fl3rus i \<Rightarrow> 4
    | Fl5r i \<Rightarrow> 4
    | Fl4rus i \<Rightarrow> 4
    | Fl6r i \<Rightarrow> 4
    | Fru6 i \<Rightarrow> 2
    | Flru6 i \<Rightarrow> 4
    | Fu6 i \<Rightarrow> 2
    | Flu6 i \<Rightarrow> 4
    | Fu10 i \<Rightarrow> 2
    | Flu10 i \<Rightarrow> 4
    | F2r i \<Rightarrow> 2
    | Frus i \<Rightarrow> 2
    | Fl2r i \<Rightarrow> 4
    | F1r i \<Rightarrow> 2
    | F0r i \<Rightarrow> 2
    | Fl0r i \<Rightarrow> 4
    | Fpseudo i \<Rightarrow> 2)"

lemmas ops_defs =
  ops_3r_def ops_2rus_def ops_l3r_def ops_l2rus_def ops_l4r_def ops_l3rus_def ops_l5r_def
  ops_l4rus_def ops_l6r_def ops_ru6_def ops_lru6_def ops_u6_def ops_lu6_def ops_u10_def
  ops_lu10_def ops_2r_def ops_rus_def ops_l2r_def ops_1r_def ops_0r_def ops_l0r_def
  ops_pseudo_def

end
