(* ===== verification/Decode.thy ===== *)
theory Decode
  imports BitManip InstructionOpcode
begin

text \<open>
  The instruction decoder of \<open>Instruction.cpp\<close>.  The pair of an opcode and
  six operand slots is the pair of reference parameters \<open>opcode\<close> and
  \<open>operands\<close>: a case that assigns neither leaves both as they were.  \<open>None\<close>
  is the failure of the assertion of \<open>bitpValue\<close>.

  The \<open>uint16_t\<close> half-words are zero-extended to \<open>uint32_t\<close> once, where the
  C++ code converts them at each call of a test or of an operand decoder.
\<close>

type_synonym operands = "u32 list"
type_synonym decoded = "InstructionOpcode \<times> operands"

definition bitRange :: "u32 \<Rightarrow> nat \<Rightarrow> nat \<Rightarrow> u32" where
  "bitRange value high low = extractBitRange value high low"

definition bit_at :: "u32 \<Rightarrow> nat \<Rightarrow> u32" where
  "bit_at value shift = extractBit value shift"

subsection \<open>Format tests\<close>

definition test3R :: "u32 \<Rightarrow> bool" where
  "test3R low \<longleftrightarrow> bitRange low 10 6 < 27"

definition test2R :: "u32 \<Rightarrow> bool" where
  "test2R low \<longleftrightarrow> (let combined = (bitRange low 10 6 - 27) + bit_at low 5 * 5 in combined < 9)"

definition test1R :: "u32 \<Rightarrow> bool" where
  "test1R low \<longleftrightarrow> bitRange low 10 5 = 0x3f \<and> bitRange low 3 0 < 12"

definition testRU6 :: "u32 \<Rightarrow> bool" where
  "testRU6 low \<longleftrightarrow> bitRange low 9 6 < 12"

definition testRU6_2 :: "u32 \<Rightarrow> bool" where
  "testRU6_2 low \<longleftrightarrow> True"

definition testLRU6 :: "u32 \<Rightarrow> u32 \<Rightarrow> bool" where
  "testLRU6 high low \<longleftrightarrow> testRU6 high"

definition testLRU6_2 :: "u32 \<Rightarrow> u32 \<Rightarrow> bool" where
  "testLRU6_2 high low \<longleftrightarrow> testRU6_2 high"

definition testL2R :: "u32 \<Rightarrow> u32 \<Rightarrow> bool" where
  "testL2R high low \<longleftrightarrow>
     (let combined = (bitRange low 10 6 - 27) + bit_at low 5 * 5
      in combined < 9 \<and> bitRange high 10 4 = 0x7e)"

definition testL3R :: "u32 \<Rightarrow> u32 \<Rightarrow> bool" where
  "testL3R high low \<longleftrightarrow> bitRange low 10 6 < 27 \<and> bitRange high 10 4 = 0x7e"

definition testL4R :: "u32 \<Rightarrow> u32 \<Rightarrow> bool" where
  "testL4R high low \<longleftrightarrow>
     bitRange low 10 6 < 27 \<and> bitRange high 3 0 < 12 \<and> bitRange high 10 5 = 0x3f"

definition testL5R :: "u32 \<Rightarrow> u32 \<Rightarrow> bool" where
  "testL5R high low \<longleftrightarrow>
     (if 26 < bitRange low 10 6 then False
      else let combined = (bitRange high 10 6 - 27) + bit_at high 5 * 5 in combined < 9)"

definition testL6R :: "u32 \<Rightarrow> u32 \<Rightarrow> bool" where
  "testL6R high low \<longleftrightarrow> bitRange low 10 6 < 27 \<and> bitRange high 10 6 < 27"

subsection \<open>Operands\<close>

definition decode3ROperands :: "u32 \<Rightarrow> operands \<Rightarrow> operands" where
  "decode3ROperands low ops = (
     let combined = bitRange low 10 6;
         op0_high = combined mod 3;
         op1_high = (combined div 3) mod 3;
         op2_high = combined div 9
     in ops[0 := bitRange low 5 4 OR push_bit 2 op0_high,
            1 := bitRange low 3 2 OR push_bit 2 op1_high,
            2 := bitRange low 1 0 OR push_bit 2 op2_high])"

definition decodeL3ROperands :: "u32 \<Rightarrow> u32 \<Rightarrow> operands \<Rightarrow> operands" where
  "decodeL3ROperands high low ops = decode3ROperands low ops"

definition decode2RUSOperands :: "u32 \<Rightarrow> operands \<Rightarrow> operands" where
  "decode2RUSOperands low ops = decode3ROperands low ops"

definition decodeL2RUSOperands :: "u32 \<Rightarrow> u32 \<Rightarrow> operands \<Rightarrow> operands" where
  "decodeL2RUSOperands high low ops = decodeL3ROperands high low ops"

definition decodeRU6Operands :: "u32 \<Rightarrow> operands \<Rightarrow> operands" where
  "decodeRU6Operands low ops = ops[0 := bitRange low 9 6, 1 := bitRange low 5 0]"

definition decodeLRU6Operands :: "u32 \<Rightarrow> u32 \<Rightarrow> operands \<Rightarrow> operands" where
  "decodeLRU6Operands high low ops =
     ops[0 := bitRange high 9 6, 1 := bitRange high 5 0 OR push_bit 6 (bitRange low 9 0)]"

definition decodeU6Operands :: "u32 \<Rightarrow> operands \<Rightarrow> operands" where
  "decodeU6Operands low ops = ops[0 := bitRange low 5 0]"

definition decodeLU6Operands :: "u32 \<Rightarrow> u32 \<Rightarrow> operands \<Rightarrow> operands" where
  "decodeLU6Operands high low ops =
     ops[0 := bitRange high 5 0 OR push_bit 6 (bitRange low 9 0)]"

definition decodeU10Operands :: "u32 \<Rightarrow> operands \<Rightarrow> operands" where
  "decodeU10Operands low ops = ops[0 := bitRange low 9 0]"

definition decodeLU10Operands :: "u32 \<Rightarrow> u32 \<Rightarrow> operands \<Rightarrow> operands" where
  "decodeLU10Operands high low ops =
     ops[0 := bitRange high 9 0 OR push_bit 10 (bitRange low 9 0)]"

definition decode2ROperands :: "u32 \<Rightarrow> operands \<Rightarrow> operands" where
  "decode2ROperands low ops = (
     let combined = (bitRange low 10 6 - 27) + bit_at low 5 * 5;
         op0_high = combined mod 3;
         op1_high = combined div 3
     in ops[0 := bitRange low 3 2 OR push_bit 2 op0_high,
            1 := bitRange low 1 0 OR push_bit 2 op1_high])"

definition decodeL2ROperands :: "u32 \<Rightarrow> u32 \<Rightarrow> operands \<Rightarrow> operands" where
  "decodeL2ROperands high low ops = decode2ROperands low ops"

definition decodeRUSOperands :: "u32 \<Rightarrow> operands \<Rightarrow> operands" where
  "decodeRUSOperands low ops = (
     let combined = (bitRange low 10 6 - 27) + bit_at low 5 * 5;
         op0_high = combined mod 3;
         op1_high = combined div 3
     in ops[0 := bitRange low 3 2 OR push_bit 2 op0_high,
            1 := bitRange low 1 0 OR push_bit 2 op1_high])"

definition decode1ROperands :: "u32 \<Rightarrow> operands \<Rightarrow> operands" where
  "decode1ROperands low ops = ops[0 := bitRange low 3 0]"

definition decodeL4ROperands :: "u32 \<Rightarrow> u32 \<Rightarrow> operands \<Rightarrow> operands" where
  "decodeL4ROperands high low ops = (
     let combined = bitRange low 10 6;
         op0_high = combined mod 3;
         op1_high = (combined div 3) mod 3;
         op2_high = combined div 9
     in ops[0 := bitRange low 5 4 OR push_bit 2 op0_high,
            1 := bitRange low 3 2 OR push_bit 2 op1_high,
            2 := bitRange low 1 0 OR push_bit 2 op2_high,
            3 := bitRange high 3 0])"

definition decodeL5ROperands :: "u32 \<Rightarrow> u32 \<Rightarrow> operands \<Rightarrow> operands" where
  "decodeL5ROperands high low ops = (
     let combined_low = bitRange low 10 6;
         op0_high = combined_low mod 3;
         op1_high = (combined_low div 3) mod 3;
         op2_high = combined_low div 9;
         combined_high = (bitRange high 10 6 - 27) + bit_at high 5 * 5;
         op3_high = combined_high mod 3;
         op4_high = combined_high div 3
     in ops[0 := bitRange low 5 4 OR push_bit 2 op0_high,
            1 := bitRange low 3 2 OR push_bit 2 op1_high,
            2 := bitRange low 1 0 OR push_bit 2 op2_high,
            3 := bitRange high 3 2 OR push_bit 2 op3_high,
            4 := bitRange high 1 0 OR push_bit 2 op4_high])"

definition decodeL6ROperands :: "u32 \<Rightarrow> u32 \<Rightarrow> operands \<Rightarrow> operands" where
  "decodeL6ROperands high low ops = (
     let combined_low = bitRange low 10 6;
         op0_high = combined_low mod 3;
         op1_high = (combined_low div 3) mod 3;
         op2_high = combined_low div 9;
         combined_high = bitRange high 10 6;
         op3_high = combined_high mod 3;
         op4_high = (combined_high div 3) mod 3;
         op5_high = combined_high div 9
     in ops[0 := bitRange low 5 4 OR push_bit 2 op0_high,
            1 := bitRange low 3 2 OR push_bit 2 op1_high,
            2 := bitRange low 1 0 OR push_bit 2 op2_high,
            3 := bitRange high 5 4 OR push_bit 2 op3_high,
            4 := bitRange high 3 2 OR push_bit 2 op4_high,
            5 := bitRange high 1 0 OR push_bit 2 op5_high])"

subsection \<open>The \<open>DECODE\<close> macros\<close>

text \<open>The macros assign the opcode and decode the operands; \<open>d\<close> holds both.\<close>

definition DECODE_3R :: "op_3r \<Rightarrow> u32 \<Rightarrow> decoded \<Rightarrow> decoded option" where
  "DECODE_3R inst low d = Some (F3r inst, decode3ROperands low (snd d))"

definition DECODE_2RUS :: "op_2rus \<Rightarrow> u32 \<Rightarrow> decoded \<Rightarrow> decoded option" where
  "DECODE_2RUS inst low d = Some (F2rus inst, decode2RUSOperands low (snd d))"

definition DECODE_RU6 :: "op_ru6 \<Rightarrow> u32 \<Rightarrow> decoded \<Rightarrow> decoded option" where
  "DECODE_RU6 inst low d = Some (Fru6 inst, decodeRU6Operands low (snd d))"

definition DECODE_LRU6 :: "op_lru6 \<Rightarrow> u32 \<Rightarrow> u32 \<Rightarrow> decoded \<Rightarrow> decoded option" where
  "DECODE_LRU6 inst high low d = Some (Flru6 inst, decodeLRU6Operands high low (snd d))"

definition DECODE_2R :: "op_2r \<Rightarrow> u32 \<Rightarrow> decoded \<Rightarrow> decoded option" where
  "DECODE_2R inst low d = Some (F2r inst, decode2ROperands low (snd d))"

definition DECODE_RUS :: "op_rus \<Rightarrow> u32 \<Rightarrow> decoded \<Rightarrow> decoded option" where
  "DECODE_RUS inst low d = Some (Frus inst, decodeRUSOperands low (snd d))"

definition DECODE_1R :: "op_1r \<Rightarrow> u32 \<Rightarrow> decoded \<Rightarrow> decoded option" where
  "DECODE_1R inst low d = Some (F1r inst, decode1ROperands low (snd d))"

definition DECODE_U6 :: "op_u6 \<Rightarrow> u32 \<Rightarrow> decoded \<Rightarrow> decoded option" where
  "DECODE_U6 inst low d = Some (Fu6 inst, decodeU6Operands low (snd d))"

definition DECODE_LU6 :: "op_lu6 \<Rightarrow> u32 \<Rightarrow> u32 \<Rightarrow> decoded \<Rightarrow> decoded option" where
  "DECODE_LU6 inst high low d = Some (Flu6 inst, decodeLU6Operands high low (snd d))"

definition DECODE_U10 :: "op_u10 \<Rightarrow> u32 \<Rightarrow> decoded \<Rightarrow> decoded option" where
  "DECODE_U10 inst low d = Some (Fu10 inst, decodeU10Operands low (snd d))"

definition DECODE_LU10 :: "op_lu10 \<Rightarrow> u32 \<Rightarrow> u32 \<Rightarrow> decoded \<Rightarrow> decoded option" where
  "DECODE_LU10 inst high low d = Some (Flu10 inst, decodeLU10Operands high low (snd d))"

definition DECODE_0R :: "op_0r \<Rightarrow> decoded \<Rightarrow> decoded option" where
  "DECODE_0R inst d = Some (F0r inst, snd d)"

definition DECODE_L0R :: "op_l0r \<Rightarrow> decoded \<Rightarrow> decoded option" where
  "DECODE_L0R inst d = Some (Fl0r inst, snd d)"

definition DECODE_L2R :: "op_l2r \<Rightarrow> u32 \<Rightarrow> u32 \<Rightarrow> decoded \<Rightarrow> decoded option" where
  "DECODE_L2R inst high low d = Some (Fl2r inst, decodeL2ROperands high low (snd d))"

definition DECODE_L3R :: "op_l3r \<Rightarrow> u32 \<Rightarrow> u32 \<Rightarrow> decoded \<Rightarrow> decoded option" where
  "DECODE_L3R inst high low d = Some (Fl3r inst, decodeL3ROperands high low (snd d))"

definition DECODE_L2RUS :: "op_l2rus \<Rightarrow> u32 \<Rightarrow> u32 \<Rightarrow> decoded \<Rightarrow> decoded option" where
  "DECODE_L2RUS inst high low d = Some (Fl2rus inst, decodeL2RUSOperands high low (snd d))"

definition DECODE_L3RUS :: "op_l3rus \<Rightarrow> u32 \<Rightarrow> u32 \<Rightarrow> decoded \<Rightarrow> decoded option" where
  "DECODE_L3RUS inst high low d = Some (Fl3rus inst, decodeL4ROperands high low (snd d))"

definition DECODE_L4R :: "op_l4r \<Rightarrow> u32 \<Rightarrow> u32 \<Rightarrow> decoded \<Rightarrow> decoded option" where
  "DECODE_L4R inst high low d = Some (Fl4r inst, decodeL4ROperands high low (snd d))"

text \<open>\<open>DECODE_L5R\<close> is used for the formats \<open>l5r\<close> and \<open>l4rus\<close>, so it takes the whole opcode.\<close>

definition DECODE_L5R :: "InstructionOpcode \<Rightarrow> u32 \<Rightarrow> u32 \<Rightarrow> decoded \<Rightarrow> decoded option" where
  "DECODE_L5R inst high low d = Some (inst, decodeL5ROperands high low (snd d))"

definition DECODE_L6R :: "op_l6r \<Rightarrow> u32 \<Rightarrow> u32 \<Rightarrow> decoded \<Rightarrow> decoded option" where
  "DECODE_L6R inst high low d = Some (Fl6r inst, decodeL6ROperands high low (snd d))"

definition bitpValue :: "u32 \<Rightarrow> u32 option" where
  "bitpValue value = do {
     assert_that (value < 12);
     Some ([32, 1, 2, 3, 4, 5, 6, 7, 8, 16, 24, 32] ! unat value)
   }"

text \<open>The statement \<open>OP(n) = bitpValue(OP(n))\<close> after a \<open>DECODE\<close> macro.\<close>

definition then_bitp :: "nat \<Rightarrow> decoded option \<Rightarrow> decoded option" where
  "then_bitp n r = do {
     (opc, ops) \<leftarrow> r;
     v \<leftarrow> bitpValue (ops ! n);
     Some (opc, ops[n := v])
   }"

text \<open>A C++ \<open>switch\<close> in which every case ends with \<open>break\<close> and there is no default.\<close>

definition switch :: "u32 \<Rightarrow> (u32 \<times> decoded option) list \<Rightarrow> decoded \<Rightarrow> decoded option" where
  "switch v cases d = (case map_of cases v of Some r \<Rightarrow> r | None \<Rightarrow> Some d)"

subsection \<open>Short instructions, by bits 15 to 11\<close>

definition case_0x00 :: "u32 \<Rightarrow> NodeType \<Rightarrow> decoded \<Rightarrow> decoded option" where
  "case_0x00 low ty d = (
     if test3R low then DECODE_2RUS STW_2rus low d
     else if test2R low then
       switch (bit_at low 4)
         [(0, if ty = XS2_A then DECODE_2R BYTEREV_2r low d else DECODE_2R TINITPC_2r low d),
          (1, DECODE_2R GETST_2r low d)] d
     else if test1R low then
       switch (bit_at low 4)
         [(0, DECODE_1R EDU_1r low d),
          (1, DECODE_1R EEU_1r low d)] d
     else
       switch low
         [(0x07ec, DECODE_0R WAITEU_0r d),
          (0x07ed, DECODE_0R CLRE_0r d),
          (0x07ee, DECODE_0R SSYNC_0r d),
          (0x07ef, DECODE_0R FREET_0r d),
          (0x07fc, DECODE_0R DCALL_0r d),
          (0x07fd, if ty \<noteq> XS2_A then DECODE_0R KRET_0r d else Some d),
          (0x07fe, if ty \<noteq> XS2_A then DECODE_0R DRET_0r d else Some d),
          (0x07ff, DECODE_0R SETKEP_0r d)] d)"

definition case_0x01 :: "u32 \<Rightarrow> NodeType \<Rightarrow> decoded \<Rightarrow> decoded option" where
  "case_0x01 low ty d = (
     if test3R low then DECODE_2RUS LDW_2rus low d
     else if test2R low then
       switch (bit_at low 4)
         [(0, if ty = XS2_A then DECODE_2R CLZ_2r low d else DECODE_2R TINITDP_2r low d),
          (1, DECODE_2R OUTT_2r low d)] d
     else if test1R low then
       switch (bit_at low 4)
         [(0, DECODE_1R WAITET_1r low d),
          (1, DECODE_1R WAITEF_1r low d)] d
     else
       switch low
         [(0x0fec, DECODE_0R LDSPC_0r d),
          (0x0fed, DECODE_0R STSPC_0r d),
          (0x0fee, DECODE_0R LDSSR_0r d),
          (0x0fef, DECODE_0R STSSR_0r d),
          (0x0ffc, DECODE_0R STSED_0r d),
          (0x0ffd, DECODE_0R STET_0r d),
          (0x0ffe, DECODE_0R GETED_0r d),
          (0x0fff, DECODE_0R GETET_0r d)] d)"

definition case_0x02 :: "u32 \<Rightarrow> NodeType \<Rightarrow> decoded \<Rightarrow> decoded option" where
  "case_0x02 low ty d = (
     if test3R low then DECODE_3R ADD_3r low d
     else if test2R low then
       switch (bit_at low 4)
         [(0, if ty = XS2_A then DECODE_2R BITREV_2r low d else DECODE_2R TINITSP_2r low d),
          (1, DECODE_2R SETD_2r low d)] d
     else if test1R low then
       switch (bit_at low 4)
         [(0, DECODE_1R FREER_1r low d),
          (1, DECODE_1R MJOIN_1r low d)] d
     else
       switch low
         [(0x17ec, if ty \<noteq> XS2_A then DECODE_0R DENTSP_0r d else Some d),
          (0x17ed, if ty \<noteq> XS2_A then DECODE_0R DRESTSP_0r d else Some d),
          (0x17ee, DECODE_0R GETID_0r d),
          (0x17ef, DECODE_0R GETKEP_0r d),
          (0x17fc, DECODE_0R GETKSP_0r d),
          (0x17fd, DECODE_0R LDSED_0r d),
          (0x17fe, DECODE_0R LDET_0r d),
          (0x17ff, if ty = XS2_A then DECODE_0R NOP_0r d else Some d)] d)"

definition case_0x03 :: "u32 \<Rightarrow> NodeType \<Rightarrow> decoded \<Rightarrow> decoded option" where
  "case_0x03 low ty d = (
     if test3R low then DECODE_3R SUB_3r low d
     else if test2R low \<and> ty \<noteq> XS2_A then
       switch (bit_at low 4)
         [(0, DECODE_2R TINITCP_2r low d),
          (1, DECODE_2R TSETMR_2r low d)] d
     else if test1R low then
       switch (bit_at low 4)
         [(0, DECODE_1R TSTART_1r low d),
          (1, DECODE_1R MSYNC_1r low d)] d
     else Some d)"

definition case_0x04 :: "u32 \<Rightarrow> decoded \<Rightarrow> decoded option" where
  "case_0x04 low d = (
     if test3R low then DECODE_3R SHL_3r low d
     else if test2R low then
       switch (bit_at low 4)
         [(0, Some d),
          (1, DECODE_2R EET_2r low d)] d
     else if test1R low then
       switch (bit_at low 4)
         [(0, DECODE_1R BLA_1r low d),
          (1, DECODE_1R BAU_1r low d)] d
     else Some d)"

definition case_0x05 :: "u32 \<Rightarrow> decoded \<Rightarrow> decoded option" where
  "case_0x05 low d = (
     if test3R low then DECODE_3R SHR_3r low d
     else if test2R low then
       switch (bit_at low 4)
         [(0, DECODE_2R ANDNOT_2r low d),
          (1, DECODE_2R EEF_2r low d)] d
     else if test1R low then
       switch (bit_at low 4)
         [(0, DECODE_1R BRU_1r low d),
          (1, DECODE_1R SETSP_1r low d)] d
     else Some d)"

definition case_0x06 :: "u32 \<Rightarrow> decoded \<Rightarrow> decoded option" where
  "case_0x06 low d = (
     if test3R low then DECODE_3R EQ_3r low d
     else if test2R low then
       switch (bit_at low 4)
         [(0, DECODE_2R SEXT_2r low d),
          (1, then_bitp 1 (DECODE_RUS SEXT_rus low d))] d
     else if test1R low then
       switch (bit_at low 4)
         [(0, DECODE_1R SETDP_1r low d),
          (1, DECODE_1R SETCP_1r low d)] d
     else Some d)"

definition case_0x07 :: "u32 \<Rightarrow> decoded \<Rightarrow> decoded option" where
  "case_0x07 low d = (
     if test3R low then DECODE_3R AND_3r low d
     else if test2R low then
       switch (bit_at low 4)
         [(0, DECODE_2R GETTS_2r low d),
          (1, DECODE_2R SETPT_2r low d)] d
     else if test1R low then
       switch (bit_at low 4)
         [(0, DECODE_1R DGETREG_1r low d),
          (1, DECODE_1R SETEV_1r low d)] d
     else Some d)"

definition case_0x08 :: "u32 \<Rightarrow> decoded \<Rightarrow> decoded option" where
  "case_0x08 low d = (
     if test3R low then DECODE_3R OR_3r low d
     else if test2R low then
       switch (bit_at low 4)
         [(0, DECODE_2R ZEXT_2r low d),
          (1, then_bitp 1 (DECODE_RUS ZEXT_rus low d))] d
     else if test1R low then
       switch (bit_at low 4)
         [(0, DECODE_1R KCALL_1r low d),
          (1, DECODE_1R SETV_1r low d)] d
     else Some d)"

definition case_0x09 :: "u32 \<Rightarrow> decoded \<Rightarrow> decoded option" where
  "case_0x09 low d = (
     if test3R low then DECODE_3R LDW_3r low d
     else if test2R low then
       switch (bit_at low 4)
         [(0, DECODE_2R OUTCT_2r low d),
          (1, DECODE_RUS OUTCT_rus low d)] d
     else if test1R low then
       switch (bit_at low 4)
         [(0, DECODE_1R ECALLF_1r low d),
          (1, DECODE_1R ECALLT_1r low d)] d
     else Some d)"

definition case_0x0a :: "u32 \<Rightarrow> decoded \<Rightarrow> decoded option" where
  "case_0x0a low d = (
     if testRU6_2 low then
       switch (bit_at low 10)
         [(0, DECODE_RU6 STWDP_ru6 low d),
          (1, DECODE_RU6 STWSP_ru6 low d)] d
     else Some d)"

definition case_0x0b :: "u32 \<Rightarrow> decoded \<Rightarrow> decoded option" where
  "case_0x0b low d = (
     if testRU6_2 low then
       switch (bit_at low 10)
         [(0, DECODE_RU6 LDWDP_ru6 low d),
          (1, DECODE_RU6 LDWSP_ru6 low d)] d
     else Some d)"

definition case_0x0c :: "u32 \<Rightarrow> decoded \<Rightarrow> decoded option" where
  "case_0x0c low d = (
     if testRU6_2 low then
       switch (bit_at low 10)
         [(0, DECODE_RU6 LDAWDP_ru6 low d),
          (1, DECODE_RU6 LDAWSP_ru6 low d)] d
     else Some d)"

definition case_0x0d :: "u32 \<Rightarrow> decoded \<Rightarrow> decoded option" where
  "case_0x0d low d = (
     if testRU6_2 low then
       switch (bit_at low 10)
         [(0, DECODE_RU6 LDC_ru6 low d),
          (1, DECODE_RU6 LDWCP_ru6 low d)] d
     else Some d)"

definition case_0x0e :: "u32 \<Rightarrow> NodeType \<Rightarrow> decoded \<Rightarrow> decoded option" where
  "case_0x0e low ty d = (
     if testRU6 low then
       switch (bit_at low 10)
         [(0, DECODE_RU6 BRFT_ru6 low d),
          (1, DECODE_RU6 BRBT_ru6 low d)] d
     else
       switch (bitRange low 10 6)
         [(0x0c, DECODE_U6 BRFU_u6 low d),
          (0x0d, DECODE_U6 BLAT_u6 low d),
          (0x0e, DECODE_U6 EXTDP_u6 low d),
          (0x0f, DECODE_U6 KCALL_u6 low d),
          (0x1c, DECODE_U6 BRBU_u6 low d),
          (0x1d, DECODE_U6 ENTSP_u6 low d),
          (0x1e, DECODE_U6 EXTSP_u6 low d),
          (0x1f, if ty = XS2_A then DECODE_U6 RETSP_xs2a_u6 low d
                 else DECODE_U6 RETSP_u6 low d)] d)"

definition case_0x0f :: "u32 \<Rightarrow> NodeType \<Rightarrow> decoded \<Rightarrow> decoded option" where
  "case_0x0f low ty d = (
     if testRU6 low then
       switch (bit_at low 10)
         [(0, DECODE_RU6 BRFF_ru6 low d),
          (1, DECODE_RU6 BRBF_ru6 low d)] d
     else
       switch (bitRange low 10 6)
         [(0x0c, DECODE_U6 CLRSR_u6 low d),
          (0x0d, DECODE_U6 SETSR_u6 low d),
          (0x0e, DECODE_U6 KENTSP_u6 low d),
          (0x0f, if ty \<noteq> XS2_A then DECODE_U6 KRESTSP_u6 low d else Some d),
          (0x1c, DECODE_U6 GETSR_u6 low d),
          (0x1d, DECODE_U6 LDAWCP_u6 low d),
          (0x1e, if ty = XS2_A then DECODE_U6 DUALENTSP_u6 low d else Some d)] d)"

definition case_0x10 :: "u32 \<Rightarrow> decoded \<Rightarrow> decoded option" where
  "case_0x10 low d = (
     if test3R low then DECODE_3R LD16S_3r low d
     else if test2R low then
       switch (bit_at low 4)
         [(0, DECODE_RUS GETR_rus low d),
          (1, DECODE_2R INCT_2r low d)] d
     else if test1R low then
       switch (bit_at low 4)
         [(0, DECODE_1R CLRPT_1r low d),
          (1, DECODE_1R SYNCR_1r low d)] d
     else Some d)"

definition case_0x11 :: "u32 \<Rightarrow> NodeType \<Rightarrow> decoded \<Rightarrow> decoded option" where
  "case_0x11 low ty d = (
     if test3R low then DECODE_3R LD8U_3r low d
     else if test2R low then
       switch (bit_at low 4)
         [(0, DECODE_2R NOT_2r low d),
          (1, DECODE_2R INT_2r low d)] d
     else if test1R low \<and> ty = XS2_A then
       switch (bit_at low 4)
         [(0, DECODE_1R GETTIME_1r low d),
          (1, DECODE_1R ELATE_1r low d)] d
     else Some d)"

definition case_0x12 :: "u32 \<Rightarrow> decoded \<Rightarrow> decoded option" where
  "case_0x12 low d = (
     if test3R low then DECODE_2RUS ADD_2rus low d
     else if test2R low then
       switch (bit_at low 4)
         [(0, DECODE_2R NEG_2r low d),
          (1, DECODE_2R ENDIN_2r low d)] d
     else Some d)"

definition case_0x13 :: "u32 \<Rightarrow> decoded \<Rightarrow> decoded option" where
  "case_0x13 low d = (if test3R low then DECODE_2RUS SUB_2rus low d else Some d)"

definition case_0x14 :: "u32 \<Rightarrow> decoded \<Rightarrow> decoded option" where
  "case_0x14 low d = (
     if test3R low then then_bitp 2 (DECODE_2RUS SHL_2rus low d)
     else if test2R low then
       switch (bit_at low 4)
         [(0, DECODE_2R MKMSK_2r low d),
          (1, then_bitp 1 (DECODE_RUS MKMSK_rus low d))] d
     else Some d)"

definition case_0x15 :: "u32 \<Rightarrow> decoded \<Rightarrow> decoded option" where
  "case_0x15 low d = (
     if test3R low then then_bitp 2 (DECODE_2RUS SHR_2rus low d)
     else if test2R low then
       switch (bit_at low 4)
         [(0, DECODE_2R OUT_2r low d),
          (1, DECODE_2R OUTSHR_2r low d)] d
     else Some d)"

definition case_0x16 :: "u32 \<Rightarrow> decoded \<Rightarrow> decoded option" where
  "case_0x16 low d = (
     if test3R low then DECODE_2RUS EQ_2rus low d
     else if test2R low then
       switch (bit_at low 4)
         [(0, DECODE_2R IN_2r low d),
          (1, DECODE_2R INSHR_2r low d)] d
     else Some d)"

definition case_0x17 :: "u32 \<Rightarrow> NodeType \<Rightarrow> decoded \<Rightarrow> decoded option" where
  "case_0x17 low ty d = (
     if test3R low \<and> ty \<noteq> XS2_A then DECODE_3R TSETR_3r low d
     else if test2R low then
       switch (bit_at low 4)
         [(0, DECODE_2R PEEK_2r low d),
          (1, DECODE_2R TESTCT_2r low d)] d
     else Some d)"

definition case_0x18 :: "u32 \<Rightarrow> decoded \<Rightarrow> decoded option" where
  "case_0x18 low d = (
     if test3R low then DECODE_3R LSS_3r low d
     else if test2R low then
       switch (bit_at low 4)
         [(0, DECODE_2R SETPSC_2r low d),
          (1, DECODE_2R TESTWCT_2r low d)] d
     else Some d)"

definition case_0x19 :: "u32 \<Rightarrow> decoded \<Rightarrow> decoded option" where
  "case_0x19 low d = (
     if test3R low then DECODE_3R LSU_3r low d
     else if test2R low then
       switch (bit_at low 4)
         [(0, DECODE_2R CHKCT_2r low d),
          (1, DECODE_RUS CHKCT_rus low d)] d
     else Some d)"

definition case_0x1a :: "u32 \<Rightarrow> decoded \<Rightarrow> decoded option" where
  "case_0x1a low d = (
     if bit_at low 10 \<noteq> 0 then DECODE_U10 BLRB_u10 low d else DECODE_U10 BLRF_u10 low d)"

definition case_0x1b :: "u32 \<Rightarrow> decoded \<Rightarrow> decoded option" where
  "case_0x1b low d = (
     if bit_at low 10 \<noteq> 0 then DECODE_U10 LDAPB_u10 low d else DECODE_U10 LDAPF_u10 low d)"

definition case_0x1c :: "u32 \<Rightarrow> decoded \<Rightarrow> decoded option" where
  "case_0x1c low d = (
     if bit_at low 10 \<noteq> 0 then DECODE_U10 LDWCPL_u10 low d else DECODE_U10 BLACP_u10 low d)"

definition case_0x1d :: "u32 \<Rightarrow> decoded \<Rightarrow> decoded option" where
  "case_0x1d low d = (
     if testRU6 low then
       if bit_at low 10 = 0 then DECODE_RU6 SETC_ru6 low d else Some d
     else Some d)"

subsection \<open>Long instructions with an immediate extended by a prefix\<close>

definition PFIX_lru6 :: "op_lru6 \<Rightarrow> op_lru6 \<Rightarrow> u32 \<Rightarrow> u32 \<Rightarrow> decoded \<Rightarrow> decoded option" where
  "PFIX_lru6 inst0 inst1 high low d = (
     if testLRU6_2 high low then
       switch (bit_at high 10)
         [(0, DECODE_LRU6 inst0 high low d),
          (1, DECODE_LRU6 inst1 high low d)] d
     else Some d)"

definition PFIX_0x0e :: "u32 \<Rightarrow> u32 \<Rightarrow> NodeType \<Rightarrow> decoded \<Rightarrow> decoded option" where
  "PFIX_0x0e high low ty d = (
     if testLRU6 high low then
       switch (bit_at high 10)
         [(0, DECODE_LRU6 BRFT_lru6 high low d),
          (1, DECODE_LRU6 BRBT_lru6 high low d)] d
     else
       switch (bitRange high 10 6)
         [(0x0c, DECODE_LU6 BRFU_lu6 high low d),
          (0x0d, DECODE_LU6 BLAT_lu6 high low d),
          (0x0e, DECODE_LU6 EXTDP_lu6 high low d),
          (0x0f, DECODE_LU6 KCALL_lu6 high low d),
          (0x1c, DECODE_LU6 BRBU_lu6 high low d),
          (0x1d, DECODE_LU6 ENTSP_lu6 high low d),
          (0x1e, DECODE_LU6 EXTSP_lu6 high low d),
          (0x1f, if ty = XS2_A then DECODE_LU6 RETSP_xs2a_lu6 high low d
                 else DECODE_LU6 RETSP_lu6 high low d)] d)"

definition PFIX_0x0f :: "u32 \<Rightarrow> u32 \<Rightarrow> NodeType \<Rightarrow> decoded \<Rightarrow> decoded option" where
  "PFIX_0x0f high low ty d = (
     if testLRU6 high low then
       switch (bit_at high 10)
         [(0, DECODE_LRU6 BRFF_lru6 high low d),
          (1, DECODE_LRU6 BRBF_lru6 high low d)] d
     else
       switch (bitRange high 10 6)
         [(0x0c, DECODE_LU6 CLRSR_lu6 high low d),
          (0x0d, DECODE_LU6 SETSR_lu6 high low d),
          (0x0e, DECODE_LU6 KENTSP_lu6 high low d),
          (0x0f, DECODE_LU6 KRESTSP_lu6 high low d),
          (0x1c, DECODE_LU6 GETSR_lu6 high low d),
          (0x1d, DECODE_LU6 LDAWCP_lu6 high low d),
          (0x1e, if ty = XS2_A then DECODE_LU6 DUALENTSP_lu6 high low d else Some d)] d)"

definition PFIX_lu10 :: "op_lu10 \<Rightarrow> op_lu10 \<Rightarrow> u32 \<Rightarrow> u32 \<Rightarrow> decoded \<Rightarrow> decoded option" where
  "PFIX_lu10 inst1 inst0 high low d = (
     if bit_at high 10 \<noteq> 0 then DECODE_LU10 inst1 high low d else DECODE_LU10 inst0 high low d)"

definition case_PFIX :: "u32 \<Rightarrow> u32 \<Rightarrow> bool \<Rightarrow> NodeType \<Rightarrow> decoded \<Rightarrow> decoded option" where
  "case_PFIX low high highValid ty d = (
     if \<not> highValid then Some (Fpseudo ILLEGAL_PC, snd d)
     else
       switch (bitRange high 15 11)
         [(0x0a, PFIX_lru6 STWDP_lru6 STWSP_lru6 high low d),
          (0x0b, PFIX_lru6 LDWDP_lru6 LDWSP_lru6 high low d),
          (0x0c, PFIX_lru6 LDAWDP_lru6 LDAWSP_lru6 high low d),
          (0x0d, PFIX_lru6 LDC_lru6 LDWCP_lru6 high low d),
          (0x0e, PFIX_0x0e high low ty d),
          (0x0f, PFIX_0x0f high low ty d),
          (0x1a, PFIX_lu10 BLRB_lu10 BLRF_lu10 high low d),
          (0x1b, PFIX_lu10 LDAPB_lu10 LDAPF_lu10 high low d),
          (0x1c, PFIX_lu10 LDWCPL_lu10 BLACP_lu10 high low d),
          (0x1d, if testLRU6 high low then
                   if bit_at high 10 = 0 then DECODE_LRU6 SETC_lru6 high low d else Some d
                 else Some d)] d)"

subsection \<open>Long instructions with more operands\<close>

text \<open>The selector \<open>(bit(low, 4) << 4) | bitRange(high, 3, 0)\<close> of the \<open>l2r\<close> formats.\<close>

definition l2r_select :: "u32 \<Rightarrow> u32 \<Rightarrow> u32" where
  "l2r_select high low = push_bit 4 (bit_at low 4) OR bitRange high 3 0"

definition EOPR_0x00 :: "u32 \<Rightarrow> u32 \<Rightarrow> NodeType \<Rightarrow> decoded \<Rightarrow> decoded option" where
  "EOPR_0x00 high low ty d = (
     if testL6R high low then DECODE_L6R LMUL_l6r high low d
     else if testL5R high low then
       if bit_at high 4 \<noteq> 0 then DECODE_L5R (Fl5r LADD_l5r) high low d
       else DECODE_L5R (Fl5r LDIVU_l5r) high low d
     else if testL4R high low then
       switch (bitRange high 10 4)
         [(0x7e, DECODE_L4R CRC8_l4r high low d),
          (0x7f, DECODE_L4R MACCU_l4r high low d)] d
     else if testL3R high low then
       switch (bitRange high 3 0)
         [(0xc, DECODE_L3R STW_l3r high low d)] d
     else if testL2R high low then
       switch (l2r_select high low)
         [(0x0c, if ty = XS2_A then DECODE_L2R TINITSP_l2r high low d
                 else DECODE_L2R BITREV_l2r high low d),
          (0x1c, if ty = XS2_A then DECODE_L2R TINITPC_l2r high low d
                 else DECODE_L2R BYTEREV_l2r high low d)] d
     else DECODE_L0R KRET_l0r d)"

text \<open>
  Here the test for \<open>l5r\<close> is a statement of its own: what follows runs on the
  result of the first statement.
\<close>

definition EOPR_0x01 :: "u32 \<Rightarrow> u32 \<Rightarrow> NodeType \<Rightarrow> decoded \<Rightarrow> decoded option" where
  "EOPR_0x01 high low ty d0 = do {
     d \<leftarrow> (if testL5R high low then
             if bit_at high 4 \<noteq> 0 then
               if ty = XS2_A then DECODE_L5R (Fl5r XOR4_l5r) high low d0 else Some d0
             else DECODE_L5R (Fl5r LSUB_l5r) high low d0
           else Some d0);
     if testL4R high low then
       switch (bitRange high 10 4)
         [(0x7e, DECODE_L4R MACCS_l4r high low d),
          (0x7f, if ty = XS2_A then DECODE_L4R CRCN_l4r high low d else Some d)] d
     else if testL3R high low then
       switch (bitRange high 3 0)
         [(0xc, DECODE_L3R XOR_l3r high low d)] d
     else if testL2R high low then
       switch (l2r_select high low)
         [(0x0c, if ty = XS2_A then Some d else DECODE_L2R CLZ_l2r high low d),
          (0x1c, DECODE_L2R SETCLK_l2r high low d)] d
     else Some d
   }"

definition EOPR_0x02 :: "u32 \<Rightarrow> u32 \<Rightarrow> NodeType \<Rightarrow> decoded \<Rightarrow> decoded option" where
  "EOPR_0x02 high low ty d = (
     if testL4R high low then
       if ty = XS2_A then
         switch (bit_at high 4)
           [(0, DECODE_L4R STD_l4r high low d),
            (1, DECODE_L3RUS STD_l3rus high low d)] d
       else Some d
     else if testL3R high low then
       switch (bitRange high 3 0)
         [(0xc, DECODE_L3R ASHR_l3r high low d)] d
     else if testL2R high low then
       switch (l2r_select high low)
         [(0x0c, DECODE_L2R TINITLR_l2r high low d),
          (0x1c, DECODE_L2R GETPS_l2r high low d)] d
     else Some d)"

definition EOPR_0x03 :: "u32 \<Rightarrow> u32 \<Rightarrow> NodeType \<Rightarrow> decoded \<Rightarrow> decoded option" where
  "EOPR_0x03 high low ty d = (
     if testL5R high low \<and> ty = XS2_A then
       switch (bit_at high 4)
         [(0, DECODE_L5R (Fl4rus LEXTRACT_l4rus) high low d),
          (1, Some d)] d
     else if testL3R high low then
       switch (bitRange high 3 0)
         [(0xc, DECODE_L3R LDAWF_l3r high low d)] d
     else if testL2R high low then
       switch (l2r_select high low)
         [(0x0c, DECODE_L2R SETPS_l2r high low d),
          (0x1c, DECODE_L2R GETD_l2r high low d)] d
     else Some d)"

definition EOPR_0x04 :: "u32 \<Rightarrow> u32 \<Rightarrow> NodeType \<Rightarrow> decoded \<Rightarrow> decoded option" where
  "EOPR_0x04 high low ty d = (
     if testL4R high low \<and> ty = XS2_A then
       switch (bit_at high 4)
         [(0, DECODE_L4R LDD_l4r high low d),
          (1, DECODE_L3RUS LDD_l3rus high low d)] d
     else if testL3R high low then
       switch (bitRange high 3 0)
         [(0xc, DECODE_L3R LDAWB_l3r high low d)] d
     else if testL2R high low then
       switch (l2r_select high low)
         [(0x0c, DECODE_L2R TESTLCL_l2r high low d),
          (0x1c, DECODE_L2R SETTW_l2r high low d)] d
     else Some d)"

definition EOPR_0x05 :: "u32 \<Rightarrow> u32 \<Rightarrow> decoded \<Rightarrow> decoded option" where
  "EOPR_0x05 high low d = (
     if testL3R high low then
       switch (bitRange high 3 0)
         [(0xc, DECODE_L3R LDA16F_l3r high low d)] d
     else if testL2R high low then
       switch (l2r_select high low)
         [(0x0c, DECODE_L2R SETRDY_l2r high low d),
          (0x1c, DECODE_L2R SETC_l2r high low d)] d
     else Some d)"

definition EOPR_0x06 :: "u32 \<Rightarrow> u32 \<Rightarrow> decoded \<Rightarrow> decoded option" where
  "EOPR_0x06 high low d = (
     if testL3R high low then
       switch (bitRange high 3 0)
         [(0xc, DECODE_L3R LDA16B_l3r high low d)] d
     else if testL2R high low then
       switch (l2r_select high low)
         [(0x0c, DECODE_L2R SETN_l2r high low d),
          (0x1c, DECODE_L2R GETN_l2r high low d)] d
     else Some d)"

text \<open>The cases \<open>0x07\<close> to \<open>0x11\<close>, \<open>0x15\<close>, \<open>0x18\<close> and \<open>0x19\<close> differ in the instruction only.\<close>

definition EOPR_l3r :: "op_l3r \<Rightarrow> u32 \<Rightarrow> u32 \<Rightarrow> decoded \<Rightarrow> decoded option" where
  "EOPR_l3r inst high low d = (
     if testL3R high low then
       switch (bitRange high 3 0) [(0xc, DECODE_L3R inst high low d)] d
     else Some d)"

definition EOPR_0x12 :: "u32 \<Rightarrow> u32 \<Rightarrow> decoded \<Rightarrow> decoded option" where
  "EOPR_0x12 high low d = (
     if testL3R high low then
       switch (bitRange high 3 0)
         [(0xc, then_bitp 2 (DECODE_L2RUS ASHR_l2rus high low d)),
          (0xd, then_bitp 2 (DECODE_L2RUS OUTPW_l2rus high low d)),
          (0xe, then_bitp 2 (DECODE_L2RUS INPW_l2rus high low d))] d
     else Some d)"

definition EOPR_0x13 :: "u32 \<Rightarrow> u32 \<Rightarrow> NodeType \<Rightarrow> decoded \<Rightarrow> decoded option" where
  "EOPR_0x13 high low ty d = (
     if testL3R high low then
       switch (bitRange high 3 0)
         [(0xc, DECODE_L2RUS LDAWF_l2rus high low d),
          (0xd, if ty = XS2_A then DECODE_L2RUS UNZIP_l2rus high low d else Some d),
          (0xe, if ty = XS2_A then DECODE_L2RUS ZIP_l2rus high low d else Some d)] d
     else Some d)"

definition EOPR_0x14 :: "u32 \<Rightarrow> u32 \<Rightarrow> decoded \<Rightarrow> decoded option" where
  "EOPR_0x14 high low d = (
     if testL3R high low then
       switch (bitRange high 3 0) [(0xc, DECODE_L2RUS LDAWB_l2rus high low d)] d
     else Some d)"

definition case_EOPR :: "u32 \<Rightarrow> u32 \<Rightarrow> bool \<Rightarrow> NodeType \<Rightarrow> decoded \<Rightarrow> decoded option" where
  "case_EOPR low high highValid ty d = (
     if \<not> highValid then Some (Fpseudo ILLEGAL_PC, snd d)
     else
       switch (bitRange high 15 11)
         [(0x00, EOPR_0x00 high low ty d),
          (0x01, EOPR_0x01 high low ty d),
          (0x02, EOPR_0x02 high low ty d),
          (0x03, EOPR_0x03 high low ty d),
          (0x04, EOPR_0x04 high low ty d),
          (0x05, EOPR_0x05 high low d),
          (0x06, EOPR_0x06 high low d),
          (0x07, EOPR_l3r MUL_l3r high low d),
          (0x08, EOPR_l3r DIVS_l3r high low d),
          (0x09, EOPR_l3r DIVU_l3r high low d),
          (0x10, EOPR_l3r ST16_l3r high low d),
          (0x11, EOPR_l3r ST8_l3r high low d),
          (0x12, EOPR_0x12 high low d),
          (0x13, EOPR_0x13 high low ty d),
          (0x14, EOPR_0x14 high low d),
          (0x15, EOPR_l3r CRC_l3r high low d),
          (0x16, if ty = XS2_A then DECODE_L3R TSETR_l3r high low d else Some d),
          (0x18, EOPR_l3r REMS_l3r high low d),
          (0x19, EOPR_l3r REMU_l3r high low d),
          (0x1c, if testL3R high low then DECODE_L3R LSATS_l3r high low d else Some d),
          (0x1d, if testL3R high low then DECODE_L2RUS LDDSP_l2rus high low d else Some d),
          (0x1e, if testL3R high low then DECODE_L2RUS STDSP_l2rus high low d else Some d)] d)"

text \<open>
  The entry point on two half-words.  The case \<open>PFIX\<close> falls through to
  \<open>EOPR\<close> when bit 10 is set.
\<close>

definition instructionDecode ::
  "u16 \<Rightarrow> u16 \<Rightarrow> bool \<Rightarrow> NodeType \<Rightarrow> decoded \<Rightarrow> decoded option" where
  "instructionDecode low16 high16 highValid ty d = (
     let low = ucast low16; high = ucast high16 in
     switch (bitRange low 15 11)
       [(0x00, case_0x00 low ty d),
        (0x01, case_0x01 low ty d),
        (0x02, case_0x02 low ty d),
        (0x03, case_0x03 low ty d),
        (0x04, case_0x04 low d),
        (0x05, case_0x05 low d),
        (0x06, case_0x06 low d),
        (0x07, case_0x07 low d),
        (0x08, case_0x08 low d),
        (0x09, case_0x09 low d),
        (0x0a, case_0x0a low d),
        (0x0b, case_0x0b low d),
        (0x0c, case_0x0c low d),
        (0x0d, case_0x0d low d),
        (0x0e, case_0x0e low ty d),
        (0x0f, case_0x0f low ty d),
        (0x10, case_0x10 low d),
        (0x11, case_0x11 low ty d),
        (0x12, case_0x12 low d),
        (0x13, case_0x13 low d),
        (0x14, case_0x14 low d),
        (0x15, case_0x15 low d),
        (0x16, case_0x16 low d),
        (0x17, case_0x17 low ty d),
        (0x18, case_0x18 low d),
        (0x19, case_0x19 low d),
        (0x1a, case_0x1a low d),
        (0x1b, case_0x1b low d),
        (0x1c, case_0x1c low d),
        (0x1d, case_0x1d low d),
        (0x1e, if bit_at low 10 = 0 then case_PFIX low high highValid ty d
               else case_EOPR low high highValid ty d),
        (0x1f, case_EOPR low high highValid ty d)] d)"

end
