(* ===== verification/DecodeCache.thy ===== *)
theory DecodeCache
  imports Decode
begin

text \<open>
  The class \<open>DecodeCache\<close> of \<open>DecodeCache.h\<close> and \<open>DecodeCache.cpp\<close>: for
  every half-word of a memory the instruction function and the operands of
  the instruction that starts there, or the pseudo instruction \<open>DECODE\<close>.

  An instruction function is an instance of the template \<open>Instruction_X\<close>,
  so it is the opcode \<open>X\<close> with the template argument \<open>tracing\<close>.  The array
  \<open>invalidationInfo\<close> is null for a cache that is not writable.
\<close>

datatype invalidation = INVALIDATE_NONE | INVALIDATE_CURRENT | INVALIDATE_CURRENT_AND_PREVIOUS

type_synonym inst_function = "InstructionOpcode \<times> bool"

definition getInstruction_DECODE :: "bool \<Rightarrow> inst_function" where
  "getInstruction_DECODE tracing = (Fpseudo DECODE, tracing)"

definition getInstruction_ILLEGAL_PC :: "bool \<Rightarrow> inst_function" where
  "getInstruction_ILLEGAL_PC tracing = (Fpseudo ILLEGAL_PC, tracing)"

definition getInstruction_ILLEGAL_PC_THREAD :: "bool \<Rightarrow> inst_function" where
  "getInstruction_ILLEGAL_PC_THREAD tracing = (Fpseudo ILLEGAL_PC_THREAD, tracing)"

definition getInstruction_RUN_JIT :: "bool \<Rightarrow> inst_function" where
  "getInstruction_RUN_JIT tracing = (Fpseudo RUN_JIT, tracing)"

definition getInstruction_INTERPRET_ONE :: "bool \<Rightarrow> inst_function" where
  "getInstruction_INTERPRET_ONE tracing = (Fpseudo INTERPRET_ONE, tracing)"

record dcache =
  dc_opcode :: "inst_function list"
  dc_operands :: "operands list"
  dc_executionFrequency :: "int list"
  dc_invalidationInfo :: "invalidation list option"
  dc_size :: u32
  dc_base :: u32
  dc_tracingEnabled :: bool

definition RUN_JIT_ADDR_OFFSET :: u32 where "RUN_JIT_ADDR_OFFSET = 2"
definition INTERPRET_ONE_ADDR_OFFSET :: u32 where "INTERPRET_ONE_ADDR_OFFSET = 3"
definition ILLEGAL_PC_THREAD_ADDR_OFFSET :: u32 where "ILLEGAL_PC_THREAD_ADDR_OFFSET = 4"

definition setBase :: "u32 \<Rightarrow> dcache \<Rightarrow> dcache" where
  "setBase value dc = dc\<lparr>dc_base := value\<rparr>"

definition dc_getRunJitAddr :: "dcache \<Rightarrow> u32" where
  "dc_getRunJitAddr dc = (dc_size dc - 1) + RUN_JIT_ADDR_OFFSET"

definition dc_getInterpretOneAddr :: "dcache \<Rightarrow> u32" where
  "dc_getInterpretOneAddr dc = (dc_size dc - 1) + INTERPRET_ONE_ADDR_OFFSET"

definition dc_getIllegalPCThreadAddr :: "dcache \<Rightarrow> u32" where
  "dc_getIllegalPCThreadAddr dc = (dc_size dc - 1) + ILLEGAL_PC_THREAD_ADDR_OFFSET"

definition dc_contains :: "dcache \<Rightarrow> u32 \<Rightarrow> bool" where
  "dc_contains dc address \<longleftrightarrow> drop_bit 1 (address - dc_base dc) < dc_size dc"

definition isValidPc :: "dcache \<Rightarrow> u32 \<Rightarrow> bool" where
  "isValidPc dc pc \<longleftrightarrow> pc < dc_size dc"

definition toPc :: "dcache \<Rightarrow> u32 \<Rightarrow> u32" where
  "toPc dc address = drop_bit 1 (address - dc_base dc)"

definition fromPc :: "dcache \<Rightarrow> u32 \<Rightarrow> u32" where
  "fromPc dc address = push_bit 1 address + dc_base dc"

definition dc_clearOpcode :: "u32 \<Rightarrow> dcache \<Rightarrow> dcache option" where
  "dc_clearOpcode pc dc = do {
     opcs \<leftarrow> array_set (dc_opcode dc) (unat pc) (getInstruction_DECODE (dc_tracingEnabled dc));
     Some (dc\<lparr>dc_opcode := opcs\<rparr>)
   }"

text \<open>The loop of \<open>setOpcode\<close> over the further half-words of the instruction.\<close>

fun mark_rest :: "nat \<Rightarrow> nat \<Rightarrow> invalidation list \<Rightarrow> invalidation list option" where
  "mark_rest pc 0 info = Some info"
| "mark_rest pc (Suc n) info = do {
     info \<leftarrow> array_set info pc INVALIDATE_CURRENT_AND_PREVIOUS;
     mark_rest (pc + 1) n info
   }"

definition setOpcode_size :: "u32 \<Rightarrow> inst_function \<Rightarrow> nat \<Rightarrow> dcache \<Rightarrow> dcache option" where
  "setOpcode_size pc opc size0 dc = do {
     opcs \<leftarrow> array_set (dc_opcode dc) (unat pc) opc;
     let dc = dc\<lparr>dc_opcode := opcs\<rparr>;
     (case dc_invalidationInfo dc of
        None \<Rightarrow> Some dc
      | Some info \<Rightarrow> do {
          cur \<leftarrow> array_get info (unat pc);
          info \<leftarrow> (if cur = INVALIDATE_NONE then array_set info (unat pc) INVALIDATE_CURRENT
                   else Some info);
          assert_that (size0 mod 2 = 0);
          info \<leftarrow> mark_rest (unat pc + 1) (size0 div 2 - 1) info;
          Some (dc\<lparr>dc_invalidationInfo := Some info\<rparr>)
        })
   }"

definition setOpcode :: "u32 \<Rightarrow> inst_function \<Rightarrow> operands \<Rightarrow> nat \<Rightarrow> dcache \<Rightarrow> dcache option" where
  "setOpcode pc opc ops size0 dc = do {
     dc \<leftarrow> setOpcode_size pc opc size0 dc;
     opss \<leftarrow> array_set (dc_operands dc) (unat pc) ops;
     Some (dc\<lparr>dc_operands := opss\<rparr>)
   }"

text \<open>
  \<open>initCache\<close> fills the part of the opcode array that mirrors the memory and
  the four entries behind it.
\<close>

definition initCache :: "dcache \<Rightarrow> dcache" where
  "initCache dc = dc\<lparr>dc_opcode :=
     replicate (unat (dc_size dc)) (getInstruction_DECODE (dc_tracingEnabled dc))
     @ [getInstruction_ILLEGAL_PC (dc_tracingEnabled dc),
        getInstruction_RUN_JIT (dc_tracingEnabled dc),
        getInstruction_INTERPRET_ONE (dc_tracingEnabled dc),
        getInstruction_ILLEGAL_PC_THREAD (dc_tracingEnabled dc)]\<rparr>"

text \<open>The constructor; \<open>operands0\<close> stands for the uninitialised operands.\<close>

definition dc_new :: "operands \<Rightarrow> u32 \<Rightarrow> u32 \<Rightarrow> bool \<Rightarrow> bool \<Rightarrow> dcache" where
  "dc_new operands0 sz b writable tracing = initCache
     \<lparr>dc_opcode = [],
      dc_operands = replicate (unat sz) operands0,
      dc_executionFrequency = replicate (unat sz) 0,
      dc_invalidationInfo = (if writable then Some (replicate (unat sz) INVALIDATE_NONE) else None),
      dc_size = sz,
      dc_base = b,
      dc_tracingEnabled = tracing\<rparr>"

definition setTracing :: "bool \<Rightarrow> dcache \<Rightarrow> dcache" where
  "setTracing enabled dc = dc\<lparr>dc_tracingEnabled := enabled\<rparr>"

end
