(* ===== verification/Core.thy ===== *)
theory Core
  imports DecodeCache
begin

text \<open>
  The memory side of the class \<open>Core\<close> (\<open>Core.h\<close>, \<open>Core.cpp\<close>): RAM, boot
  ROM, the RAM decode cache and its invalidation, breakpoints, watchpoints
  (\<open>WatchpointManager.h\<close>) and the processor state registers.

  The build without LLVM is modelled: there \<open>JIT::invalidate\<close> returns
  \<open>false\<close> and \<open>JIT::compileBlock\<close> does nothing (\<open>JIT.cpp\<close>, the class
  \<open>JITImpl\<close> after \<open>#else\<close>).  The pointers \<open>memoryOffset\<close> and
  \<open>invalidationInfoOffset\<close> are the arrays displaced by the RAM base, so an
  access through them has the index address minus base.  The field
  \<open>nodeType\<close> is the type of the parent node; the ROM decode cache is owned
  by the system, so it is an argument.
\<close>

datatype WatchpointType = UNSET | READ | WRITE

record watchpoint =
  wp_type :: WatchpointType
  wp_begin :: u32
  wp_end :: u32

record core =
  memory :: "u8 list"
  ramDecodeCache :: dcache
  ramSizeLog2 :: nat
  ramBaseMultiple :: u32
  coreNumber :: u32
  nodeType :: NodeType
  bootModePins :: u32
  bootStatus :: u32
  rom :: "u8 list"
  romBase :: u32
  romSize :: u32
  breakpoints :: "u32 set"
  watchpoints :: "watchpoint set"
  vector_base :: u32
  jitEnabled :: bool

definition getRamSizeShorts :: "core \<Rightarrow> u32" where
  "getRamSizeShorts c = push_bit (ramSizeLog2 c - 1) 1"

definition getRamSize :: "core \<Rightarrow> u32" where
  "getRamSize c = push_bit (ramSizeLog2 c) 1"

definition getRamBase :: "core \<Rightarrow> u32" where
  "getRamBase c = getRamSize c * ramBaseMultiple c"

definition isValidRamAddress :: "core \<Rightarrow> u32 \<Rightarrow> bool" where
  "isValidRamAddress c address \<longleftrightarrow> drop_bit (ramSizeLog2 c) address = ramBaseMultiple c"

definition isValidRomAddress :: "core \<Rightarrow> u32 \<Rightarrow> bool" where
  "isValidRomAddress c address \<longleftrightarrow> address - romBase c < romSize c"

definition isValidAddress :: "core \<Rightarrow> u32 \<Rightarrow> bool" where
  "isValidAddress c address \<longleftrightarrow> isValidRamAddress c address \<or> isValidRomAddress c address"

definition isBreakpointAddress :: "core \<Rightarrow> u32 \<Rightarrow> bool" where
  "isBreakpointAddress c value \<longleftrightarrow> value \<in> breakpoints c"

definition isValidRamPc :: "core \<Rightarrow> u32 \<Rightarrow> bool" where
  "isValidRamPc c address \<longleftrightarrow> isValidPc (ramDecodeCache c) address"

definition fromRamPc :: "core \<Rightarrow> u32 \<Rightarrow> u32" where
  "fromRamPc c pc = fromPc (ramDecodeCache c) pc"

definition toRamPc :: "core \<Rightarrow> u32 \<Rightarrow> u32" where
  "toRamPc c address = toPc (ramDecodeCache c) address"

definition getRunJitAddr :: "core \<Rightarrow> u32" where
  "getRunJitAddr c = (getRamSizeShorts c - 1) + RUN_JIT_ADDR_OFFSET"

definition getInterpretOneAddr :: "core \<Rightarrow> u32" where
  "getInterpretOneAddr c = (getRamSizeShorts c - 1) + INTERPRET_ONE_ADDR_OFFSET"

definition getIllegalPCThreadAddr :: "core \<Rightarrow> u32" where
  "getIllegalPCThreadAddr c = (getRamSizeShorts c - 1) + ILLEGAL_PC_THREAD_ADDR_OFFSET"

subsection \<open>Memory\<close>

definition ram_index :: "core \<Rightarrow> u32 \<Rightarrow> nat option" where
  "ram_index c address =
     (if getRamBase c \<le> address then Some (unat address - unat (getRamBase c)) else None)"

text \<open>Bytes \<open>i\<close> to \<open>i + n - 1\<close> of an array.\<close>

definition array_slice :: "u8 list \<Rightarrow> nat \<Rightarrow> nat \<Rightarrow> u8 list option" where
  "array_slice xs i n = (if i + n \<le> length xs then Some (take n (drop i xs)) else None)"

definition array_write :: "u8 list \<Rightarrow> nat \<Rightarrow> u8 list \<Rightarrow> u8 list option" where
  "array_write xs i bs =
     (if i + length bs \<le> length xs then Some (take i xs @ bs @ drop (i + length bs) xs) else None)"

definition loadRomWord :: "core \<Rightarrow> u32 \<Rightarrow> u32 option" where
  "loadRomWord c address = do {
     bs \<leftarrow> array_slice (rom c) (unat (address - romBase c)) 4;
     Some (read32le True bs)
   }"

definition loadRomShort :: "core \<Rightarrow> u32 \<Rightarrow> u16 option" where
  "loadRomShort c address = do {
     bs \<leftarrow> array_slice (rom c) (unat (address - romBase c)) 2;
     Some (read16le True bs)
   }"

definition loadRomByte :: "core \<Rightarrow> u32 \<Rightarrow> u8 option" where
  "loadRomByte c address = array_get (rom c) (unat (address - romBase c))"

definition loadRamWord :: "core \<Rightarrow> u32 \<Rightarrow> u32 option" where
  "loadRamWord c address = do {
     i \<leftarrow> ram_index c address;
     bs \<leftarrow> array_slice (memory c) i 4;
     Some (read32le True bs)
   }"

definition loadRamShort :: "core \<Rightarrow> u32 \<Rightarrow> u16 option" where
  "loadRamShort c address = do {
     i \<leftarrow> ram_index c address;
     bs \<leftarrow> array_slice (memory c) i 2;
     Some (read16le True bs)
   }"

definition loadRamByte :: "core \<Rightarrow> u32 \<Rightarrow> u8 option" where
  "loadRamByte c address = do {
     i \<leftarrow> ram_index c address;
     array_get (memory c) i
   }"

definition loadByte :: "core \<Rightarrow> u32 \<Rightarrow> u8 option" where
  "loadByte c address =
     (if isValidRamAddress c address then loadRamByte c address else loadRomByte c address)"

definition loadShort :: "core \<Rightarrow> u32 \<Rightarrow> u16 option" where
  "loadShort c address =
     (if isValidRamAddress c address then loadRamShort c address else loadRomShort c address)"

definition store_bytes :: "u8 list \<Rightarrow> u32 \<Rightarrow> core \<Rightarrow> core option" where
  "store_bytes bs address c = do {
     i \<leftarrow> ram_index c address;
     m \<leftarrow> array_write (memory c) i bs;
     Some (c\<lparr>memory := m\<rparr>)
   }"

definition storeWord :: "u32 \<Rightarrow> u32 \<Rightarrow> core \<Rightarrow> core option" where
  "storeWord value address c = store_bytes (write32le True value) address c"

definition storeShort :: "u16 \<Rightarrow> u32 \<Rightarrow> core \<Rightarrow> core option" where
  "storeShort value address c = store_bytes (write16le True value) address c"

definition storeByte :: "u8 \<Rightarrow> u32 \<Rightarrow> core \<Rightarrow> core option" where
  "storeByte value address c = store_bytes [value] address c"

subsection \<open>Invalidation of the RAM decode cache\<close>

definition getDecodeCacheContaining :: "core \<Rightarrow> dcache \<Rightarrow> u32 \<Rightarrow> dcache option" where
  "getDecodeCacheContaining c romDecodeCache address =
     (if isValidRamAddress c address then Some (ramDecodeCache c)
      else if isValidRomAddress c address then Some romDecodeCache
      else None)"

definition info_index :: "core \<Rightarrow> u32 \<Rightarrow> nat option" where
  "info_index c shiftedAddress =
     (if getRamBase c div 2 \<le> shiftedAddress
      then Some (unat shiftedAddress - unat (getRamBase c div 2)) else None)"

definition get_info :: "core \<Rightarrow> nat \<Rightarrow> invalidation option" where
  "get_info c i = do {
     info \<leftarrow> dc_invalidationInfo (ramDecodeCache c);
     array_get info i
   }"

definition set_info :: "nat \<Rightarrow> invalidation \<Rightarrow> core \<Rightarrow> core option" where
  "set_info i v c = do {
     info \<leftarrow> dc_invalidationInfo (ramDecodeCache c);
     info \<leftarrow> array_set info i v;
     Some (c\<lparr>ramDecodeCache := (ramDecodeCache c)\<lparr>dc_invalidationInfo := Some info\<rparr>\<rparr>)
   }"

definition clearOpcode :: "u32 \<Rightarrow> core \<Rightarrow> core option" where
  "clearOpcode pc c = do {
     dc \<leftarrow> dc_clearOpcode pc (ramDecodeCache c);
     Some (c\<lparr>ramDecodeCache := dc\<rparr>)
   }"

definition clear_frequency :: "nat \<Rightarrow> core \<Rightarrow> core option" where
  "clear_frequency pc c = do {
     fs \<leftarrow> array_set (dc_executionFrequency (ramDecodeCache c)) pc 0;
     Some (c\<lparr>ramDecodeCache := (ramDecodeCache c)\<lparr>dc_executionFrequency := fs\<rparr>\<rparr>)
   }"

text \<open>
  The \<open>do\<close> loop of \<open>invalidateSlowPath\<close> at the array index of
  \<open>shiftedAddress\<close>, which is also the pc.  Going on below index 0 would
  leave the array.
\<close>

definition invalidate_entry :: "nat \<Rightarrow> core \<Rightarrow> (invalidation \<times> core) option" where
  "invalidate_entry i c = do {
     info \<leftarrow> get_info c i;
     c \<leftarrow> clearOpcode (of_nat i) c;
     c \<leftarrow> clear_frequency i c;
     c \<leftarrow> set_info i INVALIDATE_NONE c;
     Some (info, c)
   }"

fun invalidateSlowPath_at :: "nat \<Rightarrow> core \<Rightarrow> core option" where
  "invalidateSlowPath_at 0 c = do {
     (info, c) \<leftarrow> invalidate_entry 0 c;
     if info = INVALIDATE_CURRENT_AND_PREVIOUS then None else Some c
   }"
| "invalidateSlowPath_at (Suc i) c = do {
     (info, c) \<leftarrow> invalidate_entry (Suc i) c;
     if info = INVALIDATE_CURRENT_AND_PREVIOUS then invalidateSlowPath_at i c else Some c
   }"

definition invalidateSlowPath :: "u32 \<Rightarrow> core \<Rightarrow> core option" where
  "invalidateSlowPath shiftedAddress c = do {
     i \<leftarrow> info_index c shiftedAddress;
     invalidateSlowPath_at i c
   }"

definition invalidateWordSlowPath :: "u32 \<Rightarrow> core \<Rightarrow> core option" where
  "invalidateWordSlowPath shiftedAddress c = do {
     i \<leftarrow> info_index c (shiftedAddress + 1);
     info \<leftarrow> get_info c i;
     if info = INVALIDATE_NONE then invalidateSlowPath shiftedAddress c
     else do {
       c \<leftarrow> set_info i INVALIDATE_CURRENT_AND_PREVIOUS c;
       invalidateSlowPath (shiftedAddress + 1) c
     }
   }"

definition invalidateWordCheck :: "u32 \<Rightarrow> core \<Rightarrow> bool option" where
  "invalidateWordCheck address c = do {
     i \<leftarrow> info_index c (drop_bit 1 address);
     info0 \<leftarrow> get_info c i;
     info1 \<leftarrow> get_info c (i + 1);
     Some (\<not> (info0 = INVALIDATE_NONE \<and> info1 = INVALIDATE_NONE))
   }"

definition invalidateWord :: "u32 \<Rightarrow> core \<Rightarrow> (bool \<times> core) option" where
  "invalidateWord address c = do {
     hit \<leftarrow> invalidateWordCheck address c;
     if \<not> hit then Some (False, c)
     else do {
       c \<leftarrow> invalidateWordSlowPath (drop_bit 1 address) c;
       Some (True, c)
     }
   }"

definition invalidateDoubleCheck :: "u32 \<Rightarrow> core \<Rightarrow> bool option" where
  "invalidateDoubleCheck address c = do {
     i \<leftarrow> info_index c (drop_bit 1 address);
     info0 \<leftarrow> get_info c i;
     info1 \<leftarrow> get_info c (i + 1);
     Some (\<not> (info0 = INVALIDATE_NONE \<and> info1 = INVALIDATE_NONE))
   }"

definition invalidateShortCheck :: "u32 \<Rightarrow> core \<Rightarrow> bool option" where
  "invalidateShortCheck address c = do {
     i \<leftarrow> info_index c (drop_bit 1 address);
     info \<leftarrow> get_info c i;
     Some (info \<noteq> INVALIDATE_NONE)
   }"

definition invalidateShort :: "u32 \<Rightarrow> core \<Rightarrow> (bool \<times> core) option" where
  "invalidateShort address c = do {
     hit \<leftarrow> invalidateShortCheck address c;
     if \<not> hit then Some (False, c)
     else do {
       c \<leftarrow> invalidateSlowPath (drop_bit 1 address) c;
       Some (True, c)
     }
   }"

definition invalidateByteCheck :: "u32 \<Rightarrow> core \<Rightarrow> bool option" where
  "invalidateByteCheck address c = do {
     i \<leftarrow> info_index c (drop_bit 1 address);
     info \<leftarrow> get_info c i;
     Some (info \<noteq> INVALIDATE_NONE)
   }"

definition invalidateByte :: "u32 \<Rightarrow> core \<Rightarrow> (bool \<times> core) option" where
  "invalidateByte address c = do {
     hit \<leftarrow> invalidateByteCheck address c;
     if \<not> hit then Some (False, c)
     else do {
       c \<leftarrow> invalidateSlowPath (drop_bit 1 address) c;
       Some (True, c)
     }
   }"

text \<open>The three loops of \<open>invalidateRange\<close>: to alignment, by words, the rest.\<close>

partial_function (option) invalidate_unaligned ::
  "u32 \<Rightarrow> u32 \<Rightarrow> bool \<Rightarrow> core \<Rightarrow> (u32 \<times> bool \<times> core) option" where
  "invalidate_unaligned address end0 invalidated c =
     (if address mod 4 \<noteq> 0 \<and> address < end0 then
        Option.bind (invalidateByte address c) (\<lambda>(b, c).
          invalidate_unaligned (address + 1) end0 (invalidated \<or> b) c)
      else Some (address, invalidated, c))"

partial_function (option) invalidate_words ::
  "u32 \<Rightarrow> u32 \<Rightarrow> bool \<Rightarrow> core \<Rightarrow> (u32 \<times> bool \<times> core) option" where
  "invalidate_words address end0 invalidated c =
     (if address + 3 < end0 then
        Option.bind (invalidateWord address c) (\<lambda>(b, c).
          invalidate_words (address + 4) end0 (invalidated \<or> b) c)
      else Some (address, invalidated, c))"

partial_function (option) invalidate_bytes ::
  "u32 \<Rightarrow> u32 \<Rightarrow> bool \<Rightarrow> core \<Rightarrow> (bool \<times> core) option" where
  "invalidate_bytes address end0 invalidated c =
     (if address < end0 then
        Option.bind (invalidateByte address c) (\<lambda>(b, c).
          invalidate_bytes (address + 1) end0 (invalidated \<or> b) c)
      else Some (invalidated, c))"

declare invalidate_unaligned.simps [code] invalidate_words.simps [code] invalidate_bytes.simps [code]

definition invalidateRange :: "u32 \<Rightarrow> u32 \<Rightarrow> core \<Rightarrow> (bool \<times> core) option" where
  "invalidateRange begin0 end0 c = do {
     (address, invalidated, c) \<leftarrow> invalidate_unaligned begin0 end0 False c;
     (address, invalidated, c) \<leftarrow> invalidate_words address end0 invalidated c;
     invalidate_bytes address end0 invalidated c
   }"

partial_function (option) resetCaches_loop :: "u32 \<Rightarrow> u32 \<Rightarrow> core \<Rightarrow> core option" where
  "resetCaches_loop address ramEnd c =
     (if address < ramEnd then
        Option.bind (invalidateWord address c) (\<lambda>(b, c). resetCaches_loop (address + 4) ramEnd c)
      else Some c)"

declare resetCaches_loop.simps [code]

definition resetCaches :: "core \<Rightarrow> core option" where
  "resetCaches c = resetCaches_loop (getRamBase c) (getRamBase c + push_bit (ramSizeLog2 c) 1) c"

subsection \<open>Memory access of debuggers and loaders\<close>

text \<open>
  The result \<open>None\<close> inside is the value \<open>false\<close>.  The sums are
  computed at the width of \<open>size_t\<close>.
\<close>

definition readMemory :: "u32 \<Rightarrow> u64 \<Rightarrow> core \<Rightarrow> u8 list option option" where
  "readMemory address size0 c =
     (if size0 = 0 then Some (Some [])
      else let ramEnd = getRamBase c + getRamSize c in
        if address < getRamBase c \<or> ucast address + size0 \<ge> ucast ramEnd then Some None
        else do {
          i \<leftarrow> ram_index c address;
          bs \<leftarrow> array_slice (memory c) i (unat size0);
          Some (Some bs)
        })"

definition writeMemory :: "u32 \<Rightarrow> u8 list \<Rightarrow> core \<Rightarrow> (bool \<times> core) option" where
  "writeMemory address src c = (
     let size0 = of_nat (length src) :: u64 in
     if size0 = 0 then Some (True, c)
     else let ramEnd = getRamBase c + getRamSize c in
       if address < getRamBase c \<or> ucast address + size0 \<ge> ucast ramEnd then Some (False, c)
       else do {
         c \<leftarrow> store_bytes src address c;
         (b, c) \<leftarrow> invalidateRange address (ucast (ucast address + size0)) c;
         Some (True, c)
       })"

subsection \<open>Breakpoints, watchpoints and the decode mode\<close>

definition setBreakpoint :: "u32 \<Rightarrow> core \<Rightarrow> (bool \<times> core) option" where
  "setBreakpoint value c =
     (if value AND 1 \<noteq> 0 \<or> \<not> isValidAddress c value then Some (False, c)
      else if value \<notin> breakpoints c then do {
        (b, c) \<leftarrow> invalidateShort value (c\<lparr>breakpoints := insert value (breakpoints c)\<rparr>);
        Some (True, c)
      }
      else Some (True, c))"

definition unsetBreakpoint :: "u32 \<Rightarrow> core \<Rightarrow> core option" where
  "unsetBreakpoint value c =
     (if value \<in> breakpoints c then do {
        (b, c) \<leftarrow> invalidateShort value (c\<lparr>breakpoints := breakpoints c - {value}\<rparr>);
        Some c
      }
      else Some c)"

definition clearBreakpoints :: "core \<Rightarrow> core" where
  "clearBreakpoints c = c\<lparr>breakpoints := {}\<rparr>"

definition wp_setWatchpoint ::
  "WatchpointType \<Rightarrow> u32 \<Rightarrow> u32 \<Rightarrow> watchpoint set \<Rightarrow> watchpoint set" where
  "wp_setWatchpoint ty lowAddr highAddr ws =
     insert \<lparr>wp_type = ty, wp_begin = lowAddr, wp_end = highAddr\<rparr> ws"

definition wp_unsetWatchpoint ::
  "WatchpointType \<Rightarrow> u32 \<Rightarrow> u32 \<Rightarrow> watchpoint set \<Rightarrow> watchpoint set" where
  "wp_unsetWatchpoint ty lowAddr highAddr ws =
     ws - {\<lparr>wp_type = ty, wp_begin = lowAddr, wp_end = highAddr\<rparr>}"

definition isWatchpointAddress :: "WatchpointType \<Rightarrow> u32 \<Rightarrow> u8 \<Rightarrow> watchpoint set \<Rightarrow> bool" where
  "isWatchpointAddress t address ldst_size ws \<longleftrightarrow>
     (\<exists>w \<in> ws. t = wp_type w \<and> address + ucast ldst_size > wp_begin w \<and> address \<le> wp_end w)"

definition disableJIT :: "core \<Rightarrow> core option" where
  "disableJIT c = resetCaches
     (c\<lparr>jitEnabled := False, ramDecodeCache := setTracing True (ramDecodeCache c)\<rparr>)"

definition enableJIT :: "core \<Rightarrow> core option" where
  "enableJIT c = resetCaches
     (c\<lparr>jitEnabled := True, ramDecodeCache := setTracing False (ramDecodeCache c)\<rparr>)"

definition setWatchpoint :: "WatchpointType \<Rightarrow> u32 \<Rightarrow> u32 \<Rightarrow> core \<Rightarrow> (bool \<times> core) option" where
  "setWatchpoint ty lowAddress highAddress c =
     (if (lowAddress AND 1 \<noteq> 0 \<or> \<not> isValidAddress c lowAddress)
         \<or> (highAddress AND 1 \<noteq> 0 \<or> \<not> isValidAddress c highAddress) then Some (False, c)
      else do {
        c \<leftarrow> (if jitEnabled c then disableJIT c else Some c);
        Some (True, c\<lparr>watchpoints := wp_setWatchpoint ty lowAddress highAddress (watchpoints c)\<rparr>)
      })"

text \<open>\<open>tracer\<close> says whether the system has a tracer.\<close>

definition unsetWatchpoint :: "bool \<Rightarrow> WatchpointType \<Rightarrow> u32 \<Rightarrow> u32 \<Rightarrow> core \<Rightarrow> core option" where
  "unsetWatchpoint tracer ty lowAddress highAddress c = (
     let c = c\<lparr>watchpoints := wp_unsetWatchpoint ty lowAddress highAddress (watchpoints c)\<rparr> in
     if watchpoints c = {} \<and> \<not> tracer then enableJIT c else Some c)"

definition clearWatchpoints :: "core \<Rightarrow> core" where
  "clearWatchpoints c = c\<lparr>watchpoints := {}\<rparr>"

definition hitWatchpoint :: "WatchpointType \<Rightarrow> u32 \<Rightarrow> u8 \<Rightarrow> core \<Rightarrow> bool" where
  "hitWatchpoint t address ldst_size c = isWatchpointAddress t address ldst_size (watchpoints c)"

subsection \<open>Construction and processor state\<close>

text \<open>
  \<open>setRamBaseMultiple\<close> without the notification of the threads, which hold a
  copy of the state of the cache.
\<close>

definition setRamBaseMultiple :: "u32 \<Rightarrow> core \<Rightarrow> core option" where
  "setRamBaseMultiple multiple c = do {
     c \<leftarrow> resetCaches c;
     let c = c\<lparr>ramBaseMultiple := multiple\<rparr>;
     Some (c\<lparr>ramDecodeCache := setBase (getRamBase c) (ramDecodeCache c)\<rparr>)
   }"

definition PS_RAM_BASE :: u32 where "PS_RAM_BASE = 0x00b"
definition PS_VECTOR_BASE :: u32 where "PS_VECTOR_BASE = 0x10b"
definition PS_BOOT_CONFIG :: u32 where "PS_BOOT_CONFIG = 0x30b"
definition PS_BOOT_STATUS :: u32 where "PS_BOOT_STATUS = 0x40b"
definition PS_RING_OSC_CONTROL :: u32 where "PS_RING_OSC_CONTROL = 0x60b"

definition setProcessorState :: "u32 \<Rightarrow> u32 \<Rightarrow> core \<Rightarrow> (bool \<times> core) option" where
  "setProcessorState reg value c =
     (if reg = PS_VECTOR_BASE then Some (True, c\<lparr>vector_base := value\<rparr>)
      else if reg = PS_RAM_BASE then do {
        c \<leftarrow> setRamBaseMultiple (value div getRamSize c) c;
        Some (True, c)
      }
      else if reg = PS_BOOT_STATUS then Some (True, c\<lparr>bootStatus := value\<rparr>)
      else if reg = PS_RING_OSC_CONTROL then Some (True, c)
      else Some (False, c))"

definition getProcessorState :: "u32 \<Rightarrow> core \<Rightarrow> u32 option" where
  "getProcessorState reg c =
     (if reg = PS_VECTOR_BASE then Some (vector_base c)
      else if reg = PS_RAM_BASE then Some (getRamBase c)
      else if reg = PS_BOOT_CONFIG then Some (bootModePins c OR push_bit 16 (coreNumber c))
      else if reg = PS_BOOT_STATUS then Some (bootStatus c)
      else None)"

definition setBootModePins :: "u32 \<Rightarrow> core \<Rightarrow> core" where
  "setBootModePins value c = c\<lparr>bootModePins := value\<rparr>"

definition setRom :: "u8 list \<Rightarrow> u32 \<Rightarrow> u32 \<Rightarrow> core \<Rightarrow> core" where
  "setRom data base size0 c = c\<lparr>rom := data, romBase := base, romSize := size0\<rparr>"

definition setCoreNumber :: "u32 \<Rightarrow> core \<Rightarrow> core" where
  "setCoreNumber value c = c\<lparr>coreNumber := value\<rparr>"

text \<open>
  The constructor.  The bytes of the memory, the operands of the cache and
  the vector base are not initialised by the code and are arguments.
\<close>

definition Core_new ::
  "u8 list \<Rightarrow> operands \<Rightarrow> u32 \<Rightarrow> NodeType \<Rightarrow> u32 \<Rightarrow> u32 \<Rightarrow> bool \<Rightarrow> core" where
  "Core_new memory0 operands0 vector_base0 ty RamSize RamBase tracing =
     \<lparr>memory = memory0,
      ramDecodeCache = dc_new operands0 (drop_bit 1 RamBase) RamBase True tracing,
      ramSizeLog2 = 31 - countLeadingZeros RamSize,
      ramBaseMultiple = RamBase div RamSize,
      coreNumber = 0, nodeType = ty, bootModePins = 0, bootStatus = 0,
      rom = [], romBase = 0, romSize = 0, breakpoints = {}, watchpoints = {},
      vector_base = vector_base0, jitEnabled = \<not> tracing\<rparr>"

definition MIN_EXECUTION_FREQUENCY :: int where "MIN_EXECUTION_FREQUENCY = -2147483648"

definition runJIT :: "u32 \<Rightarrow> core \<Rightarrow> core option" where
  "runJIT jitPc c =
     (if \<not> isValidRamPc c jitPc then Some c
      else do {
        fs \<leftarrow> array_set (dc_executionFrequency (ramDecodeCache c)) (unat jitPc)
               MIN_EXECUTION_FREQUENCY;
        Some (c\<lparr>ramDecodeCache := (ramDecodeCache c)\<lparr>dc_executionFrequency := fs\<rparr>\<rparr>)
      })"

end
