(* ===== verification/DecodeCorrect.thy ===== *)
theory DecodeCorrect
  imports Decode
begin

text \<open>
  What the decoder of \<open>Instruction.cpp\<close> guarantees: it never fails an
  assertion, the opcode it selects has the size of the encoding, every
  register operand is a number of the register file, and it inverts the
  encoding of the register formats of the XS1 architecture.
\<close>

subsection \<open>Bit fields\<close>


lemma bitRange_eq: "low \<le> high \<Longrightarrow> bitRange v high low = take_bit (Suc high - low) (drop_bit low v)"
  by (simp add: bitRange_def extractBitRange_def extractBits_eq_take_bit)

lemma bit_at_eq: "bit_at v n = take_bit 1 (drop_bit n v)"
  by (simp add: bit_at_def extractBit_def extractBits_eq_take_bit)

lemma take_bit_le_mask: "take_bit n (w :: u32) \<le> mask n"
  by (simp add: take_bit_eq_mask word_and_le1)

lemma bitRange_le: "low \<le> high \<Longrightarrow> bitRange v high low \<le> mask (Suc high - low)"
  by (simp add: bitRange_eq take_bit_le_mask)

lemma bit_at_le: "bit_at v n \<le> 1"
  using take_bit_le_mask [of 1 "drop_bit n v"] by (simp add: bit_at_eq)

lemma or_push2: "x \<le> 3 \<Longrightarrow> x OR push_bit 2 h = (x :: u32) + 4 * h"
proof -
  assume "x \<le> 3"
  then have "take_bit 2 (unat x) = unat x"
    by (simp add: take_bit_nat_eq_self word_le_nat_alt)
  then have x: "take_bit 2 x = x"
    by (simp add: word_unat_eq_iff unsigned_take_bit_eq)
  then have "\<not> bit x n \<or> \<not> bit (push_bit 2 h) n" for n
    by (metis bit_push_bit_iff bit_take_bit_iff not_le)
  then have "x OR push_bit 2 h = x + push_bit 2 h"
    by (rule disjunctive_add [symmetric])
  then show ?thesis
    by (simp add: push_bit_eq_mult mult.commute)
qed

lemma unat_add4: "x \<le> 3 \<Longrightarrow> h \<le> 3 \<Longrightarrow> unat ((x :: u32) + 4 * h) = unat x + 4 * unat h"
  by (simp add: unat_word_ariths word_le_nat_alt)

lemma reg_less12: "x \<le> 3 \<Longrightarrow> h \<le> 2 \<Longrightarrow> x OR push_bit 2 h < (12 :: u32)"
  using unat_add4 [of x h] by (simp add: or_push2 word_less_nat_alt word_le_nat_alt)

lemma reg_less16: "x \<le> 3 \<Longrightarrow> h \<le> 3 \<Longrightarrow> x OR push_bit 2 h < (16 :: u32)"
  using unat_add4 [of x h] by (simp add: or_push2 word_less_nat_alt word_le_nat_alt)

lemma range2: "bitRange v (Suc n) n \<le> 3" 
  using bitRange_le [of n "Suc n" v] by (simp add: mask_eq_exp_minus_1)

lemma mod3_le: "(c :: u32) mod 3 \<le> 2"
  by (simp add: word_le_nat_alt unat_mod_distrib)

lemma div9_le: "c < 27 \<Longrightarrow> (c :: u32) div 9 \<le> 2"
  by (simp add: word_le_nat_alt word_less_nat_alt unat_div_distrib)

lemma div3_le: "c < 9 \<Longrightarrow> (c :: u32) div 3 \<le> 2"
  by (simp add: word_le_nat_alt word_less_nat_alt unat_div_distrib)



subsection \<open>Size and operands of what is decoded\<close>

text \<open>A register operand is an index into the general registers and \<open>cp\<close>, \<open>dp\<close>, \<open>sp\<close>, \<open>lr\<close>.\<close>

definition operands_ok :: "InstructionOpcode \<Rightarrow> operands \<Rightarrow> bool" where
  "operands_ok opc ops \<longleftrightarrow> length ops = 6 \<and>
     (\<forall>i < length (explicit_ops opc). explicit_ops opc ! i \<noteq> Op_imm \<longrightarrow> ops ! i < 16)"

definition decode_good :: "nat \<Rightarrow> decoded \<Rightarrow> decoded option \<Rightarrow> bool" where
  "decode_good sz d r \<longleftrightarrow>
     (\<exists>opc ops. r = Some (opc, ops) \<and>
        ((opc, ops) = d \<or> inst_size opc = sz \<and> operands_ok opc ops))"

lemma decode_goodI:
  assumes "inst_size opc = sz" "length ops = 6"
    "\<And>i. i < length (explicit_ops opc) \<Longrightarrow> explicit_ops opc ! i \<noteq> Op_imm \<Longrightarrow> ops ! i < 16"
  shows "decode_good sz d (Some (opc, ops))"
  using assms by (simp add: decode_good_def operands_ok_def)

lemma same_good [simp]: "decode_good sz d (Some d)"
  by (cases d) (simp add: decode_good_def)

lemma switch_good:
  "list_all (\<lambda>(v, r). decode_good sz d r) cases \<Longrightarrow> decode_good sz d (switch v cases d)"
  by (auto simp: switch_def list_all_iff split: option.splits dest: map_of_SomeD)

lemma ops_shape:
  "length (ops_3r i3) = 3" "length (ops_2rus i2s) = 3" "ops_2rus i2s ! 2 = Op_imm"
  "length (ops_l3r l3) = 3" "length (ops_l2rus l2s) = 3" "ops_l2rus l2s ! 2 = Op_imm"
  "length (ops_l4r l4) = 4" "length (ops_l3rus l3s) = 4"
  "length (ops_l5r l5) = 5" "length (ops_l4rus l4s) = 5" "length (ops_l6r l6) = 6"
  "length (ops_ru6 ru) = 2" "ops_ru6 ru ! Suc 0 = Op_imm" 
  "length (ops_lru6 lru) = 2" "ops_lru6 lru ! Suc 0 = Op_imm"
  "length (ops_2r r2) = 2" "length (ops_rus rs) = 2" "ops_rus rs ! Suc 0 = Op_imm"
  "length (ops_l2r lr2) = 2" "length (ops_1r r1) = 1" "ops_u6 u = [Op_imm]" "ops_lu6 lu = [Op_imm]"
  "ops_u10 w = [Op_imm]" "ops_lu10 lw = [Op_imm]" "ops_0r r0 = []" "ops_l0r lr0 = []" "ops_pseudo p = []"
  by (simp_all add: ops_defs split: op_3r.splits op_2rus.splits op_l3r.splits op_l2rus.splits op_l4r.splits op_l3rus.splits op_l5r.splits op_ru6.splits op_lru6.splits op_2r.splits op_rus.splits op_l2r.splits op_1r.splits)

lemma bitRange_less16:
  "bitRange v 9 6 < 16" "bitRange v 3 0 < 16"
  using bitRange_le [of 6 9 v] bitRange_le [of 0 3 v]
  by (simp_all add: mask_eq_exp_minus_1 word_less_nat_alt word_le_nat_alt)

lemma field_less16:
  "bitRange low 5 4 OR push_bit 2 (c mod 3) < 16"
  "bitRange low 3 2 OR push_bit 2 (c mod 3) < 16"
  "bitRange low (Suc 0) 0 OR push_bit 2 (c mod 3) < 16"
  "c < 9 \<Longrightarrow> bitRange low (Suc 0) 0 OR push_bit 2 (c div 3) < 16"
  "c < 27 \<Longrightarrow> bitRange low (Suc 0) 0 OR push_bit 2 (c div 9) < 16"
  by (rule reg_less16;
      use range2 [of low 4] range2 [of low 2] range2 [of low 0] mod3_le [of c] div3_le [of c] div9_le [of c]
      in \<open>simp add: word_le_nat_alt\<close>)+

lemma range5_div9: "bitRange v 10 6 div 9 \<le> 3"
  using bitRange_le [of 6 10 v]
  by (simp add: mask_eq_exp_minus_1 word_le_nat_alt unat_div_distrib)

lemma field_less16_any: "bitRange low (Suc 0) 0 OR push_bit 2 (bitRange v 10 6 div 9) < 16"
  using range2 [of low 0] by (intro reg_less16 range5_div9) simp

lemma less_cases:
  "i < (2 :: nat) \<Longrightarrow> i = 0 \<or> i = 1"
  "i < (3 :: nat) \<Longrightarrow> i = 0 \<or> i = 1 \<or> i = 2"
  "i < (4 :: nat) \<Longrightarrow> i = 0 \<or> i = 1 \<or> i = 2 \<or> i = 3"
  "i < (5 :: nat) \<Longrightarrow> i = 0 \<or> i = 1 \<or> i = 2 \<or> i = 3 \<or> i = 4"
  "i < (6 :: nat) \<Longrightarrow> i = 0 \<or> i = 1 \<or> i = 2 \<or> i = 3 \<or> i = 4 \<or> i = 5"
  by auto

lemmas field_bounds =
  field_less16 field_less16_any bitRange_less16

lemma nth3_less16: "length ops = 6 \<Longrightarrow> i < 3 \<Longrightarrow> decode3ROperands low ops ! i < 16"
  by (auto simp: decode3ROperands_def Let_def field_bounds dest!: less_cases)

lemma nth2_less16: "test2R low \<Longrightarrow> length ops = 6 \<Longrightarrow> i < 2 \<Longrightarrow> decode2ROperands low ops ! i < 16"
  by (auto simp: decode2ROperands_def test2R_def Let_def field_bounds dest!: less_cases)

lemma nthL4_less16: "length ops = 6 \<Longrightarrow> i < 4 \<Longrightarrow> decodeL4ROperands high low ops ! i < 16"
  by (auto simp: decodeL4ROperands_def Let_def field_bounds dest!: less_cases)

lemma nthL5_less16:
  "testL5R high low \<Longrightarrow> length ops = 6 \<Longrightarrow> i < 5 \<Longrightarrow> decodeL5ROperands high low ops ! i < 16"
  by (auto simp: decodeL5ROperands_def testL5R_def Let_def field_bounds dest!: less_cases split: if_splits)

lemma nthL6_less16: "length ops = 6 \<Longrightarrow> i < 6 \<Longrightarrow> decodeL6ROperands high low ops ! i < 16"
  by (auto simp: decodeL6ROperands_def Let_def field_bounds dest!: less_cases)

lemma length_decode [simp]:
  "length (decode3ROperands low ops) = length ops" "length (decode2ROperands low ops) = length ops"
  "length (decodeL4ROperands high low ops) = length ops"
  "length (decodeL5ROperands high low ops) = length ops"
  "length (decodeL6ROperands high low ops) = length ops"
  "length (decodeRU6Operands low ops) = length ops" "length (decodeLRU6Operands high low ops) = length ops"
  "length (decodeU6Operands low ops) = length ops" "length (decodeLU6Operands high low ops) = length ops"
  "length (decodeU10Operands low ops) = length ops" "length (decodeLU10Operands high low ops) = length ops"
  "length (decodeRUSOperands low ops) = length ops" "length (decode1ROperands low ops) = length ops"
  by (simp_all add: decode3ROperands_def decode2ROperands_def decodeL4ROperands_def Let_def
      decodeL5ROperands_def decodeL6ROperands_def decodeRU6Operands_def decodeLRU6Operands_def
      decodeU6Operands_def decodeLU6Operands_def decodeU10Operands_def decodeLU10Operands_def
      decodeRUSOperands_def decode1ROperands_def)

lemma decodeRUS_eq: "decodeRUSOperands low ops = decode2ROperands low ops"
  by (simp add: decodeRUSOperands_def decode2ROperands_def)

lemmas DECODE_defs =
  DECODE_3R_def DECODE_2RUS_def DECODE_RU6_def DECODE_LRU6_def DECODE_2R_def DECODE_RUS_def
  DECODE_1R_def DECODE_U6_def DECODE_LU6_def DECODE_U10_def DECODE_LU10_def DECODE_0R_def
  DECODE_L0R_def DECODE_L2R_def DECODE_L3R_def DECODE_L2RUS_def DECODE_L3RUS_def DECODE_L4R_def
  DECODE_L5R_def DECODE_L6R_def

lemma good_short:
  assumes "length (snd d) = 6"
  shows "decode_good 2 d (DECODE_3R i3 low d)"
    and "decode_good 2 d (DECODE_2RUS i2s low d)"
    and "decode_good 2 d (DECODE_RU6 ru low d)"
    and "test2R low \<Longrightarrow> decode_good 2 d (DECODE_2R r2 low d)"
    and "test2R low \<Longrightarrow> decode_good 2 d (DECODE_RUS rs low d)"
    and "decode_good 2 d (DECODE_1R r1 low d)"
    and "decode_good 2 d (DECODE_U6 u low d)"
    and "decode_good 2 d (DECODE_U10 w low d)"
    and "decode_good 2 d (DECODE_0R r0 d)"
  unfolding DECODE_defs
  by (rule decode_goodI;
      use assms in \<open>auto simp: inst_size_def explicit_ops_def ops_shape
        decode2RUSOperands_def
        decodeRUS_eq nth3_less16 nth2_less16 decodeRU6Operands_def decode1ROperands_def
        field_bounds dest!: less_cases\<close>)+

lemma testL2R_test2R: "testL2R high low \<Longrightarrow> test2R low"
  by (simp add: testL2R_def test2R_def Let_def)

lemma testL3R_test3R: "testL3R high low \<Longrightarrow> test3R low"
  by (simp add: testL3R_def test3R_def)

lemma good_long:
  assumes "length (snd d) = 6"
  shows "decode_good 4 d (DECODE_LRU6 ru high low d)"
    and "decode_good 4 d (DECODE_LU6 u high low d)"
    and "decode_good 4 d (DECODE_LU10 w high low d)"
    and "decode_good 4 d (DECODE_L0R r0 d)"
    and "testL2R high low \<Longrightarrow> decode_good 4 d (DECODE_L2R r2 high low d)"
    and "decode_good 4 d (DECODE_L3R i3 high low d)"
    and "decode_good 4 d (DECODE_L2RUS i2s high low d)"
    and "decode_good 4 d (DECODE_L3RUS i3s high low d)"
    and "decode_good 4 d (DECODE_L4R i4 high low d)"
    and "testL5R high low \<Longrightarrow> decode_good 4 d (DECODE_L5R (Fl5r i5) high low d)"
    and "testL5R high low \<Longrightarrow> decode_good 4 d (DECODE_L5R (Fl4rus i4s) high low d)"
    and "decode_good 4 d (DECODE_L6R i6 high low d)"
  unfolding DECODE_defs
  by (rule decode_goodI;
      use assms in \<open>auto simp: inst_size_def explicit_ops_def ops_shape
        decodeL2RUSOperands_def decodeL3ROperands_def
        decodeL2ROperands_def testL2R_test2R nth3_less16 nth2_less16 nthL4_less16 nthL5_less16
        nthL6_less16 decodeLRU6Operands_def field_bounds dest!: less_cases\<close>)+

lemma then_bitp_ok:
  assumes "inst_size opc = sz" "operands_ok opc ops" "ops ! n < 12" "n < 6" "explicit_ops opc ! n = Op_imm"
  shows "decode_good sz d (then_bitp n (Some (opc, ops)))"
  using assms by (auto simp: then_bitp_def bitpValue_def decode_good_def operands_ok_def nth_list_update)

lemma field_less12:
  "test3R low \<Longrightarrow> length ops = 6 \<Longrightarrow> decode3ROperands low ops ! 2 < 12"
  "test2R low \<Longrightarrow> length ops = 6 \<Longrightarrow> decode2ROperands low ops ! Suc 0 < 12"
  using range2 [of low 0]
  by (auto simp: decode3ROperands_def decode2ROperands_def test3R_def test2R_def Let_def
      intro!: reg_less12 div9_le div3_le)

lemma good_bitp:
  assumes "length (snd d) = 6"
  shows "test3R low \<Longrightarrow> decode_good 2 d (then_bitp 2 (DECODE_2RUS i2s low d))"
    and "test2R low \<Longrightarrow> decode_good 2 d (then_bitp (Suc 0) (DECODE_RUS rs low d))"
    and "testL3R high low \<Longrightarrow> decode_good 4 d (then_bitp 2 (DECODE_L2RUS li2s high low d))"
  unfolding DECODE_defs
  by (rule then_bitp_ok;
      use assms in \<open>auto simp: inst_size_def explicit_ops_def operands_ok_def ops_shape decodeRUS_eq
        decode2RUSOperands_def decodeL2RUSOperands_def decodeL3ROperands_def nth3_less16 nth2_less16
        field_less12 testL3R_test3R dest!: less_cases\<close>)+

lemmas case_short_defs =
  case_0x00_def case_0x01_def case_0x02_def case_0x03_def case_0x04_def case_0x05_def case_0x06_def
  case_0x07_def case_0x08_def case_0x09_def case_0x0a_def case_0x0b_def case_0x0c_def case_0x0d_def
  case_0x0e_def case_0x0f_def case_0x10_def case_0x11_def case_0x12_def case_0x13_def case_0x14_def
  case_0x15_def case_0x16_def case_0x17_def case_0x18_def case_0x19_def case_0x1a_def case_0x1b_def
  case_0x1c_def case_0x1d_def

lemmas case_long_defs =
  PFIX_lru6_def PFIX_0x0e_def PFIX_0x0f_def PFIX_lu10_def EOPR_0x00_def EOPR_0x02_def EOPR_0x03_def
  EOPR_0x04_def EOPR_0x05_def EOPR_0x06_def EOPR_l3r_def EOPR_0x12_def EOPR_0x13_def EOPR_0x14_def

lemma case_short_good:
  assumes "length (snd d) = 6"
  shows "decode_good 2 d (case_0x00 low ty d)" "decode_good 2 d (case_0x01 low ty d)"
    "decode_good 2 d (case_0x02 low ty d)" "decode_good 2 d (case_0x03 low ty d)"
    "decode_good 2 d (case_0x04 low d)" "decode_good 2 d (case_0x05 low d)"
    "decode_good 2 d (case_0x06 low d)" "decode_good 2 d (case_0x07 low d)"
    "decode_good 2 d (case_0x08 low d)" "decode_good 2 d (case_0x09 low d)"
    "decode_good 2 d (case_0x0a low d)" "decode_good 2 d (case_0x0b low d)"
    "decode_good 2 d (case_0x0c low d)" "decode_good 2 d (case_0x0d low d)"
    "decode_good 2 d (case_0x0e low ty d)" "decode_good 2 d (case_0x0f low ty d)"
    "decode_good 2 d (case_0x10 low d)" "decode_good 2 d (case_0x11 low ty d)"
    "decode_good 2 d (case_0x12 low d)" "decode_good 2 d (case_0x13 low d)"
    "decode_good 2 d (case_0x14 low d)" "decode_good 2 d (case_0x15 low d)"
    "decode_good 2 d (case_0x16 low d)" "decode_good 2 d (case_0x17 low ty d)"
    "decode_good 2 d (case_0x18 low d)" "decode_good 2 d (case_0x19 low d)"
    "decode_good 2 d (case_0x1a low d)" "decode_good 2 d (case_0x1b low d)"
    "decode_good 2 d (case_0x1c low d)" "decode_good 2 d (case_0x1d low d)"
  unfolding case_short_defs
  by (simp_all add: switch_good good_short good_bitp assms)

lemma case_long_good:
  assumes "length (snd d) = 6"
  shows "decode_good 4 d (PFIX_lru6 i0 i1 high low d)" "decode_good 4 d (PFIX_0x0e high low ty d)"
    "decode_good 4 d (PFIX_0x0f high low ty d)" "decode_good 4 d (PFIX_lu10 i2 i3 high low d)"
    "decode_good 4 d (EOPR_0x00 high low ty d)" "decode_good 4 d (EOPR_0x02 high low ty d)"
    "decode_good 4 d (EOPR_0x03 high low ty d)" "decode_good 4 d (EOPR_0x04 high low ty d)"
    "decode_good 4 d (EOPR_0x05 high low d)" "decode_good 4 d (EOPR_0x06 high low d)"
    "decode_good 4 d (EOPR_l3r i4 high low d)" "decode_good 4 d (EOPR_0x12 high low d)"
    "decode_good 4 d (EOPR_0x13 high low ty d)" "decode_good 4 d (EOPR_0x14 high low d)"
  unfolding case_long_defs
  by (simp_all add: switch_good good_long good_bitp assms)

lemma bitRange_split:
  "bitRange v 10 6 = drop_bit 1 (bitRange v 10 5)" "bit_at v 5 = take_bit 1 (bitRange v 10 5)"
  "bitRange v 10 5 = drop_bit 1 (bitRange v 10 4)"
  by (rule bit_word_eqI; auto simp: bitRange_eq bit_at_eq bit_simps)+

text \<open>The second statement of the case \<open>0x01\<close> never undoes the first.\<close>

lemma testL5R_excl:
  assumes "testL5R high low"
  shows "\<not> testL4R high low \<and> \<not> testL3R high low \<and> \<not> testL2R high low"
proof -
  have "bitRange high 10 5 \<noteq> 0x3f"
  proof
    assume *: "bitRange high 10 5 = 0x3f"
    have "bitRange high 10 6 = 31" "bit_at high 5 = 1"
      unfolding bitRange_split(1,2) * by code_simp+
    with assms show False
      by (simp add: testL5R_def split: if_splits)
  qed
  moreover have "bitRange high 10 4 \<noteq> 0x7e"
  proof
    assume *: "bitRange high 10 4 = 0x7e"
    have "bitRange high 10 5 = 0x3f"
      unfolding bitRange_split(3) * by code_simp
    with \<open>bitRange high 10 5 \<noteq> 0x3f\<close> show False ..
  qed
  ultimately show ?thesis
    by (simp add: testL4R_def testL3R_def testL2R_def)
qed

lemma EOPR_0x01_good:
  assumes "length (snd d) = 6"
  shows "decode_good 4 d (EOPR_0x01 high low ty d)"
proof (cases "testL5R high low")
  case True
  with testL5R_excl assms show ?thesis
    by (simp add: EOPR_0x01_def good_long DECODE_L5R_def [symmetric])
next
  case False
  with assms show ?thesis
    by (simp add: EOPR_0x01_def switch_good good_long)
qed

lemma illegal_pc_good: "length (snd d) = 6 \<Longrightarrow> decode_good 2 d (Some (Fpseudo ILLEGAL_PC, snd d))"
  by (rule decode_goodI) (simp_all add: inst_size_def explicit_ops_def ops_shape)

lemma case_PFIX_EOPR_good:
  assumes "length (snd d) = 6"
  shows "decode_good 4 d (case_PFIX low high True ty d)" "decode_good 2 d (case_PFIX low high False ty d)"
    "decode_good 4 d (case_EOPR low high True ty d)" "decode_good 2 d (case_EOPR low high False ty d)"
  using assms
  by (simp_all add: case_PFIX_def case_EOPR_def switch_good case_long_good EOPR_0x01_good good_long
      illegal_pc_good)

lemma switch_good_at:
  "list_all (\<lambda>(v', r). v = v' \<longrightarrow> decode_good sz d r) cases \<Longrightarrow> decode_good sz d (switch v cases d)"
  by (auto simp: switch_def list_all_iff split: option.splits dest!: map_of_SomeD)

lemma instructionDecode_good:
  assumes "length (snd d) = 6"
  shows "decode_good (if 0x1e \<le> bitRange (ucast low) 15 11 \<and> highValid then 4 else 2) d
    (instructionDecode low high highValid ty d)"
proof (cases "0x1e \<le> bitRange (ucast low) 15 11")
  case True
  have "bitRange (ucast low) 15 11 \<le> 0x1f"
    using bitRange_le [of 11 15 "ucast low"] by (simp add: mask_eq_exp_minus_1)
  with True have "bitRange (ucast low) 15 11 = 0x1e \<or> bitRange (ucast low) 15 11 = 0x1f"
    by (auto simp: word_le_nat_alt word_unat_eq_iff)
  with case_PFIX_EOPR_good [OF assms] show ?thesis
    by (cases highValid) (auto simp: instructionDecode_def Let_def switch_def)
next
  case False
  then have "bitRange (ucast low) 15 11 \<noteq> 0x1e" "bitRange (ucast low) 15 11 \<noteq> 0x1f"
    by auto
  with assms have "decode_good 2 d (instructionDecode low high highValid ty d)"
    unfolding instructionDecode_def Let_def
    by (intro switch_good_at) (simp add: case_short_good)
  with False show ?thesis
    by simp
qed


subsection \<open>Encoding and decoding\<close>

definition encode_fields :: "nat \<Rightarrow> nat \<Rightarrow> nat \<Rightarrow> nat \<Rightarrow> nat \<Rightarrow> u16" where
  "encode_fields opc combined x y z = of_nat (opc * 2048 + combined * 64 + x * 16 + y * 4 + z)"

definition encode_3r :: "nat \<Rightarrow> nat \<Rightarrow> nat \<Rightarrow> nat \<Rightarrow> u16" where
  "encode_3r opc a b c =
     encode_fields opc (a div 4 + 3 * (b div 4) + 9 * (c div 4)) (a mod 4) (b mod 4) (c mod 4)"

definition encode_2r :: "nat \<Rightarrow> nat \<Rightarrow> nat \<Rightarrow> nat \<Rightarrow> u16" where
  "encode_2r opc sel a b = (
     let combined = a div 4 + 3 * (b div 4) in
     encode_fields opc (27 + combined mod 5) (combined div 5 * 2 + sel) (a mod 4) (b mod 4))"

lemma unat_bitRange: "low \<le> high \<Longrightarrow> unat (bitRange v high low) = unat v div 2 ^ low mod 2 ^ (Suc high - low)"
  by (simp only: bitRange_eq unsigned_take_bit_eq unat_drop_bit_eq) (simp only: take_bit_eq_mod drop_bit_eq_div)

lemma unat_bit_at: "unat (bit_at v n) = unat v div 2 ^ n mod 2"
  by (simp only: bit_at_eq unsigned_take_bit_eq unat_drop_bit_eq)
    (simp only: take_bit_eq_mod drop_bit_eq_div power_one_right)

lemma unat_encode_fields:
  assumes "opc < 32" "m < 32" "x < 4" "y < 4" "z < 4"
  shows "unat (ucast (encode_fields opc m x y z) :: u32) = opc * 2048 + m * 64 + x * 16 + y * 4 + z"
proof -
  have "opc * 2048 + m * 64 + x * 16 + y * 4 + z < 65536"
    using assms by linarith
  then show ?thesis
    unfolding encode_fields_def
    by (simp add: unsigned_ucast_eq unat_of_nat take_bit_eq_mod del: of_nat_add of_nat_mult)
qed

lemma field_at: "r < k \<Longrightarrow> q < n \<Longrightarrow> ((p * n + q) * k + r) div k mod n = (q :: nat)"
  by simp

lemma fields_decode:
  assumes "opc < 32" "m < 32" "x < 4" "y < 4" "z < 4"
  defines "w \<equiv> ucast (encode_fields opc m x y z) :: u32"
  shows "unat (bitRange w 15 11) = opc" "unat (bitRange w 10 6) = m" "unat (bitRange w 5 4) = x"
    "unat (bitRange w 3 2) = y" "unat (bitRange w (Suc 0) 0) = z"
proof -
  have w: "unat w = opc * 2048 + m * 64 + x * 16 + y * 4 + z"
    unfolding w_def using assms by (rule_tac unat_encode_fields)
  show "unat (bitRange w 15 11) = opc"
    using assms(1-5) field_at [of "m * 64 + x * 16 + y * 4 + z" 2048 opc 32 0]
    by (simp add: unat_bitRange w add.assoc)
  show "unat (bitRange w 10 6) = m"
    using assms(1-5) field_at [of "x * 16 + y * 4 + z" 64 m 32 opc]
    by (simp add: unat_bitRange w algebra_simps)
  show "unat (bitRange w 5 4) = x"
    using assms(1-5) field_at [of "y * 4 + z" 16 x 4 "opc * 32 + m"]
    by (simp add: unat_bitRange w algebra_simps)
  show "unat (bitRange w 3 2) = y"
    using assms(1-5) field_at [of z 4 y 4 "(opc * 32 + m) * 4 + x"]
    by (simp add: unat_bitRange w algebra_simps)
  show "unat (bitRange w (Suc 0) 0) = z"
    using assms(1-5) field_at [of 0 1 z 4 "((opc * 32 + m) * 4 + x) * 4 + y"]
    by (simp add: unat_bitRange w algebra_simps)
qed

lemma bits_decode:
  assumes "opc < 32" "m < 32" "h < 2" "l < 2" "y < 4" "z < 4"
  defines "w \<equiv> ucast (encode_fields opc m (h * 2 + l) y z) :: u32"
  shows "unat (bit_at w 5) = h" "unat (bit_at w 4) = l"
proof -
  have w: "unat w = opc * 2048 + m * 64 + (h * 2 + l) * 16 + y * 4 + z"
    unfolding w_def using assms(1-6) by (intro unat_encode_fields) auto
  show "unat (bit_at w 5) = h"
    using assms(1-6) field_at [of "l * 16 + y * 4 + z" 32 h 2 "opc * 32 + m"]
    by (simp add: unat_bit_at w algebra_simps)
  show "unat (bit_at w 4) = l"
    using assms(1-6) field_at [of "y * 4 + z" 16 l 2 "(opc * 32 + m) * 2 + h"]
    by (simp add: unat_bit_at w algebra_simps)
qed

lemma field_reg:
  assumes "unat x = a mod 4" "unat h = a div 4" "a < 12"
  shows "x OR push_bit 2 h = (of_nat a :: u32)"
proof -
  have le: "x \<le> 3" "h \<le> 3"
    using assms by (simp_all add: word_le_nat_alt)
  have "unat (x OR push_bit 2 h) = a"
    by (simp add: or_push2 le unat_add4 assms)
  then show ?thesis
    using assms(3) by (simp add: word_unat_eq_iff unat_of_nat)
qed

lemma digits3:
  assumes "p < 3" "q < 3" "r < (3 :: nat)"
  shows "(p + 3 * q + 9 * r) mod 3 = p" "(p + 3 * q + 9 * r) div 3 mod 3 = q" "(p + 3 * q + 9 * r) div 9 = r"
  using assms field_at [of 0 1 p 3 "q + 3 * r"] field_at [of p 3 q 3 r] field_at [of "p + 3 * q" 9 r 3 0]
  by (simp_all add: algebra_simps)

lemma digits2:
  assumes "p < 3" "q < (3 :: nat)"
  shows "(p + 3 * q) mod 3 = p" "(p + 3 * q) div 3 = q"
  using assms by simp_all

lemma unat_digits:
  "unat (x mod 3 :: u32) = unat x mod 3" "unat (x div 3 :: u32) = unat x div 3"
  "unat (x div 9 :: u32) = unat x div 9"
  by (simp_all add: unat_mod_distrib unat_div_distrib)

lemma decode_encode_3r:
  assumes "opc < 32" "a < 12" "b < 12" "c < 12" "length ops = 6"
  defines "w \<equiv> ucast (encode_3r opc a b c) :: u32"
  shows "unat (bitRange w 15 11) = opc" and "test3R w"
    and "decode3ROperands w ops = ops[0 := of_nat a, 1 := of_nat b, 2 := of_nat c]"
proof -
  let ?m = "a div 4 + 3 * (b div 4) + 9 * (c div 4)"
  have dig: "a div 4 < 3" "b div 4 < 3" "c div 4 < 3"
    using assms by auto
  have m: "?m < 27"
    using dig by linarith
  have f: "unat (bitRange w 15 11) = opc" "unat (bitRange w 10 6) = ?m" "unat (bitRange w 5 4) = a mod 4"
    "unat (bitRange w 3 2) = b mod 4" "unat (bitRange w (Suc 0) 0) = c mod 4"
    unfolding w_def encode_3r_def using assms(1) m by (simp_all add: fields_decode)
  have "bitRange w 5 4 OR push_bit 2 (bitRange w 10 6 mod 3) = of_nat a"
    "bitRange w 3 2 OR push_bit 2 (bitRange w 10 6 div 3 mod 3) = of_nat b"
    "bitRange w (Suc 0) 0 OR push_bit 2 (bitRange w 10 6 div 9) = of_nat c"
    by (rule field_reg; simp only: unat_digits f digits3 [OF dig] assms(2-4))+
  then show "unat (bitRange w 15 11) = opc" "test3R w"
    "decode3ROperands w ops = ops[0 := of_nat a, 1 := of_nat b, 2 := of_nat c]"
    using f m by (simp_all add: test3R_def word_less_nat_alt decode3ROperands_def Let_def)
qed

lemma decode_encode_2r:
  assumes "opc < 32" "sel < 2" "a < 12" "b < 12" "length ops = 6"
  defines "w \<equiv> ucast (encode_2r opc sel a b) :: u32"
  shows "unat (bitRange w 15 11) = opc" and "unat (bit_at w 4) = sel" and "\<not> test3R w" and "test2R w"
    and "decode2ROperands w ops = ops[0 := of_nat a, 1 := of_nat b]"
proof -
  let ?m = "a div 4 + 3 * (b div 4)"
  have dig: "a div 4 < 3" "b div 4 < 3" 
    using assms by auto
  have m: "?m < 9"
    using dig by linarith
  then have d: "?m div 5 < 2" "?m mod 5 < 5"
    by auto
  have f: "unat (bitRange w 15 11) = opc" "unat (bitRange w 10 6) = 27 + ?m mod 5"
    "unat (bitRange w 3 2) = a mod 4" "unat (bitRange w (Suc 0) 0) = b mod 4"
    "unat (bit_at w 5) = ?m div 5" "unat (bit_at w 4) = sel"
    unfolding w_def encode_2r_def Let_def using assms(1,2) d by (simp_all add: fields_decode bits_decode)
  have comb: "unat (bitRange w 10 6 - 27 + bit_at w 5 * 5) = ?m"
  proof -
    have "unat (bitRange w 10 6 - 27) = ?m mod 5"
      using f(2) by (simp add: unat_sub word_le_nat_alt)
    then have "unat (bitRange w 10 6 - 27 + bit_at w 5 * 5) = ?m mod 5 + ?m div 5 * 5"
      using f(5) d m by (simp add: unat_word_ariths)
    then show ?thesis
      by simp
  qed
  have "bitRange w 3 2 OR push_bit 2 ((bitRange w 10 6 - 27 + bit_at w 5 * 5) mod 3) = of_nat a"
    "bitRange w (Suc 0) 0 OR push_bit 2 ((bitRange w 10 6 - 27 + bit_at w 5 * 5) div 3) = of_nat b"
    by (rule field_reg; simp only: unat_digits f comb digits2 [OF dig] assms(3,4))+
  then show "unat (bitRange w 15 11) = opc" "unat (bit_at w 4) = sel" "\<not> test3R w" "test2R w"
    "decode2ROperands w ops = ops[0 := of_nat a, 1 := of_nat b]"
    using f comb m
    by (simp_all add: test3R_def test2R_def word_less_nat_alt decode2ROperands_def Let_def)
qed


text \<open>The register formats of the XS1 architectures: operation code (and selector bit), instruction.\<close>

definition table_3r :: "(nat \<times> op_3r) list" where
  "table_3r = [(0x02, ADD_3r), (0x03, SUB_3r), (0x04, SHL_3r), (0x05, SHR_3r), (0x06, EQ_3r),
     (0x07, AND_3r), (0x08, OR_3r), (0x09, LDW_3r), (0x10, LD16S_3r), (0x11, LD8U_3r),
     (0x17, TSETR_3r), (0x18, LSS_3r), (0x19, LSU_3r)]"

definition table_2r :: "(nat \<times> nat \<times> op_2r) list" where
  "table_2r = [(0x00, 0, TINITPC_2r), (0x00, 1, GETST_2r), (0x01, 0, TINITDP_2r), (0x01, 1, OUTT_2r),
     (0x02, 0, TINITSP_2r), (0x02, 1, SETD_2r), (0x03, 0, TINITCP_2r), (0x03, 1, TSETMR_2r),
     (0x04, 1, EET_2r), (0x05, 0, ANDNOT_2r), (0x05, 1, EEF_2r), (0x06, 0, SEXT_2r),
     (0x07, 0, GETTS_2r), (0x07, 1, SETPT_2r), (0x08, 0, ZEXT_2r), (0x09, 0, OUTCT_2r),
     (0x10, 1, INCT_2r), (0x11, 0, NOT_2r), (0x11, 1, INT_2r), (0x12, 0, NEG_2r),
     (0x12, 1, ENDIN_2r), (0x14, 0, MKMSK_2r), (0x15, 0, OUT_2r), (0x15, 1, OUTSHR_2r),
     (0x16, 0, IN_2r), (0x16, 1, INSHR_2r), (0x17, 0, PEEK_2r), (0x17, 1, TESTCT_2r),
     (0x18, 0, SETPSC_2r), (0x18, 1, TESTWCT_2r), (0x19, 0, CHKCT_2r)]"

lemma in_set_ConsE: "x \<in> set (y # ys) \<Longrightarrow> (x = y \<Longrightarrow> P) \<Longrightarrow> (x \<in> set ys \<Longrightarrow> P) \<Longrightarrow> P"
  by auto

lemma in_set_NilE: "x \<in> set [] \<Longrightarrow> P"
  by simp

lemmas list_membership = in_set_ConsE in_set_NilE

lemma word_of_field: "unat (x :: u32) = n \<Longrightarrow> x = of_nat n"
  by auto

lemma instructionDecode_dispatch:
  "bitRange (ucast low16) 15 11 = 0x00 \<Longrightarrow> instructionDecode low16 high highValid ty d = case_0x00 (ucast low16) ty d"
  "bitRange (ucast low16) 15 11 = 0x01 \<Longrightarrow> instructionDecode low16 high highValid ty d = case_0x01 (ucast low16) ty d"
  "bitRange (ucast low16) 15 11 = 0x02 \<Longrightarrow> instructionDecode low16 high highValid ty d = case_0x02 (ucast low16) ty d"
  "bitRange (ucast low16) 15 11 = 0x03 \<Longrightarrow> instructionDecode low16 high highValid ty d = case_0x03 (ucast low16) ty d"
  "bitRange (ucast low16) 15 11 = 0x04 \<Longrightarrow> instructionDecode low16 high highValid ty d = case_0x04 (ucast low16) d"
  "bitRange (ucast low16) 15 11 = 0x05 \<Longrightarrow> instructionDecode low16 high highValid ty d = case_0x05 (ucast low16) d"
  "bitRange (ucast low16) 15 11 = 0x06 \<Longrightarrow> instructionDecode low16 high highValid ty d = case_0x06 (ucast low16) d"
  "bitRange (ucast low16) 15 11 = 0x07 \<Longrightarrow> instructionDecode low16 high highValid ty d = case_0x07 (ucast low16) d"
  "bitRange (ucast low16) 15 11 = 0x08 \<Longrightarrow> instructionDecode low16 high highValid ty d = case_0x08 (ucast low16) d"
  "bitRange (ucast low16) 15 11 = 0x09 \<Longrightarrow> instructionDecode low16 high highValid ty d = case_0x09 (ucast low16) d"
  "bitRange (ucast low16) 15 11 = 0x0a \<Longrightarrow> instructionDecode low16 high highValid ty d = case_0x0a (ucast low16) d"
  "bitRange (ucast low16) 15 11 = 0x0b \<Longrightarrow> instructionDecode low16 high highValid ty d = case_0x0b (ucast low16) d"
  "bitRange (ucast low16) 15 11 = 0x0c \<Longrightarrow> instructionDecode low16 high highValid ty d = case_0x0c (ucast low16) d"
  "bitRange (ucast low16) 15 11 = 0x0d \<Longrightarrow> instructionDecode low16 high highValid ty d = case_0x0d (ucast low16) d"
  "bitRange (ucast low16) 15 11 = 0x0e \<Longrightarrow> instructionDecode low16 high highValid ty d = case_0x0e (ucast low16) ty d"
  "bitRange (ucast low16) 15 11 = 0x0f \<Longrightarrow> instructionDecode low16 high highValid ty d = case_0x0f (ucast low16) ty d"
  "bitRange (ucast low16) 15 11 = 0x10 \<Longrightarrow> instructionDecode low16 high highValid ty d = case_0x10 (ucast low16) d"
  "bitRange (ucast low16) 15 11 = 0x11 \<Longrightarrow> instructionDecode low16 high highValid ty d = case_0x11 (ucast low16) ty d"
  "bitRange (ucast low16) 15 11 = 0x12 \<Longrightarrow> instructionDecode low16 high highValid ty d = case_0x12 (ucast low16) d"
  "bitRange (ucast low16) 15 11 = 0x13 \<Longrightarrow> instructionDecode low16 high highValid ty d = case_0x13 (ucast low16) d"
  "bitRange (ucast low16) 15 11 = 0x14 \<Longrightarrow> instructionDecode low16 high highValid ty d = case_0x14 (ucast low16) d"
  "bitRange (ucast low16) 15 11 = 0x15 \<Longrightarrow> instructionDecode low16 high highValid ty d = case_0x15 (ucast low16) d"
  "bitRange (ucast low16) 15 11 = 0x16 \<Longrightarrow> instructionDecode low16 high highValid ty d = case_0x16 (ucast low16) d"
  "bitRange (ucast low16) 15 11 = 0x17 \<Longrightarrow> instructionDecode low16 high highValid ty d = case_0x17 (ucast low16) ty d"
  "bitRange (ucast low16) 15 11 = 0x18 \<Longrightarrow> instructionDecode low16 high highValid ty d = case_0x18 (ucast low16) d"
  "bitRange (ucast low16) 15 11 = 0x19 \<Longrightarrow> instructionDecode low16 high highValid ty d = case_0x19 (ucast low16) d"
  "bitRange (ucast low16) 15 11 = 0x1a \<Longrightarrow> instructionDecode low16 high highValid ty d = case_0x1a (ucast low16) d"
  "bitRange (ucast low16) 15 11 = 0x1b \<Longrightarrow> instructionDecode low16 high highValid ty d = case_0x1b (ucast low16) d"
  "bitRange (ucast low16) 15 11 = 0x1c \<Longrightarrow> instructionDecode low16 high highValid ty d = case_0x1c (ucast low16) d"
  "bitRange (ucast low16) 15 11 = 0x1d \<Longrightarrow> instructionDecode low16 high highValid ty d = case_0x1d (ucast low16) d"
  by (simp_all add: instructionDecode_def Let_def switch_def)

lemma decode_roundtrip_3r:
  assumes "(opc, inst) \<in> set table_3r" "ty \<noteq> XS2_A" "a < 12" "b < 12" "c < 12" "length (snd d) = 6"
  shows "instructionDecode (encode_3r opc a b c) high highValid ty d =
    Some (F3r inst, (snd d)[0 := of_nat a, 1 := of_nat b, 2 := of_nat c])"
proof -
  define low16 where "low16 = encode_3r opc a b c"
  define w :: u32 where "w = ucast low16"
  have "opc < 32"
    using assms(1) by (auto simp: table_3r_def)
  from decode_encode_3r [OF this assms(3-6)]
  have w: "bitRange w 15 11 = of_nat opc" "test3R w"
    "decode3ROperands w (snd d) = (snd d)[0 := of_nat a, 1 := of_nat b, 2 := of_nat c]"
    by (auto simp: w_def low16_def intro: word_of_field)
  then have D: "DECODE_3R inst w d = Some (F3r inst, (snd d)[0 := of_nat a, 1 := of_nat b, 2 := of_nat c])" for inst
    by (simp add: DECODE_3R_def)
  show ?thesis
    using assms(1,2) w(1) unfolding table_3r_def low16_def [symmetric]
    by (elim list_membership; simp add: instructionDecode_dispatch [folded w_def] case_short_defs w(2) D flip: w_def)
qed

lemma decode_roundtrip_2r:
  assumes "(opc, sel, inst) \<in> set table_2r" "ty \<noteq> XS2_A" "a < 12" "b < 12" "length (snd d) = 6"
  shows "instructionDecode (encode_2r opc sel a b) high highValid ty d =
    Some (F2r inst, (snd d)[0 := of_nat a, 1 := of_nat b])"
proof -
  define low16 where "low16 = encode_2r opc sel a b"
  define w :: u32 where "w = ucast low16"
  have "opc < 32" "sel < 2"
    using assms(1) by (auto simp: table_2r_def)
  from decode_encode_2r [OF this assms(3-5)]
  have w: "bitRange w 15 11 = of_nat opc" "bit_at w 4 = of_nat sel" "\<not> test3R w" "test2R w"
    "decode2ROperands w (snd d) = (snd d)[0 := of_nat a, 1 := of_nat b]"
    by (auto simp: w_def low16_def intro: word_of_field)
  then have D: "DECODE_2R inst w d = Some (F2r inst, (snd d)[0 := of_nat a, 1 := of_nat b])" for inst
    by (simp add: DECODE_2R_def)
  show ?thesis
    using assms(1,2) w(1,2) unfolding table_2r_def low16_def [symmetric]
    by (elim list_membership; simp add: instructionDecode_dispatch [folded w_def] case_short_defs switch_def w(3,4) D flip: w_def)
qed

text \<open>
  C17. For every pair of half-words the decoder returns.  Either the encoding
  is not one of an instruction and the opcode and the operands are left as
  they were, or the selected opcode has the size in bytes that the encoding
  takes (four exactly when the first half-word is a prefix and the second one
  is valid) and each of its register operands is below 16.
\<close>

theorem instructionDecode_wellformed:
  assumes "length ops0 = 6"
  shows "\<exists>opc ops. instructionDecode low high highValid ty (opc0, ops0) = Some (opc, ops) \<and>
    ((opc, ops) = (opc0, ops0) \<or>
     inst_size opc = (if 0x1e \<le> bitRange (ucast low) 15 11 \<and> highValid then 4 else 2) \<and>
     length ops = 6 \<and>
     (\<forall>i < length (explicit_ops opc). explicit_ops opc ! i \<noteq> Op_imm \<longrightarrow> ops ! i < 16))"
  using instructionDecode_good [of "(opc0, ops0)" low highValid high ty] assms
  by (simp add: decode_good_def operands_ok_def)

theorem instructionDecode_wellformed_witness:
  "\<exists>opc ops. instructionDecode 0x1123 0 False XS1_L (Fpseudo DECODE, [0, 0, 0, 0, 0, 0]) = Some (opc, ops) \<and>
    ((opc, ops) = (Fpseudo DECODE, [0, 0, 0, 0, 0, 0]) \<or>
     inst_size opc = 2 \<and> length ops = 6 \<and>
     (\<forall>i < length (explicit_ops opc). explicit_ops opc ! i \<noteq> Op_imm \<longrightarrow> ops ! i < 16))"
  using instructionDecode_wellformed [where ?ops0.0 = "[0, 0, 0, 0, 0, 0]" and low = "0x1123"
      and high = 0 and highValid = False and ty = XS1_L and ?opc0.0 = "Fpseudo DECODE"]
  by simp

text \<open>
  C26. Decoding inverts encoding for the three register and the two register
  formats of XS1: for register numbers below 12 the half-word that encodes an
  instruction of the format decodes to this instruction with these registers,
  whatever the second half-word is.
\<close>

theorem instructionDecode_roundtrip:
  assumes "ty \<noteq> XS2_A" "a < 12" "b < 12" "c < 12" "length (snd d) = 6"
    and "(opc3, inst3) \<in> set table_3r" "(opc2, sel, inst2) \<in> set table_2r"
  shows "instructionDecode (encode_3r opc3 a b c) high highValid ty d =
        Some (F3r inst3, (snd d)[0 := of_nat a, 1 := of_nat b, 2 := of_nat c])
    \<and> instructionDecode (encode_2r opc2 sel a b) high highValid ty d =
        Some (F2r inst2, (snd d)[0 := of_nat a, 1 := of_nat b])"
  using decode_roundtrip_3r decode_roundtrip_2r assms by blast

theorem instructionDecode_roundtrip_witness:
  "instructionDecode (encode_3r 0x02 1 2 11) 0 False XS1_L (Fpseudo DECODE, [0, 0, 0, 0, 0, 0]) =
     Some (F3r ADD_3r, [1, 2, 11, 0, 0, 0])
   \<and> instructionDecode (encode_2r 0x11 0 1 2) 0 False XS1_L (Fpseudo DECODE, [0, 0, 0, 0, 0, 0]) =
     Some (F2r NOT_2r, [1, 2, 0, 0, 0, 0])"
  using instructionDecode_roundtrip [of XS1_L 1 2 11 "(Fpseudo DECODE, [0, 0, 0, 0, 0, 0])"
      "0x02" ADD_3r "0x11" 0 NOT_2r 0 False]
  by (simp add: table_3r_def table_2r_def)

end
