(* ===== verification/Transform.thy ===== *)
theory Transform
  imports Core DecodeCorrect
begin

text \<open>
  The two operations of \<open>Instruction.cpp\<close> that look at a core: decoding at
  an address, and \<open>instructionTransform\<close>, which scales immediate operands,
  resolves branch targets to a pc and selects the specialised variants of an
  instruction.  On top of them the handler \<open>Instruction_DECODE\<close> of
  \<open>Thread.cpp\<close>, which fills an entry of the decode cache, and the sequence of
  check, store and invalidation that the generated handlers of the store
  instructions perform (\<open>emitStore\<close> of \<open>InstructionGen.cpp\<close>).

  \<open>instructionTransform\<close> is one definition per format.
\<close>

definition instructionDecode_core :: "core \<Rightarrow> u32 \<Rightarrow> bool \<Rightarrow> decoded \<Rightarrow> decoded option" where
  "instructionDecode_core tile address ignoreBreakpoints d = do {
     assert_that (address AND 1 = 0 \<and> isValidAddress tile address);
     if \<not> ignoreBreakpoints \<and> isBreakpointAddress tile address then Some (Fpseudo BREAKPOINT, snd d)
     else do {
       low \<leftarrow> loadShort tile address;
       (if isValidAddress tile (address + 2) then do {
          high \<leftarrow> loadShort tile (address + 2);
          instructionDecode low high True (nodeType tile) d
        }
        else instructionDecode low 0 False (nodeType tile) d)
     }
   }"

definition transform_2rus :: "dcache \<Rightarrow> u32 \<Rightarrow> nat \<Rightarrow> op_2rus \<Rightarrow> operands \<Rightarrow> decoded" where
  "transform_2rus decodeCache pc issueWidth i ops = (case i of
      ADD_2rus \<Rightarrow> (F2rus (if ops ! 2 = 0 then ADD_mov_2rus else ADD_2rus), ops)
    | STW_2rus \<Rightarrow> (F2rus STW_2rus, ops[2 := push_bit 2 (ops ! 2)])
    | LDW_2rus \<Rightarrow> (F2rus LDW_2rus, ops[2 := push_bit 2 (ops ! 2)])
    | SHL_2rus \<Rightarrow> (F2rus (if ops ! 2 = 32 then SHL_32_2rus else SHL_2rus), ops)
    | SHR_2rus \<Rightarrow> (F2rus (if ops ! 2 = 32 then SHR_32_2rus else SHR_2rus), ops)
    | _ \<Rightarrow> (F2rus i, ops))"

definition transform_l2rus :: "dcache \<Rightarrow> u32 \<Rightarrow> nat \<Rightarrow> op_l2rus \<Rightarrow> operands \<Rightarrow> decoded" where
  "transform_l2rus decodeCache pc issueWidth i ops = (case i of
      LDAWF_l2rus \<Rightarrow> (Fl2rus LDAWF_l2rus, ops[2 := push_bit 2 (ops ! 2)])
    | LDAWB_l2rus \<Rightarrow> (Fl2rus LDAWB_l2rus, ops[2 := push_bit 2 (ops ! 2)])
    | ASHR_l2rus \<Rightarrow> (Fl2rus (if ops ! 2 = 32 then ASHR_32_l2rus else ASHR_l2rus), ops)
    | _ \<Rightarrow> (Fl2rus i, ops))"

definition transform_ru6 :: "dcache \<Rightarrow> u32 \<Rightarrow> nat \<Rightarrow> op_ru6 \<Rightarrow> operands \<Rightarrow> decoded" where
  "transform_ru6 decodeCache pc issueWidth i ops = (case i of
      STWDP_ru6 \<Rightarrow> (Fru6 STWDP_ru6, ops[1 := push_bit 2 (ops ! 1)])
    | STWSP_ru6 \<Rightarrow> (Fru6 STWSP_ru6, ops[1 := push_bit 2 (ops ! 1)])
    | LDWDP_ru6 \<Rightarrow> (Fru6 LDWDP_ru6, ops[1 := push_bit 2 (ops ! 1)])
    | LDWSP_ru6 \<Rightarrow> (Fru6 LDWSP_ru6, ops[1 := push_bit 2 (ops ! 1)])
    | LDAWDP_ru6 \<Rightarrow> (Fru6 LDAWDP_ru6, ops[1 := push_bit 2 (ops ! 1)])
    | LDAWSP_ru6 \<Rightarrow> (Fru6 LDAWSP_ru6, ops[1 := push_bit 2 (ops ! 1)])
    | LDWCP_ru6 \<Rightarrow> (Fru6 LDWCP_ru6, ops[1 := push_bit 2 (ops ! 1)])
    | BRFT_ru6 \<Rightarrow> (let target = pc + 1 + ops ! 1 * of_nat issueWidth in
        (Fru6 (if isValidPc decodeCache target then BRFT_ru6 else BRFT_illegal_ru6), ops[1 := target]))
    | BRBT_ru6 \<Rightarrow> (let target = pc + 1 - ops ! 1 * of_nat issueWidth in
        (Fru6 (if isValidPc decodeCache target then BRBT_ru6 else BRBT_illegal_ru6), ops[1 := target]))
    | BRFF_ru6 \<Rightarrow> (let target = pc + 1 + ops ! 1 * of_nat issueWidth in
        (Fru6 (if isValidPc decodeCache target then BRFF_ru6 else BRFF_illegal_ru6), ops[1 := target]))
    | BRBF_ru6 \<Rightarrow> (let target = pc + 1 - ops ! 1 * of_nat issueWidth in
        (Fru6 (if isValidPc decodeCache target then BRBF_ru6 else BRBF_illegal_ru6), ops[1 := target]))
    | _ \<Rightarrow> (Fru6 i, ops))"

definition transform_lru6 :: "dcache \<Rightarrow> u32 \<Rightarrow> nat \<Rightarrow> op_lru6 \<Rightarrow> operands \<Rightarrow> decoded" where
  "transform_lru6 decodeCache pc issueWidth i ops = (case i of
      STWDP_lru6 \<Rightarrow> (Flru6 STWDP_lru6, ops[1 := push_bit 2 (ops ! 1)])
    | STWSP_lru6 \<Rightarrow> (Flru6 STWSP_lru6, ops[1 := push_bit 2 (ops ! 1)])
    | LDWDP_lru6 \<Rightarrow> (Flru6 LDWDP_lru6, ops[1 := push_bit 2 (ops ! 1)])
    | LDWSP_lru6 \<Rightarrow> (Flru6 LDWSP_lru6, ops[1 := push_bit 2 (ops ! 1)])
    | LDAWDP_lru6 \<Rightarrow> (Flru6 LDAWDP_lru6, ops[1 := push_bit 2 (ops ! 1)])
    | LDAWSP_lru6 \<Rightarrow> (Flru6 LDAWSP_lru6, ops[1 := push_bit 2 (ops ! 1)])
    | LDWCP_lru6 \<Rightarrow> (Flru6 LDWCP_lru6, ops[1 := push_bit 2 (ops ! 1)])
    | BRFT_lru6 \<Rightarrow> (let target = pc + 2 + ops ! 1 * of_nat issueWidth in
        (Flru6 (if isValidPc decodeCache target then BRFT_lru6 else BRFT_illegal_lru6), ops[1 := target]))
    | BRBT_lru6 \<Rightarrow> (let target = pc + 2 - ops ! 1 * of_nat issueWidth in
        (Flru6 (if isValidPc decodeCache target then BRBT_lru6 else BRBT_illegal_lru6), ops[1 := target]))
    | BRFF_lru6 \<Rightarrow> (let target = pc + 2 + ops ! 1 * of_nat issueWidth in
        (Flru6 (if isValidPc decodeCache target then BRFF_lru6 else BRFF_illegal_lru6), ops[1 := target]))
    | BRBF_lru6 \<Rightarrow> (let target = pc + 2 - ops ! 1 * of_nat issueWidth in
        (Flru6 (if isValidPc decodeCache target then BRBF_lru6 else BRBF_illegal_lru6), ops[1 := target]))
    | _ \<Rightarrow> (Flru6 i, ops))"

definition transform_u6 :: "dcache \<Rightarrow> u32 \<Rightarrow> nat \<Rightarrow> op_u6 \<Rightarrow> operands \<Rightarrow> decoded" where
  "transform_u6 decodeCache pc issueWidth i ops = (case i of
      EXTDP_u6 \<Rightarrow> (Fu6 EXTDP_u6, ops[0 := push_bit 2 (ops ! 0)])
    | ENTSP_u6 \<Rightarrow> (Fu6 ENTSP_u6, ops[0 := push_bit 2 (ops ! 0)])
    | DUALENTSP_u6 \<Rightarrow> (Fu6 DUALENTSP_u6, ops[0 := push_bit 2 (ops ! 0)])
    | EXTSP_u6 \<Rightarrow> (Fu6 EXTSP_u6, ops[0 := push_bit 2 (ops ! 0)])
    | RETSP_u6 \<Rightarrow> (Fu6 RETSP_u6, ops[0 := push_bit 2 (ops ! 0)])
    | RETSP_xs2a_u6 \<Rightarrow> (Fu6 RETSP_xs2a_u6, ops[0 := push_bit 2 (ops ! 0)])
    | KENTSP_u6 \<Rightarrow> (Fu6 KENTSP_u6, ops[0 := push_bit 2 (ops ! 0)])
    | KRESTSP_u6 \<Rightarrow> (Fu6 KRESTSP_u6, ops[0 := push_bit 2 (ops ! 0)])
    | LDAWCP_u6 \<Rightarrow> (Fu6 LDAWCP_u6, ops[0 := push_bit 2 (ops ! 0)])
    | BRFU_u6 \<Rightarrow> (let target = pc + 1 + ops ! 0 * of_nat issueWidth in
        (Fu6 (if isValidPc decodeCache target then BRFU_u6 else BRFU_illegal_u6), ops[0 := target]))
    | BRBU_u6 \<Rightarrow> (let target = pc + 1 - ops ! 0 * of_nat issueWidth in
        (Fu6 (if isValidPc decodeCache target then BRBU_u6 else BRBU_illegal_u6), ops[0 := target]))
    | _ \<Rightarrow> (Fu6 i, ops))"

definition transform_lu6 :: "dcache \<Rightarrow> u32 \<Rightarrow> nat \<Rightarrow> op_lu6 \<Rightarrow> operands \<Rightarrow> decoded" where
  "transform_lu6 decodeCache pc issueWidth i ops = (case i of
      EXTDP_lu6 \<Rightarrow> (Flu6 EXTDP_lu6, ops[0 := push_bit 2 (ops ! 0)])
    | ENTSP_lu6 \<Rightarrow> (Flu6 ENTSP_lu6, ops[0 := push_bit 2 (ops ! 0)])
    | DUALENTSP_lu6 \<Rightarrow> (Flu6 DUALENTSP_lu6, ops[0 := push_bit 2 (ops ! 0)])
    | EXTSP_lu6 \<Rightarrow> (Flu6 EXTSP_lu6, ops[0 := push_bit 2 (ops ! 0)])
    | RETSP_lu6 \<Rightarrow> (Flu6 RETSP_lu6, ops[0 := push_bit 2 (ops ! 0)])
    | RETSP_xs2a_lu6 \<Rightarrow> (Flu6 RETSP_xs2a_lu6, ops[0 := push_bit 2 (ops ! 0)])
    | KENTSP_lu6 \<Rightarrow> (Flu6 KENTSP_lu6, ops[0 := push_bit 2 (ops ! 0)])
    | KRESTSP_lu6 \<Rightarrow> (Flu6 KRESTSP_lu6, ops[0 := push_bit 2 (ops ! 0)])
    | LDAWCP_lu6 \<Rightarrow> (Flu6 LDAWCP_lu6, ops[0 := push_bit 2 (ops ! 0)])
    | BRFU_lu6 \<Rightarrow> (let target = pc + 2 + ops ! 0 * of_nat issueWidth in
        (Flu6 (if isValidPc decodeCache target then BRFU_lu6 else BRFU_illegal_lu6), ops[0 := target]))
    | BRBU_lu6 \<Rightarrow> (let target = pc + 2 - ops ! 0 * of_nat issueWidth in
        (Flu6 (if isValidPc decodeCache target then BRBU_lu6 else BRBU_illegal_lu6), ops[0 := target]))
    | _ \<Rightarrow> (Flu6 i, ops))"

definition transform_u10 :: "dcache \<Rightarrow> u32 \<Rightarrow> nat \<Rightarrow> op_u10 \<Rightarrow> operands \<Rightarrow> decoded" where
  "transform_u10 decodeCache pc issueWidth i ops = (case i of
      LDWCPL_u10 \<Rightarrow> (Fu10 LDWCPL_u10, ops[0 := push_bit 2 (ops ! 0)])
    | LDAPB_u10 \<Rightarrow> (Fu10 LDAPB_u10, ops[0 := push_bit issueWidth (ops ! 0)])
    | LDAPF_u10 \<Rightarrow> (Fu10 LDAPF_u10, ops[0 := push_bit issueWidth (ops ! 0)])
    | BLRB_u10 \<Rightarrow> (let target = pc + 1 - ops ! 0 * of_nat issueWidth in
        (Fu10 (if isValidPc decodeCache target then BLRB_u10 else BLRB_illegal_u10), ops[0 := target]))
    | BLRF_u10 \<Rightarrow> (let target = pc + 1 + ops ! 0 * of_nat issueWidth in
        (Fu10 (if isValidPc decodeCache target then BLRF_u10 else BLRF_illegal_u10), ops[0 := target]))
    | _ \<Rightarrow> (Fu10 i, ops))"

definition transform_lu10 :: "dcache \<Rightarrow> u32 \<Rightarrow> nat \<Rightarrow> op_lu10 \<Rightarrow> operands \<Rightarrow> decoded" where
  "transform_lu10 decodeCache pc issueWidth i ops = (case i of
      LDWCPL_lu10 \<Rightarrow> (Flu10 LDWCPL_lu10, ops[0 := push_bit 2 (ops ! 0)])
    | LDAPB_lu10 \<Rightarrow> (Flu10 LDAPB_lu10, ops[0 := push_bit issueWidth (ops ! 0)])
    | LDAPF_lu10 \<Rightarrow> (Flu10 LDAPF_lu10, ops[0 := push_bit issueWidth (ops ! 0)])
    | BLRB_lu10 \<Rightarrow> (let target = pc + 2 - ops ! 0 * of_nat issueWidth in
        (Flu10 (if isValidPc decodeCache target then BLRB_lu10 else BLRB_illegal_lu10), ops[0 := target]))
    | BLRF_lu10 \<Rightarrow> (let target = pc + 2 + ops ! 0 * of_nat issueWidth in
        (Flu10 (if isValidPc decodeCache target then BLRF_lu10 else BLRF_illegal_lu10), ops[0 := target]))
    | _ \<Rightarrow> (Flu10 i, ops))"

definition transform_rus :: "dcache \<Rightarrow> u32 \<Rightarrow> nat \<Rightarrow> op_rus \<Rightarrow> operands \<Rightarrow> decoded" where
  "transform_rus decodeCache pc issueWidth i ops = (case i of
      MKMSK_rus \<Rightarrow> (Frus MKMSK_rus, ops[1 := makeMask (ops ! 1)])
    | _ \<Rightarrow> (Frus i, ops))"

definition instructionTransform ::
  "core \<Rightarrow> dcache \<Rightarrow> u32 \<Rightarrow> bool \<Rightarrow> decoded \<Rightarrow> decoded option" where
  "instructionTransform tile romDecodeCache address isDualIssue d = do {
     let issueWidth = (if isDualIssue then 2 else 1);
     decodeCache \<leftarrow> getDecodeCacheContaining tile romDecodeCache address;
     let pc = toPc decodeCache address;
     Some (case d of
         (F2rus i, ops) \<Rightarrow> transform_2rus decodeCache pc issueWidth i ops
       | (Fl2rus i, ops) \<Rightarrow> transform_l2rus decodeCache pc issueWidth i ops
       | (Fru6 i, ops) \<Rightarrow> transform_ru6 decodeCache pc issueWidth i ops
       | (Flru6 i, ops) \<Rightarrow> transform_lru6 decodeCache pc issueWidth i ops
       | (Fu6 i, ops) \<Rightarrow> transform_u6 decodeCache pc issueWidth i ops
       | (Flu6 i, ops) \<Rightarrow> transform_lu6 decodeCache pc issueWidth i ops
       | (Fu10 i, ops) \<Rightarrow> transform_u10 decodeCache pc issueWidth i ops
       | (Flu10 i, ops) \<Rightarrow> transform_lu10 decodeCache pc issueWidth i ops
       | (Frus i, ops) \<Rightarrow> transform_rus decodeCache pc issueWidth i ops
       | _ \<Rightarrow> d)
   }"

text \<open>
  What \<open>Instruction_DECODE\<close> computes for an address.  Its local \<open>opc\<close> is not
  initialised: \<open>DECODE\<close>, which the decoder never assigns, marks this, and
  using the opcode when it is still unassigned is undefined.  \<open>ops0\<close> stands
  for the uninitialised operands.
\<close>

definition decode_at :: "core \<Rightarrow> dcache \<Rightarrow> u32 \<Rightarrow> bool \<Rightarrow> operands \<Rightarrow> decoded option" where
  "decode_at tile romDecodeCache address isDualIssue ops0 = do {
     d \<leftarrow> instructionDecode_core tile address False (Fpseudo DECODE, ops0);
     assert_that (fst d \<noteq> Fpseudo DECODE);
     instructionTransform tile romDecodeCache address isDualIssue d
   }"

text \<open>
  \<open>Instruction_DECODE<tracing>\<close> run by a thread in RAM: \<open>pc\<close> and \<open>isDualIssue\<close>
  are the thread's.
\<close>

definition Instruction_DECODE ::
  "bool \<Rightarrow> u32 \<Rightarrow> bool \<Rightarrow> operands \<Rightarrow> dcache \<Rightarrow> core \<Rightarrow> core option" where
  "Instruction_DECODE tracing pc isDualIssue ops0 romDecodeCache c = do {
     let address = fromRamPc c pc;
     (opc, ops) \<leftarrow> decode_at c romDecodeCache address isDualIssue ops0;
     dc \<leftarrow> setOpcode pc (opc, tracing) ops (inst_size opc) (ramDecodeCache c);
     Some (c\<lparr>ramDecodeCache := dc\<rparr>)
   }"

text \<open>
  The generated code of a store: \<open>Store_exception\<close> is the jump to the
  exception \<open>ET_LOAD_STORE\<close>; otherwise the store is done and \<open>end_trace\<close> and
  \<open>watchpointHit\<close> say what the handler does next.
\<close>

datatype store_outcome =
  Store_exception u32
| Stored (end_trace: bool) (watchpointHit: bool)

definition CHECK_ADDR_RAM_BYTE :: "u32 \<Rightarrow> core \<Rightarrow> bool" where
  "CHECK_ADDR_RAM_BYTE addr c \<longleftrightarrow> isValidRamAddress c addr"

definition CHECK_ADDR_RAM_SHORT :: "u32 \<Rightarrow> core \<Rightarrow> bool" where
  "CHECK_ADDR_RAM_SHORT addr c \<longleftrightarrow> addr AND 1 = 0 \<and> isValidRamAddress c addr"

definition CHECK_ADDR_RAM_WORD :: "u32 \<Rightarrow> core \<Rightarrow> bool" where
  "CHECK_ADDR_RAM_WORD addr c \<longleftrightarrow> addr AND 3 = 0 \<and> isValidRamAddress c addr"

definition emitStore_WORD :: "u32 \<Rightarrow> u32 \<Rightarrow> core \<Rightarrow> (store_outcome \<times> core) option" where
  "emitStore_WORD value StoreAddr c =
     (if \<not> CHECK_ADDR_RAM_WORD StoreAddr c then Some (Store_exception StoreAddr, c)
      else do {
        c \<leftarrow> storeWord value StoreAddr c;
        (invalidated, c) \<leftarrow> invalidateWord StoreAddr c;
        Some (Stored invalidated (hitWatchpoint WRITE StoreAddr 4 c), c)
      })"

definition emitStore_SHORT :: "u16 \<Rightarrow> u32 \<Rightarrow> core \<Rightarrow> (store_outcome \<times> core) option" where
  "emitStore_SHORT value StoreAddr c =
     (if \<not> CHECK_ADDR_RAM_SHORT StoreAddr c then Some (Store_exception StoreAddr, c)
      else do {
        c \<leftarrow> storeShort value StoreAddr c;
        (invalidated, c) \<leftarrow> invalidateShort StoreAddr c;
        Some (Stored invalidated (hitWatchpoint WRITE StoreAddr 2 c), c)
      })"

definition emitStore_BYTE :: "u8 \<Rightarrow> u32 \<Rightarrow> core \<Rightarrow> (store_outcome \<times> core) option" where
  "emitStore_BYTE value StoreAddr c =
     (if \<not> CHECK_ADDR_RAM_BYTE StoreAddr c then Some (Store_exception StoreAddr, c)
      else do {
        c \<leftarrow> storeByte value StoreAddr c;
        (invalidated, c) \<leftarrow> invalidateByte StoreAddr c;
        Some (Stored invalidated (hitWatchpoint WRITE StoreAddr 1 c), c)
      })"

subsection \<open>Properties of the transformation\<close>

lemmas transform_defs =
  transform_2rus_def transform_l2rus_def transform_ru6_def transform_lru6_def
  transform_u6_def transform_lu6_def transform_u10_def transform_lu10_def transform_rus_def

lemma transform_size:
  "inst_size (fst (transform_2rus dc pc w a ops)) = 2"
  "inst_size (fst (transform_l2rus dc pc w b ops)) = 4"
  "inst_size (fst (transform_ru6 dc pc w e ops)) = 2"
  "inst_size (fst (transform_lru6 dc pc w f ops)) = 4"
  "inst_size (fst (transform_u6 dc pc w g ops)) = 2"
  "inst_size (fst (transform_lu6 dc pc w h ops)) = 4"
  "inst_size (fst (transform_u10 dc pc w i ops)) = 2"
  "inst_size (fst (transform_lu10 dc pc w j ops)) = 4"
  "inst_size (fst (transform_rus dc pc w k ops)) = 2"
  by (cases a, auto simp: transform_2rus_def inst_size_def)
    (cases b, auto simp: transform_l2rus_def inst_size_def,
     cases e, auto simp: transform_ru6_def inst_size_def Let_def,
     cases f, auto simp: transform_lru6_def inst_size_def Let_def,
     cases g, auto simp: transform_u6_def inst_size_def Let_def,
     cases h, auto simp: transform_lu6_def inst_size_def Let_def,
     cases i, auto simp: transform_u10_def inst_size_def Let_def,
     cases j, auto simp: transform_lu10_def inst_size_def Let_def,
     cases k, auto simp: transform_rus_def inst_size_def Let_def)

lemma instructionTransform_size:
  assumes "instructionTransform c romdc address dual d = Some d'"
  shows "inst_size (fst d') = inst_size (fst d)"
  using assms
  by (cases d; cases "fst d")
    (auto simp: instructionTransform_def Let_def transform_size bind_eq_Some_conv,
     auto simp: inst_size_def)

text \<open>
  The target of a branch or call instruction whose pc is resolved at decode
  time; the variants \<open>_illegal_\<close> raise an exception instead of jumping.
\<close>

definition branch_target :: "decoded \<Rightarrow> u32 option" where
  "branch_target d = (case d of
      (Fru6 i, ops) \<Rightarrow> if i \<in> {BRFT_ru6, BRBT_ru6, BRFF_ru6, BRBF_ru6} then Some (ops ! 1) else None
    | (Flru6 i, ops) \<Rightarrow> if i \<in> {BRFT_lru6, BRBT_lru6, BRFF_lru6, BRBF_lru6} then Some (ops ! 1) else None
    | (Fu6 i, ops) \<Rightarrow> if i \<in> {BRFU_u6, BRBU_u6} then Some (ops ! 0) else None
    | (Flu6 i, ops) \<Rightarrow> if i \<in> {BRFU_lu6, BRBU_lu6} then Some (ops ! 0) else None
    | (Fu10 i, ops) \<Rightarrow> if i \<in> {BLRF_u10, BLRB_u10} then Some (ops ! 0) else None
    | (Flu10 i, ops) \<Rightarrow> if i \<in> {BLRF_lu10, BLRB_lu10} then Some (ops ! 0) else None
    | _ \<Rightarrow> None)"

lemma transform_target:
  assumes "length ops = 6"
  shows "branch_target (transform_ru6 dc pc w e ops) = Some t \<Longrightarrow> isValidPc dc t"
    and "branch_target (transform_lru6 dc pc w f ops) = Some t \<Longrightarrow> isValidPc dc t"
    and "branch_target (transform_u6 dc pc w g ops) = Some t \<Longrightarrow> isValidPc dc t"
    and "branch_target (transform_lu6 dc pc w h ops) = Some t \<Longrightarrow> isValidPc dc t"
    and "branch_target (transform_u10 dc pc w i ops) = Some t \<Longrightarrow> isValidPc dc t"
    and "branch_target (transform_lu10 dc pc w j ops) = Some t \<Longrightarrow> isValidPc dc t"
  using assms
  by - ((cases e; auto simp: transform_ru6_def branch_target_def Let_def split: if_splits),
     (cases f; auto simp: transform_lru6_def branch_target_def Let_def split: if_splits),
     (cases g; auto simp: transform_u6_def branch_target_def Let_def split: if_splits),
     (cases h; auto simp: transform_lu6_def branch_target_def Let_def split: if_splits),
     (cases i; auto simp: transform_u10_def branch_target_def Let_def split: if_splits),
     (cases j; auto simp: transform_lu10_def branch_target_def Let_def split: if_splits))

lemma transform_no_target:
  "branch_target (transform_2rus dc pc w a ops) = None"
  "branch_target (transform_l2rus dc pc w b ops) = None"
  "branch_target (transform_rus dc pc w k ops) = None"
  by (cases a; simp add: transform_2rus_def branch_target_def)
    ((cases b; simp add: transform_l2rus_def branch_target_def),
     (cases k; simp add: transform_rus_def branch_target_def))

lemma instructionTransform_target:
  assumes "instructionTransform c romdc address dual d = Some d'" "length (snd d) = 6"
    "branch_target d' = Some t"
  shows "\<exists>dc. getDecodeCacheContaining c romdc address = Some dc \<and> isValidPc dc t"
proof -
  obtain opc ops where d: "d = (opc, ops)"
    by (cases d)
  from assms(1) obtain dc where dc: "getDecodeCacheContaining c romdc address = Some dc"
    by (cases "getDecodeCacheContaining c romdc address") (auto simp: instructionTransform_def Let_def)
  with assms d show ?thesis
    by (cases opc)
      (auto simp: instructionTransform_def Let_def transform_no_target dest: transform_target,
       auto simp: branch_target_def)
qed

subsection \<open>Decoding at an address\<close>

text \<open>The decoder's view of memory at an address: two half-words, the second one perhaps absent.\<close>

definition fetch :: "core \<Rightarrow> u32 \<Rightarrow> (u16 \<times> u16 option) option" where
  "fetch c address = do {
     low \<leftarrow> loadShort c address;
     (if isValidAddress c (address + 2) then do {
        high \<leftarrow> loadShort c (address + 2);
        Some (low, Some high)
      }
      else Some (low, None))
   }"

definition decode_halves :: "NodeType \<Rightarrow> u16 \<times> u16 option \<Rightarrow> decoded \<Rightarrow> decoded option" where
  "decode_halves ty h d =
     (case h of (low, Some high) \<Rightarrow> instructionDecode low high True ty d
      | (low, None) \<Rightarrow> instructionDecode low 0 False ty d)"

lemma instructionDecode_core_eq:
  "instructionDecode_core c address ib d =
     (if \<not> (address AND 1 = 0 \<and> isValidAddress c address) then None
      else if \<not> ib \<and> isBreakpointAddress c address then Some (Fpseudo BREAKPOINT, snd d)
      else Option.bind (fetch c address) (\<lambda>h. decode_halves (nodeType c) h d))"
  by (auto simp: instructionDecode_core_def fetch_def decode_halves_def assert_that_def
      split: bind_splits)

definition is_prefix :: "u16 \<Rightarrow> bool" where
  "is_prefix low \<longleftrightarrow> 0x1e \<le> bitRange (ucast low) 15 11"

lemma decode_halves_good:
  assumes "length ops0 = 6"
  shows "decode_good (if is_prefix low \<and> h \<noteq> None then 4 else 2) (opc0, ops0)
    (decode_halves ty (low, h) (opc0, ops0))"
  using assms
    instructionDecode_good [of "(opc0, ops0)" low False 0 ty]
    instructionDecode_good [of "(opc0, ops0)" low True "the h" ty]
  by (cases h) (auto simp: decode_halves_def is_prefix_def)

text \<open>An instruction that takes one half-word does not depend on the next one.\<close>

lemma instructionDecode_short:
  assumes "\<not> is_prefix low"
  shows "instructionDecode low high hv ty d = instructionDecode low 0 False ty d"
proof -
  have "bitRange (ucast low) 15 11 \<noteq> (0x1e :: u32)" "bitRange (ucast low) 15 11 \<noteq> (0x1f :: u32)"
    using assms by (auto simp: is_prefix_def)
  then show ?thesis
    by (simp add: instructionDecode_def Let_def switch_def)
qed

lemma decode_halves_cong:
  assumes "length ops0 = 6" "decode_halves ty (low, h) (Fpseudo DECODE, ops0) = Some d"
    "fst d \<noteq> Fpseudo DECODE" "inst_size (fst d) \<noteq> 4" "h = None \<longleftrightarrow> h' = None"
  shows "decode_halves ty (low, h') (Fpseudo DECODE, ops0) = Some d"
proof -
  from decode_halves_good [OF assms(1), of low h "Fpseudo DECODE" ty] assms(2-4)
  have "\<not> (is_prefix low \<and> h \<noteq> None)"
    by (auto simp: decode_good_def split: if_splits)
  with assms(2,5) show ?thesis
    by (cases h; cases h')
      (auto simp: decode_halves_def instructionDecode_short [where hv = True])
qed

lemma decode_at_eq_Some:
  "decode_at c romdc address dual ops0 = Some d' \<longleftrightarrow>
    address AND 1 = 0 \<and> isValidAddress c address \<and>
    (\<exists>d. instructionTransform c romdc address dual d = Some d' \<and> fst d \<noteq> Fpseudo DECODE \<and>
      (if isBreakpointAddress c address then d = (Fpseudo BREAKPOINT, ops0)
       else \<exists>h. fetch c address = Some h \<and> decode_halves (nodeType c) h (Fpseudo DECODE, ops0) = Some d))"
  unfolding decode_at_def instructionDecode_core_eq
  by (auto simp: assert_that_def split: bind_splits if_splits)

lemma decode_at_length:
  assumes "(if bp then d = (Fpseudo BREAKPOINT, ops0)
       else \<exists>h. fetch c address = Some h \<and> decode_halves ty h (Fpseudo DECODE, ops0) = Some d)"
    "length ops0 = 6"
  shows "length (snd d) = 6"
proof (cases bp)
  case False
  with assms(1) obtain low h where "decode_halves ty (low, h) (Fpseudo DECODE, ops0) = Some d"
    by auto
  with decode_halves_good [OF assms(2), of low h "Fpseudo DECODE" ty] assms(2) show ?thesis
    by (auto simp: decode_good_def operands_ok_def)
qed (use assms in simp)

end
