(* ===== verification/ThreadState.thy ===== *)
theory ThreadState
  imports Transform
begin

text \<open>
  The class \<open>Thread\<close> (\<open>Thread.h\<close>, \<open>Thread.cpp\<close>) as far as it concerns one
  thread and its core: the register file with the write buffer of the dual
  issue mode, the status register, the thread's copy of a decode cache state,
  and \<open>exception\<close> of \<open>InstructionHelpers.cpp\<close>.

  The thread copies the struct \<open>DecodeCache::State\<close>.  Its pointers identify
  the arrays of the RAM cache or of the ROM cache; the scalars of the struct
  are copied.  Objects that a thread points to are named by numbers.
\<close>

subsection \<open>Registers\<close>

text \<open>The enumeration \<open>Register::Reg\<close>; the numbers are the operands of instructions.\<close>

abbreviation (input) R11 :: nat where "R11 \<equiv> 11"
abbreviation (input) CP :: nat where "CP \<equiv> 12"
abbreviation (input) DP :: nat where "DP \<equiv> 13"
abbreviation (input) SP :: nat where "SP \<equiv> 14"
abbreviation (input) LR :: nat where "LR \<equiv> 15"
abbreviation (input) ET :: nat where "ET \<equiv> 16"
abbreviation (input) ED :: nat where "ED \<equiv> 17"
abbreviation (input) KEP :: nat where "KEP \<equiv> 18"
abbreviation (input) KSP :: nat where "KSP \<equiv> 19"
abbreviation (input) SPC :: nat where "SPC \<equiv> 20"
abbreviation (input) SED :: nat where "SED \<equiv> 21"
abbreviation (input) SSR :: nat where "SSR \<equiv> 22"
abbreviation (input) NUM_REGISTERS :: nat where "NUM_REGISTERS \<equiv> 23"

datatype ExceptionType =
  ET_LINK_ERROR | ET_ILLEGAL_PC | ET_ILLEGAL_INSTRUCTION | ET_ILLEGAL_RESOURCE | ET_LOAD_STORE
| ET_ILLEGAL_PS | ET_ARITHMETIC | ET_ECALL | ET_RESOURCE_DEP | ET_KCALL

definition exception_number :: "ExceptionType \<Rightarrow> u32" where
  "exception_number et = (case et of
      ET_LINK_ERROR \<Rightarrow> 1 | ET_ILLEGAL_PC \<Rightarrow> 2 | ET_ILLEGAL_INSTRUCTION \<Rightarrow> 3
    | ET_ILLEGAL_RESOURCE \<Rightarrow> 4 | ET_LOAD_STORE \<Rightarrow> 5 | ET_ILLEGAL_PS \<Rightarrow> 6
    | ET_ARITHMETIC \<Rightarrow> 7 | ET_ECALL \<Rightarrow> 8 | ET_RESOURCE_DEP \<Rightarrow> 9 | ET_KCALL \<Rightarrow> 15)"

subsection \<open>The status register\<close>

type_synonym sr_t = "11 word"

abbreviation (input) EEBLE :: nat where "EEBLE \<equiv> 0"
abbreviation (input) IEBLE :: nat where "IEBLE \<equiv> 1"
abbreviation (input) INENB :: nat where "INENB \<equiv> 2"
abbreviation (input) ININT :: nat where "ININT \<equiv> 3"
abbreviation (input) INK :: nat where "INK \<equiv> 4"
abbreviation (input) WAITING :: nat where "WAITING \<equiv> 6"
abbreviation (input) DI :: nat where "DI \<equiv> 8"

text \<open>Assignment to a bit of a \<open>std::bitset\<close>.\<close>

definition sr_set :: "nat \<Rightarrow> bool \<Rightarrow> sr_t \<Rightarrow> sr_t" where
  "sr_set n b sr = (if b then set_bit n sr else unset_bit n sr)"

subsection \<open>State\<close>

text \<open>\<open>DecodeCache::State\<close> by value: which arrays, and the copied scalars.\<close>

record dc_state =
  dv_rom :: bool
  dv_size :: u32
  dv_base :: u32
  dv_tracing :: bool

definition dc_copy :: "bool \<Rightarrow> dcache \<Rightarrow> dc_state" where
  "dc_copy isRom dc = \<lparr>dv_rom = isRom, dv_size = dc_size dc, dv_base = dc_base dc,
     dv_tracing = dc_tracingEnabled dc\<rparr>"

text \<open>\<open>'s\<close> names synchronisers and \<open>'r\<close> the resources a thread can be paused on.\<close>

record ('s, 'r) thread =
  inUse :: bool
  thread_num :: u32
  ssync :: bool
  sync :: "'s option"
  decodeCache :: dc_state
  dualIssue :: bool
  regs :: "u32 list"
  regsBuffer :: "u32 list"
  bufferInitialized :: bool
  pc :: u32
  time :: ticks_t
  sr :: sr_t
  pendingPc :: u32
  pausedOn :: "'r option"
  instructionCycles :: u32

text \<open>
  The constructor followed by \<open>setParent\<close> and \<open>setNum\<close> in the constructor of
  the core and by \<open>Core::finalize\<close>, which sets the cycles of an instruction.  The members the constructor leaves
  uninitialised are arguments.
\<close>

definition Thread_new ::
  "core \<Rightarrow> u32 \<Rightarrow> bool \<Rightarrow> 's option \<Rightarrow> u32 \<Rightarrow> 'r option \<Rightarrow> ('s, 'r) thread" where
  "Thread_new c num ssync0 sync0 pendingPc0 pausedOn0 =
     \<lparr>inUse = False, thread_num = num, ssync = ssync0, sync = sync0,
      decodeCache = dc_copy False (ramDecodeCache c),
      dualIssue = False,
      regs = replicate NUM_REGISTERS 0, regsBuffer = replicate NUM_REGISTERS 0,
      bufferInitialized = True, pc = 0, time = 0, sr = 0, pendingPc = pendingPc0,
      pausedOn = pausedOn0,
      instructionCycles = (if nodeType c = XS2_A then 5 else 4)\<rparr>"

subsection \<open>Register writes\<close>

text \<open>\<open>regs.swap(regsBuffer)\<close>\<close>

definition swap_buffers :: "('s, 'r) thread \<Rightarrow> ('s, 'r) thread" where
  "swap_buffers t = t\<lparr>regs := regsBuffer t, regsBuffer := regs t\<rparr>"

definition doPendingRegWrites :: "('s, 'r) thread \<Rightarrow> ('s, 'r) thread" where
  "doPendingRegWrites t =
     (if bufferInitialized t then (swap_buffers t)\<lparr>bufferInitialized := False\<rparr> else t)"

definition setDualIssue :: "bool \<Rightarrow> ('s, 'r) thread \<Rightarrow> ('s, 'r) thread" where
  "setDualIssue di t = (
     let t = (if dualIssue t \<and> \<not> di then
                (if bufferInitialized t then (swap_buffers t)\<lparr>bufferInitialized := False\<rparr> else t)
              else t) in
     t\<lparr>dualIssue := di\<rparr>)"

definition set_reg :: "nat \<Rightarrow> u32 \<Rightarrow> ('s, 'r) thread \<Rightarrow> ('s, 'r) thread option" where
  "set_reg index value t = do {
     rs \<leftarrow> array_set (regs t) index value;
     Some (t\<lparr>regs := rs\<rparr>)
   }"

definition writeRegister :: "nat \<Rightarrow> u32 \<Rightarrow> ('s, 'r) thread \<Rightarrow> ('s, 'r) thread option" where
  "writeRegister index value t =
     (if \<not> dualIssue t then set_reg index value t
      else
        let t = (if \<not> bufferInitialized t
                 then t\<lparr>regsBuffer := regs t, bufferInitialized := True\<rparr> else t) in
        do {
          rs \<leftarrow> array_set (regsBuffer t) index value;
          Some (t\<lparr>regsBuffer := rs\<rparr>)
        })"

definition readRegisterForTrace :: "nat \<Rightarrow> ('s, 'r) thread \<Rightarrow> u32 option" where
  "readRegisterForTrace index t =
     (if bufferInitialized t then array_get (regsBuffer t) index else array_get (regs t) index)"

definition addTime :: "ticks_t \<Rightarrow> ('s, 'r) thread \<Rightarrow> ('s, 'r) thread" where
  "addTime value t = (
     let value = value * ucast (instructionCycles t) in
     if \<not> dualIssue t \<or> pc t mod 2 = 0 then t\<lparr>time := time t + value\<rparr> else t)"

subsection \<open>Allocation\<close>

definition Thread_alloc :: "ticks_t \<Rightarrow> ('s, 'r) thread \<Rightarrow> ('s, 'r) thread option" where
  "Thread_alloc tm t = do {
     assert_that (\<not> inUse t);
     Some (t\<lparr>inUse := True, sync := None, ssync := True, time := tm, pausedOn := None\<rparr>)
   }"

definition Thread_free :: "('s, 'r) thread \<Rightarrow> ('s, 'r) thread" where
  "Thread_free t = t\<lparr>inUse := False\<rparr>"

definition setSync :: "'s \<Rightarrow> ('s, 'r) thread \<Rightarrow> ('s, 'r) thread option" where
  "setSync s t = do {
     assert_that (sync t = None);
     Some (t\<lparr>sync := Some s\<rparr>)
   }"

definition setSSync :: "bool \<Rightarrow> ('s, 'r) thread \<Rightarrow> ('s, 'r) thread" where
  "setSSync value t = t\<lparr>ssync := value\<rparr>"

subsection \<open>The program counter\<close>

definition thread_fromPc :: "('s, 'r) thread \<Rightarrow> u32 \<Rightarrow> u32" where
  "thread_fromPc t p = push_bit 1 p + dv_base (decodeCache t)"

definition thread_toPc :: "('s, 'r) thread \<Rightarrow> u32 \<Rightarrow> u32" where
  "thread_toPc t address = drop_bit 1 (address - dv_base (decodeCache t))"

definition dv_contains :: "dc_state \<Rightarrow> u32 \<Rightarrow> bool" where
  "dv_contains dv address \<longleftrightarrow> drop_bit 1 (address - dv_base dv) < dv_size dv"

definition isInRam :: "core \<Rightarrow> ('s, 'r) thread \<Rightarrow> bool" where
  "isInRam c t \<longleftrightarrow> dv_base (decodeCache t) = dc_base (ramDecodeCache c)"

definition seeRamDecodeCacheChange :: "core \<Rightarrow> dcache \<Rightarrow> ('s, 'r) thread \<Rightarrow> ('s, 'r) thread" where
  "seeRamDecodeCacheChange c romdc t =
     (if dv_base (decodeCache t) = dc_base romdc then t
      else t\<lparr>decodeCache := dc_copy False (ramDecodeCache c)\<rparr>)"

definition tryUpdateDecodeCache ::
  "core \<Rightarrow> dcache \<Rightarrow> u32 \<Rightarrow> ('s, 'r) thread \<Rightarrow> (bool \<times> ('s, 'r) thread) option" where
  "tryUpdateDecodeCache c romdc address t = do {
     assert_that (address AND 1 = 0);
     Some (if \<not> dv_contains (decodeCache t) address then
             (if isValidRamAddress c address
              then (True, t\<lparr>decodeCache := dc_copy False (ramDecodeCache c)\<rparr>)
              else if isValidRomAddress c address
              then (True, t\<lparr>decodeCache := dc_copy True romdc\<rparr>)
              else (False, t))
           else (True, t))
   }"

definition setPcFromAddress ::
  "core \<Rightarrow> dcache \<Rightarrow> u32 \<Rightarrow> ('s, 'r) thread \<Rightarrow> ('s, 'r) thread option" where
  "setPcFromAddress c romdc address t = do {
     (updateOk, t) \<leftarrow> tryUpdateDecodeCache c romdc address t;
     assert_that updateOk;
     Some (t\<lparr>pc := thread_toPc t address\<rparr>)
   }"

definition getRealPc :: "core \<Rightarrow> ('s, 'r) thread \<Rightarrow> u32" where
  "getRealPc c t =
     (if pc t = getInterpretOneAddr c \<or> pc t = getRunJitAddr c then thread_fromPc t (pendingPc t)
      else thread_fromPc t (pc t))"

definition getNextPC :: "core \<Rightarrow> ('s, 'r) thread \<Rightarrow> ('s, 'r) thread" where
  "getNextPC c t =
     (if pc t = getInterpretOneAddr c \<or> pc t = getRunJitAddr c then t\<lparr>pc := pendingPc t + 1\<rparr>
      else t\<lparr>pc := pc t + 1\<rparr>)"

text \<open>\<open>CHECK_PC\<close> as \<open>Thread.cpp\<close> defines it for the interpreter.\<close>

definition CHECK_PC :: "core \<Rightarrow> u32 \<Rightarrow> bool" where
  "CHECK_PC c p \<longleftrightarrow> drop_bit (ramSizeLog2 c - 1) p = 0"

subsection \<open>Exceptions\<close>

text \<open>
  \<open>axe::exception\<close>.  It returns the pc of the handler; without a usable
  kernel entry point the simulator aborts.
\<close>

definition exception ::
  "core \<Rightarrow> u32 \<Rightarrow> ExceptionType \<Rightarrow> u32 \<Rightarrow> ('s, 'r) thread \<Rightarrow> (u32 \<times> ('s, 'r) thread) option" where
  "exception c p et ed t = do {
     sed \<leftarrow> array_get (regs t) ED;
     let spc = thread_fromPc t p;
     t \<leftarrow> set_reg SSR sed t;
     t \<leftarrow> set_reg SPC spc t;
     t \<leftarrow> set_reg SED sed t;
     let t = t\<lparr>sr := sr_set IEBLE False (sr_set EEBLE False (sr_set INK True (sr t)))\<rparr>;
     t \<leftarrow> set_reg ET (exception_number et) t;
     t \<leftarrow> set_reg ED ed t;
     kep \<leftarrow> array_get (regs t) KEP;
     let newPc = (if et = ET_KCALL then kep + 64 else kep);
     assert_that (\<not> (newPc AND 1 \<noteq> 0 \<or> \<not> isValidRamAddress c newPc));
     Some (thread_toPc t newPc, t)
   }"

end
