(* ===== verification/Arith.thy ===== *)
theory Arith
  imports BitManip "HOL-Library.Signed_Division"
begin

text \<open>
  The computations of the arithmetic instructions, as the code strings of
  \<open>InstructionGen.cpp\<close> write them: functions of the operand values at the
  width of the C++ types.  The result \<open>None\<close> is the exception
  \<open>ET_ARITHMETIC\<close> for the divisions.
\<close>

subsection \<open>Single word results\<close>

definition SHL_value :: "u32 \<Rightarrow> u32 \<Rightarrow> u32" where
  "SHL_value x n = (if 32 \<le> n then 0 else push_bit (unat n) x)"

definition SHR_value :: "u32 \<Rightarrow> u32 \<Rightarrow> u32" where
  "SHR_value x n = (if 32 \<le> n then 0 else drop_bit (unat n) x)"

definition ASHR_value :: "u32 \<Rightarrow> u32 \<Rightarrow> u32" where
  "ASHR_value x n = (if 32 \<le> n then signed_drop_bit 31 x else signed_drop_bit (unat n) x)"

definition DIVS_value :: "u32 \<Rightarrow> u32 \<Rightarrow> u32 option" where
  "DIVS_value x y =
     (if y = 0 \<or> (x = 0x80000000 \<and> y = 0xffffffff) then None
      else Some (word_of_int (sint x sdiv sint y)))"

definition REMS_value :: "u32 \<Rightarrow> u32 \<Rightarrow> u32 option" where
  "REMS_value x y =
     (if y = 0 \<or> (x = 0x80000000 \<and> y = 0xffffffff) then None
      else Some (word_of_int (sint x smod sint y)))"

definition DIVU_value :: "u32 \<Rightarrow> u32 \<Rightarrow> u32 option" where
  "DIVU_value x y = (if y = 0 then None else Some (x div y))"

definition REMU_value :: "u32 \<Rightarrow> u32 \<Rightarrow> u32 option" where
  "REMU_value x y = (if y = 0 then None else Some (x mod y))"

text \<open>The array \<open>bitp_map\<close> of \<open>LEXTRACT\<close>; the index is an immediate operand.\<close>

definition bitp_map :: "nat list" where
  "bitp_map = [32, 1, 2, 3, 4, 5, 6, 7, 8, 16, 24, 32]"

definition LEXTRACT_value :: "u32 \<Rightarrow> u32 \<Rightarrow> u32 \<Rightarrow> nat \<Rightarrow> u32" where
  "LEXTRACT_value x1 x2 x3 bitp = (
     let r = (if 32 \<le> x2 then x3
              else if x2 = 0 then x1
              else drop_bit (unat x2) x1 OR push_bit (32 - unat x2) x3) in
     if bitp < 32 then r AND (push_bit bitp 1 - 1) else r)"

subsection \<open>Double word results\<close>

text \<open>Pairs are (most significant word, least significant word).\<close>

definition LADD_value :: "u32 \<Rightarrow> u32 \<Rightarrow> u32 \<Rightarrow> u32 \<times> u32" where
  "LADD_value x y carry = (
     let Result = ucast x + ucast y + ucast (carry AND 1) :: u64 in
     (ucast (drop_bit 32 Result), ucast Result))"

definition LSUB_value :: "u32 \<Rightarrow> u32 \<Rightarrow> u32 \<Rightarrow> u32 \<times> u32" where
  "LSUB_value x y borrow = (
     let Result = ucast x - ucast y - ucast (borrow AND 1) :: u64 in
     (ucast (drop_bit 32 Result) AND 1, ucast Result))"

definition LMUL_value :: "u32 \<Rightarrow> u32 \<Rightarrow> u32 \<Rightarrow> u32 \<Rightarrow> u32 \<times> u32" where
  "LMUL_value x y a b = (
     let Result = ucast x * ucast y + ucast a + ucast b :: u64 in
     (ucast (drop_bit 32 Result), ucast Result))"

definition MACCU_value :: "u32 \<Rightarrow> u32 \<Rightarrow> u32 \<Rightarrow> u32 \<Rightarrow> u32 \<times> u32" where
  "MACCU_value hi lo x y = (
     let Result = (push_bit 32 (ucast hi) OR ucast lo) + ucast x * ucast y :: u64 in
     (ucast (drop_bit 32 Result), ucast Result))"

definition MACCS_value :: "u32 \<Rightarrow> u32 \<Rightarrow> u32 \<Rightarrow> u32 \<Rightarrow> u32 \<times> u32" where
  "MACCS_value hi lo x y = (
     let Result = push_bit 32 (ucast hi) OR ucast lo :: u64;
         Result = Result + scast x * scast y in
     (ucast (drop_bit 32 Result), ucast Result))"

text \<open>Quotient and remainder of the double word \<open>hi:lo\<close>.\<close>

definition LDIVU_value :: "u32 \<Rightarrow> u32 \<Rightarrow> u32 \<Rightarrow> (u32 \<times> u32) option" where
  "LDIVU_value hi lo y =
     (if y \<le> hi then None
      else
        let dividend = ucast lo + push_bit 32 (ucast hi) :: u64 in
        Some (ucast (dividend div ucast y), ucast (dividend mod ucast y)))"

definition LSATS_value :: "u32 \<Rightarrow> u32 \<Rightarrow> u32 \<Rightarrow> u32 \<times> u32" where
  "LSATS_value x0 x1 x2 =
     (if 0 < x2 \<and> x2 < 32 then
        let sign_word = signed_drop_bit (unat x2 - 1) x0;
            sign_bit = drop_bit 31 x0 AND 1 in
        if sign_bit \<noteq> 0 then
          (if sign_word \<noteq> NOT 0 then (push_bit (unat x2 - 1) (NOT 0), 0) else (x0, x1))
        else
          (if sign_word \<noteq> 0 then (NOT (push_bit (unat x2 - 1) (NOT 0)), NOT 0) else (x0, x1))
      else (x0, x1))"

subsection \<open>Interleaving\<close>

text \<open>
  The loops of \<open>ZIP\<close> and \<open>UNZIP\<close> with the loop counter \<open>i\<close>; \<open>s\<close> is
  \<open>zip_spacing\<close>.  State: (\<open>op0shift\<close>, \<open>op1shift\<close>, \<open>op0\<close>, \<open>op1\<close>).
\<close>

function zip_loop :: "nat \<Rightarrow> nat \<Rightarrow> u32 \<Rightarrow> u32 \<Rightarrow> u32 \<Rightarrow> u32 \<Rightarrow> u32 \<times> u32" where
  "zip_loop s i op0shift op1shift op0 op1 =
     (if i < 2 * 32 \<and> 0 < s then
        let mask = push_bit s 1 - 1;
            op0_masked = op0shift AND mask;
            op1_masked = op1shift AND mask;
            zipped = push_bit s op0_masked OR op1_masked in
        (if i < 32
         then zip_loop s (i + s * 2) (drop_bit s op0shift) (drop_bit s op1shift) op0 (op1 OR push_bit i zipped)
         else zip_loop s (i + s * 2) (drop_bit s op0shift) (drop_bit s op1shift) (op0 OR push_bit (i - 32) zipped) op1)
      else (op0, op1))"
  by pat_completeness auto
termination by (relation "measure (\<lambda>(s, i, _). 64 - i)") auto

declare zip_loop.simps [simp del]

function unzip_loop :: "nat \<Rightarrow> nat \<Rightarrow> u32 \<Rightarrow> u32 \<Rightarrow> u32 \<Rightarrow> u32 \<Rightarrow> u32 \<times> u32" where
  "unzip_loop s i op0shift op1shift op0 op1 =
     (if i < 32 \<and> 0 < s then
        let mask = push_bit s 1 - 1 in
        (if i < 32 div 2
         then unzip_loop s (i + s) op0shift (drop_bit (s * 2) op1shift)
                (op0 OR push_bit i (drop_bit s op1shift AND mask)) (op1 OR push_bit i (op1shift AND mask))
         else unzip_loop s (i + s) (drop_bit (s * 2) op0shift) op1shift
                (op0 OR push_bit i (drop_bit s op0shift AND mask)) (op1 OR push_bit i (op0shift AND mask)))
      else (op0, op1))"
  by pat_completeness auto
termination by (relation "measure (\<lambda>(s, i, _). 32 - i)") auto

declare unzip_loop.simps [simp del]

definition ZIP_value :: "u32 \<Rightarrow> u32 \<Rightarrow> u32 \<Rightarrow> u32 \<times> u32" where
  "ZIP_value x0 x1 k = (if k < 5 then zip_loop (2 ^ unat k) 0 x0 x1 0 0 else (x0, x1))"

definition UNZIP_value :: "u32 \<Rightarrow> u32 \<Rightarrow> u32 \<Rightarrow> u32 \<times> u32" where
  "UNZIP_value x0 x1 k = (if k < 5 then unzip_loop (2 ^ unat k) 0 x0 x1 0 0 else (0, 0))"

subsection \<open>Long arithmetic\<close>

text \<open>The number that a pair of words stands for.\<close>

definition dword :: "u32 \<times> u32 \<Rightarrow> nat" where
  "dword p = unat (fst p) * 2 ^ 32 + unat (snd p)"

lemma dword_split: "dword (ucast (drop_bit 32 r), ucast r) = unat (r :: u64)"
proof -
  have d: "unat (drop_bit 32 r) = unat r div 2 ^ 32"
    by (simp only: unat_drop_bit_eq) (simp only: drop_bit_eq_div)
  have "unat r < 2 ^ 32 * 2 ^ 32"
    using unsigned_less [where 'a = nat and w = r] by simp
  then have "unat (drop_bit 32 r) < 2 ^ 32"
    by (simp only: d less_mult_imp_div_less)
  then have hi: "unat (ucast (drop_bit 32 r) :: u32) = unat r div 2 ^ 32"
    by (simp only: unat_ucast32 d)
  have lo: "unat (ucast r :: u32) = unat r mod 2 ^ 32"
    by (simp add: unsigned_ucast_eq take_bit_eq_mod)
  show ?thesis
    unfolding dword_def by (simp only: fst_conv snd_conv hi lo div_mult_mod_eq)
qed

lemma unat_and_1_less: "unat ((x :: u32) AND 1) < 2"
  by (simp add: and_one_eq mod_2_eq_odd)

lemma LADD_dword: "dword (LADD_value x y c) = unat x + unat y + unat (c AND 1)"
proof -
  have "unat x + unat y + unat (c AND 1) < 2 ^ 64"
    using unat_less_32 [of x] unat_less_32 [of y] unat_and_1_less [of c] by simp
  then show ?thesis
    unfolding LADD_value_def Let_def dword_split by (simp add: unat_word_ariths unat_ucast64)
qed

lemma LMUL_dword: "dword (LMUL_value x y a b) = unat x * unat y + unat a + unat b"
proof -
  have "unat x * unat y \<le> (2 ^ 32 - 1) * (2 ^ 32 - 1)"
    using unat_less_32 [of x] unat_less_32 [of y] by (intro mult_mono) auto
  then have "unat x * unat y + unat a + unat b < 2 ^ 64"
    using unat_less_32 [of a] unat_less_32 [of b] by simp
  then show ?thesis
    unfolding LMUL_value_def Let_def dword_split by (simp add: unat_word_ariths unat_ucast64)
qed

lemma dword_less: "dword p < 2 ^ 64"
  using unat_less_32 [of "fst p"] unat_less_32 [of "snd p"] by (simp add: dword_def)

lemma unat_push32: "unat (push_bit 32 (ucast (x :: u32)) :: u64) = unat x * 2 ^ 32"
  using unat_less_32 [of x]
  by (simp add: push_bit_eq_mult unat_word_ariths unat_ucast64)

lemma or_push32: "push_bit 32 (ucast (hi :: u32)) OR ucast (lo :: u32) = (push_bit 32 (ucast hi) + ucast lo :: u64)"
  by (rule disjunctive_add [symmetric]) (auto simp: bit_simps)

lemma unat_join: "unat (push_bit 32 (ucast (hi :: u32)) OR ucast (lo :: u32) :: u64) = dword (hi, lo)"
  using dword_less [of "(hi, lo)"]
  by (simp add: or_push32 unat_word_ariths unat_push32 unat_ucast64 dword_def)

lemma MACCU_dword: "dword (MACCU_value hi lo x y) = (dword (hi, lo) + unat x * unat y) mod 2 ^ 64"
  unfolding MACCU_value_def Let_def dword_split by (simp add: unat_word_ariths unat_join unat_ucast64 mod_simps)

lemma unat_of_nat64: "m < 2 ^ 64 \<Longrightarrow> unat (of_nat m :: u64) = m"
  by (simp add: unat_of_nat take_bit_nat_eq_self)

lemma unat_fst_LSUB: "unat (fst (LSUB_value x y b)) < 2"
  unfolding LSUB_value_def Let_def by (simp add: unat_and_1_less)

lemma LSUB_value_eq:
  "unat x + 2 ^ 32 * unat (fst (LSUB_value x y b)) = unat y + unat (b AND 1) + unat (snd (LSUB_value x y b))"
proof -
  define r where "r = (ucast x - ucast y - ucast (b AND 1) :: u64)"
  define n where "n = unat y + unat (b AND 1)"
  have b: "unat x < 2 ^ 32" "n \<le> 2 ^ 32"
    using unat_less_32 [of x] unat_less_32 [of y] unat_and_1_less [of b] by (simp_all add: n_def)
  have r: "r = of_nat (unat x) - of_nat n"
    by (simp add: r_def n_def)
  have LSUB: "LSUB_value x y b = (ucast (drop_bit 32 r) AND 1, ucast r)"
    by (simp add: LSUB_value_def Let_def r_def)
  have dw: "unat (ucast (drop_bit 32 r) :: u32) * 2 ^ 32 + unat (ucast r :: u32) = unat r"
    using dword_split [of r] by (simp add: dword_def)
  show ?thesis
  proof (cases "n \<le> unat x")
    case True
    then have "r = of_nat (unat x - n)"
      by (simp add: r)
    then have u: "unat r = unat x - n"
      using b by (simp add: unat_of_nat take_bit_nat_eq_self)
    then have "unat (ucast (drop_bit 32 r) :: u32) = 0"
      using dw b by simp
    with dw u True show ?thesis
      by (simp add: LSUB n_def unat_eq_zero)
  next
    case False
    have "of_nat (unat x + 2 ^ 64 - n) = (of_nat (unat x) + of_nat (2 ^ 64) - of_nat n :: u64)"
    proof -
      have "n \<le> unat x + 2 ^ 64"
        using b by simp
      then show ?thesis
        by (simp only: of_nat_diff of_nat_add)
    qed
    moreover have "of_nat (2 ^ 64) = (0 :: u64)"
      by (simp only: of_nat_power of_nat_numeral exp_eq_zero_iff) simp
    ultimately have "r = of_nat (unat x + 2 ^ 64 - n)"
      by (simp only: r add_0_right)
    moreover have "unat x + 2 ^ 64 - n < 2 ^ 64"
      using False b by simp
    ultimately have u: "unat r = unat x + 2 ^ 64 - n"
      by (simp only: unat_of_nat64)
    then have h: "unat (ucast (drop_bit 32 r) :: u32) = 2 ^ 32 - 1"
      using dw b False unat_less_32 [of "ucast r"] by simp
    then have "unat (ucast (drop_bit 32 r) AND 1 :: u32) = 1"
      by (simp only: and_one_eq unat_mod) simp
    with dw u h False b show ?thesis
      by (simp add: LSUB n_def)
  qed
qed

lemma LDIVU_value_eq:
  assumes "hi < y"
  obtains q r where "LDIVU_value hi lo y = Some (q, r)"
    "dword (hi, lo) = unat q * unat y + unat r" "unat r < unat y"
proof -
  have y: "0 < unat y" "unat hi < unat y"
    using assms by (auto simp: word_less_nat_alt)
  have d: "unat (ucast lo + push_bit 32 (ucast hi) :: u64) = dword (hi, lo)"
    using unat_join [of hi lo] by (simp add: or_push32 add.commute)
  have "dword (hi, lo) < unat y * 2 ^ 32"
  proof -
    have "dword (hi, lo) < (unat hi + 1) * 2 ^ 32"
      using unat_less_32 [of lo] by (simp add: dword_def)
    also have "\<dots> \<le> unat y * 2 ^ 32"
      using y by (intro mult_right_mono) auto
    finally show ?thesis .
  qed
  then have q: "dword (hi, lo) div unat y < 2 ^ 32"
    using y by (simp add: less_mult_imp_div_less mult.commute)
  have r: "dword (hi, lo) mod unat y < 2 ^ 32"
    using mod_less_divisor [OF y(1), of "dword (hi, lo)"] unat_less_32 [of y] by linarith
  define w where "w = (ucast lo + push_bit 32 (ucast hi) :: u64)"
  have e: "unat (w div ucast y) = dword (hi, lo) div unat y" "unat (w mod ucast y) = dword (hi, lo) mod unat y"
    by (simp_all only: w_def unat_div unat_mod d unat_ucast64)
  have "unat (ucast (w div ucast y) :: u32) = dword (hi, lo) div unat y"
    "unat (ucast (w mod ucast y) :: u32) = dword (hi, lo) mod unat y"
    using q r by (simp_all only: e unat_ucast32)
  moreover have "LDIVU_value hi lo y = Some (ucast (w div ucast y), ucast (w mod ucast y))"
    using assms by (simp add: LDIVU_value_def w_def Let_def)
  ultimately show thesis
    using that y(1) by simp
qed

subsection \<open>Saturation\<close>

text \<open>The signed number of a pair of words.\<close>

definition sdword :: "u32 \<times> u32 \<Rightarrow> int" where
  "sdword p = sint (fst p) * 2 ^ 32 + int (unat (snd p))"

lemma sint_signed_drop: "sint (signed_drop_bit n (x :: u32)) = sint x div 2 ^ n"
  by (simp add: sint_signed_drop_bit_eq drop_bit_eq_div)

lemma sint_word_of_int: "- (2 ^ 31) \<le> i \<Longrightarrow> i < 2 ^ 31 \<Longrightarrow> sint (word_of_int i :: u32) = i"
  by (simp add: signed_of_int signed_take_bit_int_eq_self)

lemma sint_bounds_32: "- (2 ^ 31) \<le> sint (x :: u32)" "sint (x :: u32) < 2 ^ 31"
  using sint_ge [of x] sint_lt [of x] by simp_all

lemma sint_limits:
  assumes "m < 31"
  shows "sint (push_bit m (NOT 0) :: u32) = - (2 ^ m)" "sint (NOT (push_bit m (NOT 0)) :: u32) = 2 ^ m - 1"
proof -
  have m: "(2 :: int) ^ m < 2 ^ 31"
    using assms by (intro power_strict_increasing) simp_all
  have p0: "(0 :: int) < 2 ^ m"
    by simp
  have p: "push_bit m (NOT 0) = (word_of_int (- (2 ^ m)) :: u32)"
    by (simp add: push_bit_eq_mult)
  show "sint (push_bit m (NOT 0) :: u32) = - (2 ^ m)"
    unfolding p using m p0 by (intro sint_word_of_int; linarith)
  have "NOT (push_bit m (NOT 0)) = (word_of_int (2 ^ m - 1) :: u32)"
    by (simp add: not_eq_complement push_bit_eq_mult)
  then show "sint (NOT (push_bit m (NOT 0)) :: u32) = 2 ^ m - 1"
    using sint_word_of_int [of "2 ^ m - 1"] m p0 by simp
qed

lemma sign_bit_iff: "drop_bit 31 (x :: u32) AND 1 \<noteq> 0 \<longleftrightarrow> sint x < 0"
proof -
  have "drop_bit 31 x AND 1 \<noteq> 0 \<longleftrightarrow> bit x 31"
    by (simp add: and_one_eq odd_iff_mod_2_eq_one bit_iff_odd_drop_bit flip: even_iff_mod_2_eq_zero)
  then show ?thesis
    using bit_last_iff [of x] by simp
qed

lemma LSATS_clamp:
  assumes "0 < n" "n < 32"
  shows "sdword (LSATS_value x0 x1 n) =
    max (- (2 ^ (unat n - 1) * 2 ^ 32)) (min (2 ^ (unat n - 1) * 2 ^ 32 - 1) (sdword (x0, x1)))"
proof -
  define m where "m = unat n - 1"
  have m: "m < 31"
    using assms by (auto simp: m_def word_less_nat_alt)
  define M :: int where "M = 2 ^ m"
  have M: "0 < M"
    by (simp add: M_def)
  have "int (unat x1) < int (2 ^ 32)"
    using unat_less_32 [of x1] by (simp only: of_nat_less_iff)
  then have x1: "0 \<le> int (unat x1)" "int (unat x1) < 2 ^ 32"
    by (simp_all only: of_nat_0_le_iff of_nat_power of_nat_numeral)
  obtain u where u: "sdword (x0, x1) = sint x0 * 2 ^ 32 + u" "0 \<le> u" "u < 2 ^ 32"
    using x1 by (simp add: sdword_def)
  have big: "int (unat (NOT 0 :: u32)) = 2 ^ 32 - 1"
    by (simp add: unsigned_minus_1_eq_mask mask_eq_exp_minus_1)
  have up: "signed_drop_bit m x0 = 0 \<longleftrightarrow> sint x0 div M = 0" and dn: "signed_drop_bit m x0 = NOT 0 \<longleftrightarrow> sint x0 div M = -1"
    by (simp_all add: word_eq_iff_signed [where 'a = int] sint_signed_drop M_def)
  have neg: "sint x0 div M = -1 \<longleftrightarrow> - M \<le> sint x0" if "sint x0 < 0"
  proof -
    have "(sint x0 + M) div M = sint x0 div M + 1"
      using M by (simp add: div_add_self2)
    moreover have "(sint x0 + M) div M = 0 \<longleftrightarrow> - M \<le> sint x0"
      using that M by (auto simp: zdiv_eq_0_iff)
    ultimately show ?thesis
      by linarith
  qed
  have pos: "sint x0 div M = 0 \<longleftrightarrow> sint x0 < M" if "\<not> sint x0 < 0"
    using that M by (auto simp: zdiv_eq_0_iff)
  show ?thesis
  proof (cases "sint x0 < 0")
    case True
    have "sdword (LSATS_value x0 x1 n) = (if - M \<le> sint x0 then sdword (x0, x1) else - (M * 2 ^ 32))"
      unfolding LSATS_value_def Let_def m_def [symmetric] sign_bit_iff up dn
      using assms True neg sint_limits(1) [OF m] by (simp add: sdword_def M_def)
    then show ?thesis
      unfolding m_def [symmetric] M_def [symmetric] using True M u by (auto simp: max_def min_def)
  next
    case False
    have "sdword (LSATS_value x0 x1 n) = (if sint x0 < M then sdword (x0, x1) else M * 2 ^ 32 - 1)"
      unfolding LSATS_value_def Let_def m_def [symmetric] sign_bit_iff up dn
      using assms False pos sint_limits(2) [OF m] big by (simp add: sdword_def M_def)
    then show ?thesis
      unfolding m_def [symmetric] M_def [symmetric] using False M u by (auto simp: max_def min_def)
  qed
qed

subsection \<open>Interleaving\<close>

text \<open>
  Bit \<open>p\<close> of the double word that \<open>ZIP\<close> computes: blocks of \<open>s\<close> bits of the
  second and the first operand alternate.
\<close>

definition zip_bit :: "nat \<Rightarrow> u32 \<Rightarrow> u32 \<Rightarrow> nat \<Rightarrow> bool" where
  "zip_bit s a b p = (
     let j = p div (2 * s); r = p mod (2 * s) in
     if r < s then bit b (s * j + r) else bit a (s * j + (r - s)))"

lemma block_bit:
  assumes "0 < s" "s \<le> 16" "2 * s * j \<le> p"
  shows "bit (push_bit s (drop_bit (s * j) a AND (push_bit s 1 - 1)) OR (drop_bit (s * j) b AND (push_bit s 1 - 1)) :: u32)
      (p - 2 * s * j)
    \<longleftrightarrow> p < 2 * s * j + 2 * s \<and> zip_bit s a b p"
proof -
  obtain r where r: "p = 2 * s * j + r"
    using assms(3) by (metis le_add_diff_inverse)
  show ?thesis
  proof (cases "r < 2 * s")
    case True
    then have "p div (2 * s) = j" "p mod (2 * s) = r"
      using r assms(1) by auto
    then show ?thesis
      unfolding push_one_minus_one using r True assms(1,2) by (auto simp: zip_bit_def bit_simps Let_def)
  next
    case False
    then show ?thesis
      unfolding push_one_minus_one using r assms(1,2) by (auto simp: bit_simps)
  qed
qed

lemma dvd_step_le: "d dvd n \<Longrightarrow> d dvd i \<Longrightarrow> i < n \<Longrightarrow> i + d \<le> (n :: nat)"
proof -
  assume a: "d dvd n" "d dvd i" "i < n"
  then have "d dvd n - i"
    by (simp add: dvd_diff_nat)
  then have "d \<le> n - i"
    using a(3) by (intro dvd_imp_le) auto
  then show ?thesis
    using a(3) by simp
qed

lemma zip_loop_bits:
  assumes "0 < s" "s dvd 16" "i = 2 * s * j" "i \<le> 64" "p < 32"
  shows "(bit (fst (zip_loop s i (drop_bit (s * j) a) (drop_bit (s * j) b) x0 x1)) p \<longleftrightarrow>
      bit x0 p \<or> (i \<le> p + 32 \<and> zip_bit s a b (p + 32))) \<and>
    (bit (snd (zip_loop s i (drop_bit (s * j) a) (drop_bit (s * j) b) x0 x1)) p \<longleftrightarrow>
      bit x1 p \<or> (i \<le> p \<and> zip_bit s a b p))"
  using assms(3,4)
proof (induction "64 - i" arbitrary: i j x0 x1 rule: less_induct)
  case less
  have s: "s \<le> 16"
    using assms(2) by (simp add: dvd_imp_le)
  define z where "z = (push_bit s (drop_bit (s * j) a AND (push_bit s 1 - 1))
    OR (drop_bit (s * j) b AND (push_bit s 1 - 1)) :: u32)"
  have z: "i \<le> q \<Longrightarrow> bit z (q - i) \<longleftrightarrow> q < i + 2 * s \<and> zip_bit s a b q" for q
    using block_bit [OF assms(1) s, of j q a b] by (simp add: z_def less.prems(1))
  have sh: "drop_bit (s * j + s) x = drop_bit s (drop_bit (s * j) x)" for x :: u32
    by (simp add: add.commute)
  show ?case
  proof (cases "i < 64")
    case False
    then show ?thesis
      using assms(5) by (simp add: zip_loop.simps)
  next
    case True
    have "2 * s dvd 32"
      using assms(2) mult_dvd_mono [of 2 2 s 16] by simp
    then have d: "i + 2 * s \<le> 64" "i < 32 \<Longrightarrow> i + 2 * s \<le> 32"
      using True less.prems(1) dvd_step_le [of "2 * s" 64 i] dvd_step_le [of "2 * s" 32 i]
        dvd_trans [of "2 * s" 32 64] by auto
    have IH: "(bit (fst (zip_loop s (i + s * 2) (drop_bit (s * j + s) a) (drop_bit (s * j + s) b) y0 y1)) p \<longleftrightarrow>
        bit y0 p \<or> (i + 2 * s \<le> p + 32 \<and> zip_bit s a b (p + 32))) \<and>
      (bit (snd (zip_loop s (i + s * 2) (drop_bit (s * j + s) a) (drop_bit (s * j + s) b) y0 y1)) p \<longleftrightarrow>
        bit y1 p \<or> (i + 2 * s \<le> p \<and> zip_bit s a b p))" for y0 y1
      using less.hyps [of "i + 2 * s" "Suc j" y0 y1] True assms(1) d(1) less.prems(1)
      by (simp add: algebra_simps)
    show ?thesis
    proof (cases "i < 32")
      case i: True
      then have "zip_loop s i (drop_bit (s * j) a) (drop_bit (s * j) b) x0 x1 =
          zip_loop s (i + s * 2) (drop_bit (s * j + s) a) (drop_bit (s * j + s) b) x0 (x1 OR push_bit i z)"
        unfolding sh z_def using assms(1) by (subst zip_loop.simps) (simp add: Let_def)
      then show ?thesis
        using IH [of x0 "x1 OR push_bit i z"] z [of p] d(2) i assms(5)
        by (auto simp: bit_simps)
    next
      case i: False
      then have "zip_loop s i (drop_bit (s * j) a) (drop_bit (s * j) b) x0 x1 =
          zip_loop s (i + s * 2) (drop_bit (s * j + s) a) (drop_bit (s * j + s) b) (x0 OR push_bit (i - 32) z) x1"
        unfolding sh z_def using assms(1) True by (subst zip_loop.simps) (simp add: Let_def)
      then show ?thesis
        using IH [of "x0 OR push_bit (i - 32) z" x1] z [of "p + 32"] d(1) i True assms(5)
        by (auto simp: bit_simps)
    qed
  qed
qed

definition dword_bit :: "u32 \<Rightarrow> u32 \<Rightarrow> nat \<Rightarrow> bool" where
  "dword_bit hi lo q \<longleftrightarrow> (if q < 32 then bit lo q else bit hi (q - 32))"

lemma unzip_loop_bits:
  assumes "0 < s" "s dvd 16" "i = s * j" "i \<le> 32" "p < 32"
    "if i < 16 then X0 = a \<and> X1 = drop_bit (2 * i) b else X0 = drop_bit (2 * i - 32) a"
  shows "(bit (fst (unzip_loop s i X0 X1 x0 x1)) p \<longleftrightarrow>
      bit x0 p \<or> (i \<le> p \<and> dword_bit a b (2 * s * (p div s) + s + p mod s))) \<and>
    (bit (snd (unzip_loop s i X0 X1 x0 x1)) p \<longleftrightarrow>
      bit x1 p \<or> (i \<le> p \<and> dword_bit a b (2 * s * (p div s) + p mod s)))"
  using assms(3,4,6)
proof (induction "32 - i" arbitrary: i j x0 x1 X0 X1 rule: less_induct)
  case less
  have s: "s \<le> 16"
    using assms(2) by (simp add: dvd_imp_le)
  show ?case
  proof (cases "i < 32")
    case False
    then show ?thesis
      using assms(5) by (simp add: unzip_loop.simps)
  next
    case True
    have "s dvd 32"
      using assms(2) dvd_trans [of s 16 32] by simp
    then have d: "i + s \<le> 32" "i < 16 \<Longrightarrow> i + s \<le> 16"
      using True less.prems(1) assms(2) dvd_step_le [of s 32 i] dvd_step_le [of s 16 i] by auto
    define V where "V = (if i < 16 then X1 else X0)"
    define Y0 where "Y0 = (if i < 16 then X0 else drop_bit (s * 2) X0)"
    define Y1 where "Y1 = (if i < 16 then drop_bit (s * 2) X1 else X1)"
    define hi where "hi = drop_bit s V AND mask s"
    define lo where "lo = V AND mask s"
    have unfold: "unzip_loop s i X0 X1 x0 x1 = unzip_loop s (i + s) Y0 Y1 (x0 OR push_bit i hi) (x1 OR push_bit i lo)"
      unfolding hi_def lo_def V_def Y0_def Y1_def push_one_minus_one [symmetric]
      using True assms(1) by (subst unzip_loop.simps) (simp add: Let_def)
    have "if i + s < 16 then Y0 = a \<and> Y1 = drop_bit (2 * (i + s)) b else Y0 = drop_bit (2 * (i + s) - 32) a"
      using less.prems(3) d(2) by (auto simp: Y0_def Y1_def algebra_simps split: if_splits)
    then have IH: "(bit (fst (unzip_loop s (i + s) Y0 Y1 y0 y1)) p \<longleftrightarrow>
        bit y0 p \<or> (i + s \<le> p \<and> dword_bit a b (2 * s * (p div s) + s + p mod s))) \<and>
      (bit (snd (unzip_loop s (i + s) Y0 Y1 y0 y1)) p \<longleftrightarrow>
        bit y1 p \<or> (i + s \<le> p \<and> dword_bit a b (2 * s * (p div s) + p mod s)))" for y0 y1
      using less.hyps [of "i + s" "Suc j" Y0 Y1 y0 y1] True assms(1) d(1) less.prems(1) by simp
    have V: "r < 2 * s \<Longrightarrow> bit V r \<longleftrightarrow> dword_bit a b (2 * i + r)" for r
      using less.prems(3) d by (auto simp: V_def dword_bit_def bit_simps)
    have idx: "2 * s * (p div s) + s + p mod s = 2 * i + (p - i + s) \<and> 2 * s * (p div s) + p mod s = 2 * i + (p - i)"
      if "i \<le> p" "p < i + s"
    proof -
      obtain r where "p = s * j + r" "r < s"
        using \<open>i \<le> p\<close> \<open>p < i + s\<close> less.prems(1) by (metis add_less_cancel_left le_add_diff_inverse)
      then show ?thesis
        using less.prems(1) by simp
    qed
    have "bit (push_bit i hi) p \<longleftrightarrow> i \<le> p \<and> p < i + s \<and> dword_bit a b (2 * s * (p div s) + s + p mod s)"
      "bit (push_bit i lo) p \<longleftrightarrow> i \<le> p \<and> p < i + s \<and> dword_bit a b (2 * s * (p div s) + p mod s)"
    proof -
      have "bit (push_bit i hi) p \<longleftrightarrow> i \<le> p \<and> p < i + s \<and> bit V (p - i + s)"
        "bit (push_bit i lo) p \<longleftrightarrow> i \<le> p \<and> p < i + s \<and> bit V (p - i)"
        using assms(5) s by (auto simp: bit_simps hi_def lo_def add.commute)
      moreover have "bit V (p - i + s) = dword_bit a b (2 * i + (p - i + s))" "bit V (p - i) = dword_bit a b (2 * i + (p - i))"
        if "i \<le> p" "p < i + s"
        by (rule V; use that in linarith)+
      ultimately show "bit (push_bit i hi) p \<longleftrightarrow> i \<le> p \<and> p < i + s \<and> dword_bit a b (2 * s * (p div s) + s + p mod s)"
        "bit (push_bit i lo) p \<longleftrightarrow> i \<le> p \<and> p < i + s \<and> dword_bit a b (2 * s * (p div s) + p mod s)"
        using idx by metis+
    qed
    then show ?thesis
      using IH [of "x0 OR push_bit i hi" "x1 OR push_bit i lo"] assms(1)
      unfolding unfold bit_or_iff by (cases "i \<le> p"; cases "p < i + s"; simp)
  qed
qed

lemma zip_spacing: "k < 5 \<Longrightarrow> (2 :: nat) ^ unat (k :: u32) dvd 16"
proof -
  assume "k < 5"
  then have "unat k \<le> 4"
    by (simp add: word_less_nat_alt)
  then have "(2 :: nat) ^ unat k dvd 2 ^ 4"
    by (rule le_imp_power_dvd)
  then show ?thesis
    by simp
qed

lemma ZIP_value_bits:
  assumes "k < 5" "p < 32"
  shows "bit (fst (ZIP_value a b k)) p \<longleftrightarrow> zip_bit (2 ^ unat k) a b (p + 32)"
    and "bit (snd (ZIP_value a b k)) p \<longleftrightarrow> zip_bit (2 ^ unat k) a b p"
  using zip_loop_bits [OF _ zip_spacing [OF assms(1)], of 0 0 p a b 0 0] assms
  by (simp_all add: ZIP_value_def)

lemma UNZIP_value_bits:
  assumes "k < 5" "p < 32" "s = 2 ^ unat k"
  shows "bit (fst (UNZIP_value a b k)) p \<longleftrightarrow> dword_bit a b (2 * s * (p div s) + s + p mod s)"
    and "bit (snd (UNZIP_value a b k)) p \<longleftrightarrow> dword_bit a b (2 * s * (p div s) + p mod s)"
  using unzip_loop_bits [OF _ zip_spacing [OF assms(1)], of 0 0 p a a b b 0 0] assms
  by (simp_all add: UNZIP_value_def)

lemma double_index:
  assumes "0 < s" "s dvd 16" "p < 32"
  shows "2 * s * (p div s) + s + p mod s < (64 :: nat)" "2 * s * (p div s) + p mod s < 64"
proof -
  have "s dvd 32"
    using assms(2) dvd_trans [of s 16 32] by simp
  then have "s * (p div s) + s \<le> 32"
    using dvd_step_le [of s 32 "s * (p div s)"] assms(3) times_div_less_eq_dividend [of s p] by simp
  then show "2 * s * (p div s) + s + p mod s < 64"
    using mod_less_divisor [OF assms(1), of p] by (simp add: algebra_simps)
  then show "2 * s * (p div s) + p mod s < 64"
    by simp
qed

lemma zip_bit_double:
  assumes "0 < s"
  shows "zip_bit s a b (2 * s * (p div s) + p mod s) = bit b p"
    and "zip_bit s a b (2 * s * (p div s) + s + p mod s) = bit a p"
proof -
  have m: "p mod s < s"
    using assms by simp
  then have "p mod s < 2 * s" "s + p mod s < 2 * s"
    by auto
  then show "zip_bit s a b (2 * s * (p div s) + p mod s) = bit b p"
    "zip_bit s a b (2 * s * (p div s) + s + p mod s) = bit a p"
    using m by (simp_all add: zip_bit_def Let_def add.assoc)
qed

lemma dword_bit_half:
  assumes "0 < s" "s dvd 16" "q < 64"
    and "\<And>p. p < 32 \<Longrightarrow> bit a' p \<longleftrightarrow> dword_bit a b (2 * s * (p div s) + s + p mod s)"
    and "\<And>p. p < 32 \<Longrightarrow> bit b' p \<longleftrightarrow> dword_bit a b (2 * s * (p div s) + p mod s)"
  shows "zip_bit s a' b' q = dword_bit a b q"
proof -
  define j r where "j = q div (2 * s)" "r = q mod (2 * s)"
  have z: "zip_bit s a' b' q = (if r < s then bit b' (s * j + r) else bit a' (s * j + (r - s)))"
    by (simp add: zip_bit_def j_r_def)
  have q: "q = 2 * s * j + r" "r < 2 * s"
    using assms(1) by (simp_all add: j_r_def)
  have "2 * s dvd 64"
    using assms(2) mult_dvd_mono [of 2 2 s 16] dvd_trans [of "2 * s" 32 64] by simp
  then have j: "2 * s * j + 2 * s \<le> 64"
    using dvd_step_le [of "2 * s" 64 "2 * s * j"] q(1) assms(3) le_less_trans [of "2 * s * j" q 64]
    by (metis dvd_triv_left le_add1)
  show ?thesis
  proof (cases "r < s")
    case True
    then have "(s * j + r) div s = j" "(s * j + r) mod s = r" "s * j + r < 32"
      using j assms(1) by auto
    then show ?thesis
      using True assms(5) [of "s * j + r"] z by (simp flip: q(1))
  next
    case False
    then obtain t where t: "r = s + t" "t < s"
      using q(2) by (metis add_less_cancel_left le_add_diff_inverse mult_2 not_less)
    then have "(s * j + t) div s = j" "(s * j + t) mod s = t" "s * j + t < 32"
      using j by auto
    moreover have "2 * s * j + s + t = q"
      using q(1) t by simp
    ultimately show ?thesis
      using False assms(4) [of "s * j + t"] z t by simp
  qed
qed

lemma zip_unzip_inverse:
  assumes "k < 5"
  shows "(case ZIP_value a b k of (x, y) \<Rightarrow> UNZIP_value x y k) = (a, b)"
    and "(case UNZIP_value a b k of (x, y) \<Rightarrow> ZIP_value x y k) = (a, b)"
proof -
  define s :: nat where "s = 2 ^ unat k"
  have s: "0 < s" "s dvd 16"
    using zip_spacing [OF assms] by (simp_all add: s_def)
  have W: "dword_bit (fst (ZIP_value a b k)) (snd (ZIP_value a b k)) q = zip_bit s a b q" if "q < 64" for q
    using ZIP_value_bits [OF assms, of "q - 32" a b] ZIP_value_bits [OF assms, of q a b] that
    by (auto simp: dword_bit_def s_def)
  have "bit (fst (UNZIP_value (fst (ZIP_value a b k)) (snd (ZIP_value a b k)) k)) p = bit a p"
    "bit (snd (UNZIP_value (fst (ZIP_value a b k)) (snd (ZIP_value a b k)) k)) p = bit b p" if "p < 32" for p
    using UNZIP_value_bits [OF assms that s_def] W double_index [OF s that] zip_bit_double [OF s(1)]
    by simp_all
  then show "(case ZIP_value a b k of (x, y) \<Rightarrow> UNZIP_value x y k) = (a, b)"
    by (auto simp: case_prod_beta prod_eq_iff intro!: word32_eqI)
  show "(case UNZIP_value a b k of (x, y) \<Rightarrow> ZIP_value x y k) = (a, b)"
  proof -
    have "zip_bit s (fst (UNZIP_value a b k)) (snd (UNZIP_value a b k)) q = dword_bit a b q" if "q < 64" for q
      using UNZIP_value_bits [OF assms _ s_def] s that by (intro dword_bit_half) auto
    then have "bit (fst (ZIP_value (fst (UNZIP_value a b k)) (snd (UNZIP_value a b k)) k)) p = bit a p"
      "bit (snd (ZIP_value (fst (UNZIP_value a b k)) (snd (UNZIP_value a b k)) k)) p = bit b p" if "p < 32" for p
      using ZIP_value_bits [OF assms that, folded s_def] that by (simp_all add: dword_bit_def)
    then show ?thesis
      by (auto simp: case_prod_beta prod_eq_iff intro!: word32_eqI)
  qed
qed

subsection \<open>Signed division\<close>

lemma sint_32_minus: "sint (x :: u32) = - 2147483648 \<longleftrightarrow> x = 0x80000000" "sint (x :: u32) = -1 \<longleftrightarrow> x = 0xffffffff"
proof -
  have "sint (0x80000000 :: u32) = - 2147483648" "sint (0xffffffff :: u32) = -1"
    by simp_all
  then show "sint x = - 2147483648 \<longleftrightarrow> x = 0x80000000" "sint x = -1 \<longleftrightarrow> x = 0xffffffff"
    by (metis word_eq_iff_signed [where 'a = int])+
qed

lemma sdiv_in_range:
  fixes x y :: u32
  assumes "y \<noteq> 0" "\<not> (x = 0x80000000 \<and> y = 0xffffffff)"
  shows "sint (word_of_int (sint x sdiv sint y) :: u32) = sint x sdiv sint y"
    and "sint (word_of_int (sint x smod sint y) :: u32) = sint x smod sint y"
proof -
  note bx = sint_bounds_32 [of x] and b_y = sint_bounds_32 [of y]
  have y: "sint y \<noteq> 0"
    using assms(1) by (simp add: signed_eq_0_iff)
  have q: "sint x sdiv sint y \<in> {- \<bar>sint x\<bar>..\<bar>sint x\<bar>}"
    by (rule sdiv_int_range)
  have "sint x sdiv sint y \<noteq> 2 ^ 31"
  proof
    assume e: "sint x sdiv sint y = 2 ^ 31"
    then have x: "sint x = - (2 ^ 31)"
      using q bx by auto
    then have "sint y = -1"
      using e int_sdiv_negated_is_minus1 [of "sint x" "sint y"] by simp
    with x assms(2) show False
      by (simp add: sint_32_minus)
  qed
  then show "sint (word_of_int (sint x sdiv sint y) :: u32) = sint x sdiv sint y"
    using q bx by (intro sint_word_of_int) auto
  show "sint (word_of_int (sint x smod sint y) :: u32) = sint x smod sint y"
    using smod_int_range [OF y, of "sint x"] b_y by (intro sint_word_of_int) auto
qed

subsection \<open>Results\<close>

text \<open>
  C34. The long arithmetic instructions are exact.  \<open>LADD\<close>, \<open>LSUB\<close> and \<open>LMUL\<close>
  compute sum, difference and product with carry, borrow and two addends as
  a pair of words without losing a bit; \<open>MACCU\<close> accumulates modulo \<open>2 ^ 64\<close>;
  \<open>LDIVU\<close> raises an exception exactly when the quotient does not fit in a
  word and otherwise gives quotient and remainder.
\<close>

theorem long_arithmetic:
  "dword (LADD_value x y c) = unat x + unat y + unat (c AND 1)
   \<and> unat x + 2 ^ 32 * unat (fst (LSUB_value x y c)) = unat y + unat (c AND 1) + unat (snd (LSUB_value x y c))
   \<and> dword (LMUL_value x y a b) = unat x * unat y + unat a + unat b
   \<and> dword (MACCU_value a b x y) = (dword (a, b) + unat x * unat y) mod 2 ^ 64
   \<and> (case LDIVU_value a b y of
        None \<Rightarrow> dword (a, b) \<ge> unat y * 2 ^ 32
      | Some (q, r) \<Rightarrow> dword (a, b) = unat q * unat y + unat r \<and> unat r < unat y)"
proof -
  have "case LDIVU_value a b y of
        None \<Rightarrow> dword (a, b) \<ge> unat y * 2 ^ 32
      | Some (q, r) \<Rightarrow> dword (a, b) = unat q * unat y + unat r \<and> unat r < unat y"
  proof (cases "a < y")
    case True
    then obtain q r where "LDIVU_value a b y = Some (q, r)"
      "dword (a, b) = unat q * unat y + unat r" "unat r < unat y"
      by (rule LDIVU_value_eq)
    then show ?thesis
      by simp
  next
    case False
    then have "LDIVU_value a b y = None" "unat y \<le> unat a"
      by (simp_all add: LDIVU_value_def not_less word_le_nat_alt)
    then show ?thesis
      by (simp add: dword_def trans_le_add1)
  qed
  then show ?thesis
    by (simp only: LADD_dword LSUB_value_eq LMUL_dword MACCU_dword simp_thms)
qed

text \<open>
  C35. Signed division.  \<open>DIVS\<close> and \<open>REMS\<close> raise an exception exactly for a
  zero divisor and for the one quotient that does not fit; otherwise they
  give the quotient rounded towards zero and the remainder that has the sign
  of the dividend.
\<close>

theorem signed_division:
  fixes x y :: u32
  shows
  "case (DIVS_value x y, REMS_value x y) of
     (Some q, Some r) \<Rightarrow> sint y \<noteq> 0 \<and> sint x = sint q * sint y + sint r
        \<and> \<bar>sint r\<bar> < \<bar>sint y\<bar> \<and> (sint r = 0 \<or> sgn (sint r) = sgn (sint x))
   | (None, None) \<Rightarrow> sint y = 0 \<or> (sint x = - (2 ^ 31) \<and> sint y = -1)
   | _ \<Rightarrow> False"
proof (cases "y = 0 \<or> (x = 0x80000000 \<and> y = 0xffffffff)")
  case True
  then show ?thesis
    using sint_32_minus [of x] sint_32_minus [of y] by (auto simp: DIVS_value_def REMS_value_def)
next
  case False
  then have r: "sint (word_of_int (sint x sdiv sint y) :: u32) = sint x sdiv sint y"
    "sint (word_of_int (sint x smod sint y) :: u32) = sint x smod sint y"
    using sdiv_in_range [of y x] by auto
  have y: "sint y \<noteq> 0"
    using False by (simp add: signed_eq_0_iff)
  have "\<bar>sint x smod sint y\<bar> < \<bar>sint y\<bar>"
    using smod_int_range [OF y, of "sint x"] by auto
  moreover have "sint x smod sint y = 0 \<or> sgn (sint x smod sint y) = sgn (sint x)"
  proof (cases "\<bar>sint x\<bar> mod \<bar>sint y\<bar> = 0")
    case False
    then have "0 < \<bar>sint x\<bar> mod \<bar>sint y\<bar>"
      using pos_mod_sign [of "\<bar>sint y\<bar>" "\<bar>sint x\<bar>"] y by linarith
    then show ?thesis
      by (simp only: smod_int_alt_def sgn_mult sgn_pos sgn_sgn mult_1_right simp_thms)
  qed (simp only: smod_int_alt_def mult_zero_right simp_thms)
  moreover have "sint x = sint x sdiv sint y * sint y + sint x smod sint y"
    by (simp add: sdiv_mult_smod_eq)
  ultimately show ?thesis
    using False y by (simp add: DIVS_value_def REMS_value_def r)
qed

text \<open>
  C36. \<open>LSATS\<close> saturates: for a width \<open>n\<close> from 1 to 31 the signed double word
  is replaced by the nearest one whose upper word is a signed number of \<open>n\<close>
  bits.
\<close>

theorem LSATS_saturates:
  assumes "0 < n" "n < 32"
  shows "sdword (LSATS_value x0 x1 n) =
    max (- (2 ^ (unat n - 1) * 2 ^ 32)) (min (2 ^ (unat n - 1) * 2 ^ 32 - 1) (sdword (x0, x1)))"
  by (rule LSATS_clamp [OF assms])

theorem LSATS_saturates_witness: "sdword (LSATS_value 5 0 2) = 2 * 2 ^ 32 - 1"
  using LSATS_saturates [of 2 5 0] by (simp add: sdword_def)

text \<open>
  C37. \<open>ZIP\<close> and \<open>UNZIP\<close> undo each other in either order, at every spacing
  that the code handles: 1, 2, 4, 8 and 16 bits.
\<close>

theorem zip_unzip:
  assumes "k < 5"
  shows "(case ZIP_value a b k of (x, y) \<Rightarrow> UNZIP_value x y k) = (a, b)
    \<and> (case UNZIP_value a b k of (x, y) \<Rightarrow> ZIP_value x y k) = (a, b)"
  using zip_unzip_inverse [OF assms, of a b] by simp

theorem zip_unzip_witness:
  "(case ZIP_value 0xffff0000 0x12345678 3 of (x, y) \<Rightarrow> UNZIP_value x y 3) = (0xffff0000, 0x12345678)"
  using zip_unzip [of 3 "0xffff0000" "0x12345678"] by simp

end
