(* ===== verification/Exec.thy ===== *)
theory Exec
  imports ThreadState Arith
begin

text \<open>
  The interpreter functions of the instructions that work on the registers of
  one thread and on the memory of its core.  \<open>InstructionGen.cpp\<close> generates
  them from its table \<open>add\<close>: the code string of an instruction is a body here,
  and the macros in it (\<open>%load_word\<close>, \<open>%write_pc\<close>, \<open>%exception\<close>, \<dots>) are
  functions that take the rest of the body as an argument.  What
  \<open>emitInstFunction\<close> puts around the code string is \<open>exec_local\<close>.

  The instructions that reach a resource (ports, timers, channel ends,
  threads, locks, synchronisers) are not local; they have no body here.
\<close>

subsection \<open>Properties of instructions\<close>

datatype InstReturn = CONTINUE | END_TRACE | END_THREAD_EXECUTION

text \<open>Implicit operands: a register, or the status register.\<close>

datatype implicit_op = Reg nat | SR

definition short_ru6 :: "op_lru6 \<Rightarrow> op_ru6" where
  "short_ru6 i = (case i of
      LDAWDP_lru6 \<Rightarrow> LDAWDP_ru6 | LDWDP_lru6 \<Rightarrow> LDWDP_ru6 | LDWCP_lru6 \<Rightarrow> LDWCP_ru6
    | LDWSP_lru6 \<Rightarrow> LDWSP_ru6 | STWDP_lru6 \<Rightarrow> STWDP_ru6 | STWSP_lru6 \<Rightarrow> STWSP_ru6
    | LDAWSP_lru6 \<Rightarrow> LDAWSP_ru6 | LDC_lru6 \<Rightarrow> LDC_ru6
    | BRFT_lru6 \<Rightarrow> BRFT_ru6 | BRFT_illegal_lru6 \<Rightarrow> BRFT_illegal_ru6
    | BRBT_lru6 \<Rightarrow> BRBT_ru6 | BRBT_illegal_lru6 \<Rightarrow> BRBT_illegal_ru6
    | BRFF_lru6 \<Rightarrow> BRFF_ru6 | BRFF_illegal_lru6 \<Rightarrow> BRFF_illegal_ru6
    | BRBF_lru6 \<Rightarrow> BRBF_ru6 | BRBF_illegal_lru6 \<Rightarrow> BRBF_illegal_ru6
    | SETC_lru6 \<Rightarrow> SETC_ru6)"

definition short_u6 :: "op_lu6 \<Rightarrow> op_u6" where
  "short_u6 i = (case i of
      EXTSP_lu6 \<Rightarrow> EXTSP_u6 | EXTDP_lu6 \<Rightarrow> EXTDP_u6 | ENTSP_lu6 \<Rightarrow> ENTSP_u6
    | DUALENTSP_lu6 \<Rightarrow> DUALENTSP_u6 | RETSP_lu6 \<Rightarrow> RETSP_u6 | RETSP_xs2a_lu6 \<Rightarrow> RETSP_xs2a_u6
    | KRESTSP_lu6 \<Rightarrow> KRESTSP_u6 | KENTSP_lu6 \<Rightarrow> KENTSP_u6 | BRFU_lu6 \<Rightarrow> BRFU_u6
    | BRFU_illegal_lu6 \<Rightarrow> BRFU_illegal_u6 | BRBU_lu6 \<Rightarrow> BRBU_u6
    | BRBU_illegal_lu6 \<Rightarrow> BRBU_illegal_u6 | LDAWCP_lu6 \<Rightarrow> LDAWCP_u6 | SETSR_lu6 \<Rightarrow> SETSR_u6
    | CLRSR_lu6 \<Rightarrow> CLRSR_u6 | BLAT_lu6 \<Rightarrow> BLAT_u6 | KCALL_lu6 \<Rightarrow> KCALL_u6 | GETSR_lu6 \<Rightarrow> GETSR_u6)"

definition short_u10 :: "op_lu10 \<Rightarrow> op_u10" where
  "short_u10 i = (case i of
      LDWCPL_lu10 \<Rightarrow> LDWCPL_u10 | LDAPF_lu10 \<Rightarrow> LDAPF_u10 | LDAPB_lu10 \<Rightarrow> LDAPB_u10
    | BLRF_lu10 \<Rightarrow> BLRF_u10 | BLRF_illegal_lu10 \<Rightarrow> BLRF_illegal_u10 | BLRB_lu10 \<Rightarrow> BLRB_u10
    | BLRB_illegal_lu10 \<Rightarrow> BLRB_illegal_u10 | BLACP_lu10 \<Rightarrow> BLACP_u10)"

definition implicit_l2rus :: "op_l2rus \<Rightarrow> (implicit_op \<times> OpType) list" where
  "implicit_l2rus i = (case i of
      LDDSP_l2rus \<Rightarrow> [(Reg SP, Op_in)] | STDSP_l2rus \<Rightarrow> [(Reg SP, Op_in)] | _ \<Rightarrow> [])"

definition implicit_ru6 :: "op_ru6 \<Rightarrow> (implicit_op \<times> OpType) list" where
  "implicit_ru6 i = (case i of
      LDAWDP_ru6 \<Rightarrow> [(Reg DP, Op_in)] | LDWDP_ru6 \<Rightarrow> [(Reg DP, Op_in)]
    | LDWCP_ru6 \<Rightarrow> [(Reg CP, Op_in)] | LDWSP_ru6 \<Rightarrow> [(Reg SP, Op_in)]
    | STWDP_ru6 \<Rightarrow> [(Reg DP, Op_in)] | STWSP_ru6 \<Rightarrow> [(Reg SP, Op_in)]
    | LDAWSP_ru6 \<Rightarrow> [(Reg SP, Op_in)] | _ \<Rightarrow> [])"

definition implicit_u6 :: "op_u6 \<Rightarrow> (implicit_op \<times> OpType) list" where
  "implicit_u6 i = (case i of
      EXTSP_u6 \<Rightarrow> [(Reg SP, Op_inout)] | EXTDP_u6 \<Rightarrow> [(Reg DP, Op_inout)]
    | ENTSP_u6 \<Rightarrow> [(Reg SP, Op_inout), (Reg LR, Op_in)]
    | DUALENTSP_u6 \<Rightarrow> [(Reg SP, Op_inout), (Reg LR, Op_in)]
    | RETSP_u6 \<Rightarrow> [(Reg SP, Op_inout), (Reg LR, Op_inout)]
    | RETSP_xs2a_u6 \<Rightarrow> [(Reg SP, Op_inout), (Reg LR, Op_in)]
    | KRESTSP_u6 \<Rightarrow> [(Reg SP, Op_inout), (Reg KSP, Op_out)]
    | KENTSP_u6 \<Rightarrow> [(Reg SP, Op_inout), (Reg KSP, Op_in)]
    | LDAWCP_u6 \<Rightarrow> [(Reg R11, Op_out), (Reg CP, Op_in)]
    | SETSR_u6 \<Rightarrow> [(SR, Op_inout)] | CLRSR_u6 \<Rightarrow> [(SR, Op_inout)]
    | BLAT_u6 \<Rightarrow> [(Reg LR, Op_out), (Reg R11, Op_in)]
    | GETSR_u6 \<Rightarrow> [(Reg R11, Op_out), (SR, Op_in)] | _ \<Rightarrow> [])"

definition implicit_u10 :: "op_u10 \<Rightarrow> (implicit_op \<times> OpType) list" where
  "implicit_u10 i = (case i of
      LDWCPL_u10 \<Rightarrow> [(Reg R11, Op_out), (Reg CP, Op_in)]
    | LDAPF_u10 \<Rightarrow> [(Reg R11, Op_out)] | LDAPB_u10 \<Rightarrow> [(Reg R11, Op_out)]
    | BLRF_u10 \<Rightarrow> [(Reg LR, Op_out)] | BLRB_u10 \<Rightarrow> [(Reg LR, Op_out)]
    | BLACP_u10 \<Rightarrow> [(Reg LR, Op_out), (Reg CP, Op_in)] | _ \<Rightarrow> [])"

definition implicit_1r :: "op_1r \<Rightarrow> (implicit_op \<times> OpType) list" where
  "implicit_1r i = (case i of
      SETSP_1r \<Rightarrow> [(Reg SP, Op_out)] | SETDP_1r \<Rightarrow> [(Reg DP, Op_out)] | SETCP_1r \<Rightarrow> [(Reg CP, Op_out)]
    | BLA_1r \<Rightarrow> [(Reg LR, Op_out)] | SETV_1r \<Rightarrow> [(Reg R11, Op_in)] | SETEV_1r \<Rightarrow> [(Reg R11, Op_in)]
    | _ \<Rightarrow> [])"

definition implicit_KRET :: "(implicit_op \<times> OpType) list" where
  "implicit_KRET = [(Reg SPC, Op_in), (Reg SED, Op_in), (Reg SSR, Op_in), (Reg ED, Op_out), (SR, Op_out)]"

definition implicit_0r :: "op_0r \<Rightarrow> (implicit_op \<times> OpType) list" where
  "implicit_0r i = (case i of
      GETID_0r \<Rightarrow> [(Reg R11, Op_out)]
    | GETET_0r \<Rightarrow> [(Reg R11, Op_out), (Reg ET, Op_in)] | GETED_0r \<Rightarrow> [(Reg R11, Op_out), (Reg ED, Op_in)]
    | GETKEP_0r \<Rightarrow> [(Reg R11, Op_out), (Reg KEP, Op_in)]
    | GETKSP_0r \<Rightarrow> [(Reg R11, Op_out), (Reg KSP, Op_in)]
    | SETKEP_0r \<Rightarrow> [(Reg KEP, Op_out), (Reg R11, Op_in)]
    | KRET_0r \<Rightarrow> implicit_KRET
    | LDSPC_0r \<Rightarrow> [(Reg SPC, Op_out), (Reg SP, Op_in)] | LDSSR_0r \<Rightarrow> [(Reg SSR, Op_out), (Reg SP, Op_in)]
    | LDSED_0r \<Rightarrow> [(Reg SED, Op_out), (Reg SP, Op_in)] | LDET_0r \<Rightarrow> [(Reg ET, Op_out), (Reg SP, Op_in)]
    | STSPC_0r \<Rightarrow> [(Reg SPC, Op_in), (Reg SP, Op_in)] | STSSR_0r \<Rightarrow> [(Reg SSR, Op_in), (Reg SP, Op_in)]
    | STSED_0r \<Rightarrow> [(Reg SED, Op_in), (Reg SP, Op_in)] | STET_0r \<Rightarrow> [(Reg ET, Op_in), (Reg SP, Op_in)]
    | _ \<Rightarrow> [])"

definition implicit_ops :: "InstructionOpcode \<Rightarrow> (implicit_op \<times> OpType) list" where
  "implicit_ops opc = (case opc of
      Fl2rus i \<Rightarrow> implicit_l2rus i
    | Fru6 i \<Rightarrow> implicit_ru6 i | Flru6 i \<Rightarrow> implicit_ru6 (short_ru6 i)
    | Fu6 i \<Rightarrow> implicit_u6 i | Flu6 i \<Rightarrow> implicit_u6 (short_u6 i)
    | Fu10 i \<Rightarrow> implicit_u10 i | Flu10 i \<Rightarrow> implicit_u10 (short_u10 i)
    | F1r i \<Rightarrow> implicit_1r i
    | F0r i \<Rightarrow> implicit_0r i
    | Fl0r i \<Rightarrow> implicit_KRET
    | _ \<Rightarrow> [])"

definition inst_cycles :: "InstructionOpcode \<Rightarrow> u32" where
  "inst_cycles opc = (case opc of
      Fl3r i \<Rightarrow> if i \<in> {DIVS_l3r, DIVU_l3r, REMS_l3r, REMU_l3r} then 32 else 1
    | Fl5r i \<Rightarrow> if i = LDIVU_l5r then 32 else 1
    | Fu6 i \<Rightarrow> if i \<in> {RETSP_u6, RETSP_xs2a_u6, BLAT_u6} then 2 else 1
    | Flu6 i \<Rightarrow> if short_u6 i \<in> {RETSP_u6, RETSP_xs2a_u6, BLAT_u6} then 2 else 1
    | Fu10 i \<Rightarrow> if i = BLACP_u10 then 2 else 1
    | Flu10 i \<Rightarrow> if short_u10 i = BLACP_u10 then 2 else 1
    | Fpseudo i \<Rightarrow> 0
    | _ \<Rightarrow> 1)"

definition yieldBefore :: "InstructionOpcode \<Rightarrow> bool" where
  "yieldBefore opc = (case opc of
      Fl2rus i \<Rightarrow> i \<in> {OUTPW_l2rus, INPW_l2rus}
    | Fru6 i \<Rightarrow> i = SETC_ru6 | Flru6 i \<Rightarrow> i = SETC_lru6
    | Fu6 i \<Rightarrow> i \<in> {SETSR_u6, CLRSR_u6} | Flu6 i \<Rightarrow> i \<in> {SETSR_lu6, CLRSR_lu6}
    | F2r i \<Rightarrow> i \<in> {PEEK_2r, ENDIN_2r, SETPSC_2r, IN_2r, OUT_2r, SETD_2r, OUTCT_2r, OUTT_2r,
        EET_2r, EEF_2r, INSHR_2r, OUTSHR_2r, GETTS_2r, SETPT_2r}
    | Frus i \<Rightarrow> i = OUTCT_rus
    | Fl2r i \<Rightarrow> i \<in> {GETD_l2r, SETC_l2r, SETCLK_l2r, SETTW_l2r, SETRDY_l2r}
    | F1r i \<Rightarrow> i \<in> {SETV_1r, SETEV_1r, EDU_1r, EEU_1r, WAITET_1r, WAITEF_1r, SYNCR_1r, CLRPT_1r}
    | F0r i \<Rightarrow> i \<in> {KRET_0r, CLRE_0r, WAITEU_0r}
    | Fl0r i \<Rightarrow> True
    | _ \<Rightarrow> False)"

definition canEvent :: "InstructionOpcode \<Rightarrow> bool" where
  "canEvent opc = (case opc of
      Fru6 i \<Rightarrow> i = SETC_ru6 | Flru6 i \<Rightarrow> i = SETC_lru6
    | F2r i \<Rightarrow> i \<in> {OUT_2r, OUTCT_2r, OUTT_2r, EET_2r, EEF_2r}
    | Frus i \<Rightarrow> i = OUTCT_rus
    | Fl2r i \<Rightarrow> i = SETC_l2r
    | F1r i \<Rightarrow> i \<in> {EEU_1r, WAITET_1r, WAITEF_1r}
    | F0r i \<Rightarrow> i = WAITEU_0r
    | _ \<Rightarrow> False)"

text \<open>\<open>writesPc\<close>, as the macros \<open>%write_pc\<close> and \<open>%write_pc_unchecked\<close> set it.\<close>

definition mayBranch :: "InstructionOpcode \<Rightarrow> bool" where
  "mayBranch opc = (case opc of
      Fru6 i \<Rightarrow> i \<in> {BRFT_ru6, BRBT_ru6, BRFF_ru6, BRBF_ru6}
    | Flru6 i \<Rightarrow> i \<in> {BRFT_lru6, BRBT_lru6, BRFF_lru6, BRBF_lru6}
    | Fu6 i \<Rightarrow> i \<in> {RETSP_u6, RETSP_xs2a_u6, BRFU_u6, BRBU_u6, BLAT_u6}
    | Flu6 i \<Rightarrow> i \<in> {RETSP_lu6, RETSP_xs2a_lu6, BRFU_lu6, BRBU_lu6, BLAT_lu6}
    | Fu10 i \<Rightarrow> i \<in> {BLRF_u10, BLRB_u10, BLACP_u10}
    | Flu10 i \<Rightarrow> i \<in> {BLRF_lu10, BLRB_lu10, BLACP_lu10}
    | F1r i \<Rightarrow> i \<in> {BAU_1r, BLA_1r, BRU_1r}
    | F0r i \<Rightarrow> i = KRET_0r
    | Fl0r i \<Rightarrow> True
    | _ \<Rightarrow> False)"

definition all_ops :: "InstructionOpcode \<Rightarrow> OpType list" where
  "all_ops opc = explicit_ops opc @ map snd (implicit_ops opc)"

subsection \<open>The frame of a running instruction function\<close>

text \<open>
  The locals of the generated function and the state it works on.  \<open>fr_op\<close>
  are the variables \<open>op0\<close>, \<open>op1\<close>, \<dots>; the status register among them is
  kept in the low bits.  An output operand is indeterminate until the body
  assigns it, which every body does before it is written back; it starts as 0.
  \<open>fr_fields\<close> are the operands of the decoded instruction.
\<close>

record ('s, 'r) frame =
  fr_thread :: "('s, 'r) thread"
  fr_core :: core
  fr_romdc :: dcache
  fr_fields :: operands
  fr_op :: "u32 list"
  fr_nextPc :: u32
  fr_retval :: InstReturn
  fr_watch :: "(WatchpointType \<times> u32) option"

text \<open>
  How the code string ends: at \<open>regWriteBack\<close>, after \<open>%yield\<close> or the forced
  yield of \<open>%write_pc\<close> or without one, or with an exception.
\<close>

datatype yield_kind = No_yield | Yield | Force_yield

datatype ('s, 'r) outcome =
  Back yield_kind "('s, 'r) frame"
| Raise ExceptionType u32 "('s, 'r) frame"

type_synonym ('s, 'r) body = "('s, 'r) frame \<Rightarrow> ('s, 'r) outcome option"

definition op :: "nat \<Rightarrow> ('s, 'r) frame \<Rightarrow> u32" where
  "op n f = fr_op f ! n"

definition set_op :: "nat \<Rightarrow> u32 \<Rightarrow> ('s, 'r) frame \<Rightarrow> ('s, 'r) frame" where
  "set_op n v f = f\<lparr>fr_op := (fr_op f)[n := v]\<rparr>"

definition finish :: "('s, 'r) body" where
  "finish f = Some (Back No_yield f)"

definition assign :: "nat \<Rightarrow> u32 \<Rightarrow> ('s, 'r) body" where
  "assign n v f = finish (set_op n v f)"

definition yield :: "('s, 'r) body" where
  "yield f = Some (Back Yield f)"

definition raise :: "ExceptionType \<Rightarrow> u32 \<Rightarrow> ('s, 'r) body" where
  "raise et ed f = Some (Raise et ed f)"

subsection \<open>Macros\<close>

definition CHECK_ADDR_ROM :: "u32 \<Rightarrow> core \<Rightarrow> bool" where
  "CHECK_ADDR_ROM addr c \<longleftrightarrow> addr - romBase c < romSize c"

text \<open>The watchpoint test after a load or store.\<close>

definition note_watch :: "WatchpointType \<Rightarrow> u32 \<Rightarrow> bool \<Rightarrow> ('s, 'r) frame \<Rightarrow> ('s, 'r) frame" where
  "note_watch ty addr hit f = (if hit then f\<lparr>fr_watch := Some (ty, addr)\<rparr> else f)"

definition load_word :: "u32 \<Rightarrow> (u32 \<Rightarrow> ('s, 'r) body) \<Rightarrow> ('s, 'r) body" where
  "load_word addr k f = (
     let c = fr_core f; f' = note_watch READ addr (hitWatchpoint READ addr 4 c) f in
     if CHECK_ADDR_RAM_WORD addr c then do {
       v \<leftarrow> loadRamWord c addr;
       k v f'
     }
     else if addr AND 3 = 0 \<and> CHECK_ADDR_ROM addr c then do {
       v \<leftarrow> loadRomWord c addr;
       k v f'
     }
     else raise ET_LOAD_STORE addr f)"

definition load_short :: "u32 \<Rightarrow> (u32 \<Rightarrow> ('s, 'r) body) \<Rightarrow> ('s, 'r) body" where
  "load_short addr k f = (
     let c = fr_core f; f' = note_watch READ addr (hitWatchpoint READ addr 2 c) f in
     if CHECK_ADDR_RAM_SHORT addr c then do {
       v \<leftarrow> loadRamShort c addr;
       k (ucast v) f'
     }
     else if addr AND 1 = 0 \<and> CHECK_ADDR_ROM addr c then do {
       v \<leftarrow> loadRomShort c addr;
       k (ucast v) f'
     }
     else raise ET_LOAD_STORE addr f)"

definition load_byte :: "u32 \<Rightarrow> (u32 \<Rightarrow> ('s, 'r) body) \<Rightarrow> ('s, 'r) body" where
  "load_byte addr k f = (
     let c = fr_core f; f' = note_watch READ addr (hitWatchpoint READ addr 1 c) f in
     if CHECK_ADDR_RAM_BYTE addr c then do {
       v \<leftarrow> loadRamByte c addr;
       k (ucast v) f'
     }
     else if CHECK_ADDR_ROM addr c then do {
       v \<leftarrow> loadRomByte c addr;
       k (ucast v) f'
     }
     else raise ET_LOAD_STORE addr f)"

text \<open>The rest of a body after the store itself.\<close>

definition after_store :: "u32 \<Rightarrow> ('s, 'r) body \<Rightarrow> ('s, 'r) frame \<Rightarrow> store_outcome \<times> core \<Rightarrow> ('s, 'r) outcome option" where
  "after_store addr k f r = (case r of
      (Store_exception a, c) \<Rightarrow> raise ET_LOAD_STORE a f
    | (Stored inval hit, c) \<Rightarrow>
        let f = f\<lparr>fr_core := c\<rparr>;
            f = (if inval then f\<lparr>fr_retval := END_TRACE\<rparr> else f) in
        k (note_watch WRITE addr hit f))"

definition store_word :: "u32 \<Rightarrow> u32 \<Rightarrow> ('s, 'r) body \<Rightarrow> ('s, 'r) body" where
  "store_word v addr k f = do {
     r \<leftarrow> emitStore_WORD v addr (fr_core f);
     after_store addr k f r
   }"

definition store_short :: "u32 \<Rightarrow> u32 \<Rightarrow> ('s, 'r) body \<Rightarrow> ('s, 'r) body" where
  "store_short v addr k f = do {
     r \<leftarrow> emitStore_SHORT (ucast v) addr (fr_core f);
     after_store addr k f r
   }"

definition store_byte :: "u32 \<Rightarrow> u32 \<Rightarrow> ('s, 'r) body \<Rightarrow> ('s, 'r) body" where
  "store_byte v addr k f = do {
     r \<leftarrow> emitStore_BYTE (ucast v) addr (fr_core f);
     after_store addr k f r
   }"

definition write_pc_unchecked :: "u32 \<Rightarrow> ('s, 'r) frame \<Rightarrow> ('s, 'r) frame" where
  "write_pc_unchecked p f = f\<lparr>fr_nextPc := p\<rparr>"

definition write_pc :: "u32 \<Rightarrow> ('s, 'r) body \<Rightarrow> ('s, 'r) body" where
  "write_pc addressToWrite k f =
     (if addressToWrite AND 1 \<noteq> 0 then raise ET_ILLEGAL_PC addressToWrite f
      else
        let pcToWrite = thread_toPc (fr_thread f) addressToWrite in
        if CHECK_PC (fr_core f) pcToWrite then k (write_pc_unchecked pcToWrite f)
        else do {
          (ok, t) \<leftarrow> tryUpdateDecodeCache (fr_core f) (fr_romdc f) addressToWrite (fr_thread f);
          if ok then
            Some (Back Force_yield
              (write_pc_unchecked (thread_toPc t addressToWrite) (f\<lparr>fr_thread := t\<rparr>)))
          else raise ET_ILLEGAL_PC addressToWrite f
        })"

definition FROM_PC :: "u32 \<Rightarrow> ('s, 'r) frame \<Rightarrow> u32" where
  "FROM_PC p f = thread_fromPc (fr_thread f) p"

definition dual_bit :: "('s, 'r) frame \<Rightarrow> u32" where
  "dual_bit f = (if dualIssue (fr_thread f) then 1 else 0)"

definition set_dual :: "bool \<Rightarrow> ('s, 'r) frame \<Rightarrow> ('s, 'r) frame" where
  "set_dual di f = f\<lparr>fr_thread := setDualIssue di (fr_thread f)\<rparr>"

subsection \<open>Bodies\<close>

text \<open>
  The bodies, format by format.  In the formats with an immediate operand a
  shift by 32 or more is an assertion failure or undefined.
\<close>

definition body_3r :: "op_3r \<Rightarrow> ('s, 'r) body" where
  "body_3r i f = (case i of
      ADD_3r \<Rightarrow> assign 0 (op 1 f + op 2 f) f
    | SUB_3r \<Rightarrow> assign 0 (op 1 f - op 2 f) f
    | EQ_3r \<Rightarrow> assign 0 (of_bool (op 1 f = op 2 f)) f
    | LSS_3r \<Rightarrow> assign 0 (of_bool (sint (op 1 f) < sint (op 2 f))) f
    | LSU_3r \<Rightarrow> assign 0 (of_bool (op 1 f < op 2 f)) f
    | AND_3r \<Rightarrow> assign 0 (op 1 f AND op 2 f) f
    | OR_3r \<Rightarrow> assign 0 (op 1 f OR op 2 f) f
    | SHL_3r \<Rightarrow> assign 0 (SHL_value (op 1 f) (op 2 f)) f
    | SHR_3r \<Rightarrow> assign 0 (SHR_value (op 1 f) (op 2 f)) f
    | LDW_3r \<Rightarrow> load_word (op 1 f + push_bit 2 (op 2 f)) (assign 0) f
    | LD16S_3r \<Rightarrow> load_short (op 1 f + push_bit 1 (op 2 f)) (\<lambda>v. assign 0 (signExtend v 16)) f
    | LD8U_3r \<Rightarrow> load_byte (op 1 f + op 2 f) (assign 0) f
    | TSETR_3r \<Rightarrow> None)"

definition body_2rus :: "op_2rus \<Rightarrow> ('s, 'r) body" where
  "body_2rus i f = (case i of
      ADD_2rus \<Rightarrow> assign 0 (op 1 f + op 2 f) f
    | ADD_mov_2rus \<Rightarrow> assign 0 (op 1 f) f
    | SUB_2rus \<Rightarrow> assign 0 (op 1 f - op 2 f) f
    | EQ_2rus \<Rightarrow> assign 0 (of_bool (op 1 f = op 2 f)) f
    | SHL_2rus \<Rightarrow> (if op 2 f < 32 then assign 0 (push_bit (unat (op 2 f)) (op 1 f)) f else None)
    | SHL_32_2rus \<Rightarrow> assign 0 0 f
    | SHR_2rus \<Rightarrow> (if op 2 f < 32 then assign 0 (drop_bit (unat (op 2 f)) (op 1 f)) f else None)
    | SHR_32_2rus \<Rightarrow> assign 0 0 f
    | LDW_2rus \<Rightarrow> load_word (op 1 f + op 2 f) (assign 0) f
    | STW_2rus \<Rightarrow> store_word (op 0 f) (op 1 f + op 2 f) finish f)"

text \<open>An operation with a result, or the exception \<open>ET_ARITHMETIC\<close>.\<close>

definition assign_arith :: "u32 option \<Rightarrow> ('s, 'r) body" where
  "assign_arith r f = (case r of None \<Rightarrow> raise ET_ARITHMETIC 0 f | Some v \<Rightarrow> assign 0 v f)"

text \<open>Assignment of the two words of a result, \<open>hi\<close> and \<open>lo\<close> the operand numbers.\<close>

definition assign2 :: "nat \<Rightarrow> nat \<Rightarrow> u32 \<times> u32 \<Rightarrow> ('s, 'r) body" where
  "assign2 hi lo r f = finish (set_op lo (snd r) (set_op hi (fst r) f))"

definition body_l3r :: "op_l3r \<Rightarrow> ('s, 'r) body" where
  "body_l3r i f = (case i of
      TSETR_l3r \<Rightarrow> None
    | LSATS_l3r \<Rightarrow> assign2 0 1 (LSATS_value (op 0 f) (op 1 f) (op 2 f)) f
    | LDAWF_l3r \<Rightarrow> assign 0 (op 1 f + push_bit 2 (op 2 f)) f
    | LDAWB_l3r \<Rightarrow> assign 0 (op 1 f - push_bit 2 (op 2 f)) f
    | LDA16F_l3r \<Rightarrow> assign 0 (op 1 f + push_bit 1 (op 2 f)) f
    | LDA16B_l3r \<Rightarrow> assign 0 (op 1 f - push_bit 1 (op 2 f)) f
    | STW_l3r \<Rightarrow> store_word (op 0 f) (op 1 f + push_bit 2 (op 2 f)) finish f
    | ST16_l3r \<Rightarrow> store_short (op 0 f) (op 1 f + push_bit 1 (op 2 f)) finish f
    | ST8_l3r \<Rightarrow> store_byte (op 0 f) (op 1 f + op 2 f) finish f
    | MUL_l3r \<Rightarrow> assign 0 (op 1 f * op 2 f) f
    | DIVS_l3r \<Rightarrow> assign_arith (DIVS_value (op 1 f) (op 2 f)) f
    | DIVU_l3r \<Rightarrow> assign_arith (DIVU_value (op 1 f) (op 2 f)) f
    | REMS_l3r \<Rightarrow> assign_arith (REMS_value (op 1 f) (op 2 f)) f
    | REMU_l3r \<Rightarrow> assign_arith (REMU_value (op 1 f) (op 2 f)) f
    | XOR_l3r \<Rightarrow> assign 0 (op 1 f XOR op 2 f) f
    | ASHR_l3r \<Rightarrow> assign 0 (ASHR_value (op 1 f) (op 2 f)) f
    | CRC_l3r \<Rightarrow> assign 0 (crc32 (op 0 f) (op 1 f) (op 2 f)) f)"

definition body_l2rus :: "op_l2rus \<Rightarrow> ('s, 'r) body" where
  "body_l2rus i f = (case i of
      LDAWF_l2rus \<Rightarrow> assign 0 (op 1 f + op 2 f) f
    | LDAWB_l2rus \<Rightarrow> assign 0 (op 1 f - op 2 f) f
    | ASHR_l2rus \<Rightarrow> (if op 2 f < 32 then assign 0 (signed_drop_bit (unat (op 2 f)) (op 1 f)) f else None)
    | ASHR_32_l2rus \<Rightarrow> assign 0 (signed_drop_bit 31 (op 1 f)) f
    | UNZIP_l2rus \<Rightarrow> assign2 0 1 (UNZIP_value (op 0 f) (op 1 f) (op 2 f)) f
    | ZIP_l2rus \<Rightarrow> assign2 0 1 (ZIP_value (op 0 f) (op 1 f) (op 2 f)) f
    | OUTPW_l2rus \<Rightarrow> None
    | INPW_l2rus \<Rightarrow> None
    | LDDSP_l2rus \<Rightarrow> (let Addr = op 3 f + push_bit 3 (op 2 f) in
        load_word Addr (\<lambda>v. load_word (Addr + 4) (\<lambda>w. assign2 0 1 (v, w))) f)
    | STDSP_l2rus \<Rightarrow> (let Addr = op 3 f + push_bit 3 (op 2 f) in
        store_word (op 0 f) Addr (store_word (op 1 f) (Addr + 4) finish) f))"

text \<open>The body that \<open>LDD\<close> and \<open>STD\<close> have in both of their formats.\<close>

definition LDD_body :: "('s, 'r) body" where
  "LDD_body f = (let Addr = op 1 f + push_bit 3 (op 2 f) in
     load_word Addr (\<lambda>v. load_word (Addr + 4) (\<lambda>w. assign2 0 3 (v, w))) f)"

definition STD_body :: "('s, 'r) body" where
  "STD_body f = (let Addr = op 1 f + push_bit 3 (op 2 f) in
     store_word (op 0 f) Addr (store_word (op 3 f) (Addr + 4) finish) f)"

definition body_l4r :: "op_l4r \<Rightarrow> ('s, 'r) body" where
  "body_l4r i f = (case i of
      LDD_l4r \<Rightarrow> LDD_body f
    | CRCN_l4r \<Rightarrow> None
    | STD_l4r \<Rightarrow> STD_body f
    | MACCU_l4r \<Rightarrow> assign2 0 3 (MACCU_value (op 0 f) (op 3 f) (op 1 f) (op 2 f)) f
    | MACCS_l4r \<Rightarrow> assign2 0 3 (MACCS_value (op 0 f) (op 3 f) (op 1 f) (op 2 f)) f
    | CRC8_l4r \<Rightarrow> assign2 3 0 (crc8 (op 3 f) (ucast (op 1 f)) (op 2 f), drop_bit 8 (op 1 f)) f)"

definition body_l3rus :: "op_l3rus \<Rightarrow> ('s, 'r) body" where
  "body_l3rus i f = (case i of
      LDD_l3rus \<Rightarrow> LDD_body f
    | STD_l3rus \<Rightarrow> STD_body f)"

definition body_l5r :: "op_l5r \<Rightarrow> ('s, 'r) body" where
  "body_l5r i f = (case i of
      XOR4_l5r \<Rightarrow> assign 0 (op 1 f XOR op 2 f XOR op 3 f XOR op 4 f) f
    | LADD_l5r \<Rightarrow> assign2 3 0 (LADD_value (op 1 f) (op 2 f) (op 4 f)) f
    | LSUB_l5r \<Rightarrow> assign2 3 0 (LSUB_value (op 1 f) (op 2 f) (op 4 f)) f
    | LDIVU_l5r \<Rightarrow> (case LDIVU_value (op 4 f) (op 1 f) (op 2 f) of
          None \<Rightarrow> raise ET_ARITHMETIC 0 f
        | Some r \<Rightarrow> assign2 0 3 r f))"

definition body_l4rus :: "op_l4rus \<Rightarrow> ('s, 'r) body" where
  "body_l4rus i f = (case i of
      LEXTRACT_l4rus \<Rightarrow> do {
        bitp \<leftarrow> array_get bitp_map (unat (op 4 f));
        assign 0 (LEXTRACT_value (op 1 f) (op 2 f) (op 3 f) bitp) f
      })"

definition body_l6r :: "op_l6r \<Rightarrow> ('s, 'r) body" where
  "body_l6r i f = (case i of
      LMUL_l6r \<Rightarrow> assign2 0 3 (LMUL_value (op 1 f) (op 2 f) (op 4 f) (op 5 f)) f)"

text \<open>Conditional branches: taken when \<open>cond\<close> holds of operand 0.\<close>

definition branch_if :: "bool \<Rightarrow> ('s, 'r) body \<Rightarrow> ('s, 'r) body" where
  "branch_if cond k f = (if cond then k (write_pc_unchecked (op 1 f) f) else finish f)"

definition illegal_if :: "bool \<Rightarrow> ('s, 'r) body" where
  "illegal_if cond f = (if cond then raise ET_ILLEGAL_PC (FROM_PC (op 1 f) f) f else finish f)"

definition body_ru6 :: "op_ru6 \<Rightarrow> ('s, 'r) body" where
  "body_ru6 i f = (case i of
      LDAWDP_ru6 \<Rightarrow> assign 0 (op 2 f + op 1 f) f
    | LDWDP_ru6 \<Rightarrow> load_word (op 2 f + op 1 f) (assign 0) f
    | LDWCP_ru6 \<Rightarrow> load_word (op 2 f + op 1 f) (assign 0) f
    | LDWSP_ru6 \<Rightarrow> load_word (op 2 f + op 1 f) (assign 0) f
    | STWDP_ru6 \<Rightarrow> store_word (op 0 f) (op 2 f + op 1 f) finish f
    | STWSP_ru6 \<Rightarrow> store_word (op 0 f) (op 2 f + op 1 f) finish f
    | LDAWSP_ru6 \<Rightarrow> assign 0 (op 2 f + op 1 f) f
    | LDC_ru6 \<Rightarrow> assign 0 (op 1 f) f
    | BRFT_ru6 \<Rightarrow> branch_if (op 0 f \<noteq> 0) finish f
    | BRFT_illegal_ru6 \<Rightarrow> illegal_if (op 0 f \<noteq> 0) f
    | BRBT_ru6 \<Rightarrow> branch_if (op 0 f \<noteq> 0) yield f
    | BRBT_illegal_ru6 \<Rightarrow> illegal_if (op 0 f \<noteq> 0) f
    | BRFF_ru6 \<Rightarrow> branch_if (op 0 f = 0) finish f
    | BRFF_illegal_ru6 \<Rightarrow> illegal_if (op 0 f = 0) f
    | BRBF_ru6 \<Rightarrow> branch_if (op 0 f = 0) yield f
    | BRBF_illegal_ru6 \<Rightarrow> illegal_if (op 0 f = 0) f
    | SETC_ru6 \<Rightarrow> None)"

text \<open>\<open>ENTSP\<close> and \<open>DUALENTSP\<close>: save the link register and grow the stack.\<close>

definition enter_body :: "bool \<Rightarrow> ('s, 'r) body" where
  "enter_body di f =
     (if 0 < op 0 f then
        store_word (op 2 f) (op 1 f) (\<lambda>f. finish (set_dual di (set_op 1 (op 1 f - op 0 f) f))) f
      else finish (set_dual di f))"

definition RETSP_body :: "('s, 'r) body" where
  "RETSP_body f =
     (if 0 < op 0 f then
        let Addr = op 1 f + op 0 f in
        load_word Addr (\<lambda>v f. write_pc v yield (set_op 1 Addr (set_op 2 v f))) f
      else write_pc (op 2 f) yield f)"

definition RETSP_xs2a_body :: "('s, 'r) body" where
  "RETSP_xs2a_body f = (
     let leave = (\<lambda>lr f. write_pc (lr AND NOT 1) yield (set_dual (lr AND 1 \<noteq> 0) f)) in
     if 0 < op 0 f then
       let ea = op 1 f + op 0 f in
       load_word ea (\<lambda>lr f. leave lr (set_op 1 ea f)) f
     else leave (op 2 f) f)"

definition sr_of :: "u32 \<Rightarrow> sr_t" where
  "sr_of v = ucast v"

definition body_u6 :: "op_u6 \<Rightarrow> ('s, 'r) body" where
  "body_u6 i f = (case i of
      EXTSP_u6 \<Rightarrow> assign 1 (op 1 f - op 0 f) f
    | EXTDP_u6 \<Rightarrow> assign 1 (op 1 f - op 0 f) f
    | ENTSP_u6 \<Rightarrow> enter_body False f
    | DUALENTSP_u6 \<Rightarrow> enter_body True f
    | RETSP_u6 \<Rightarrow> RETSP_body f
    | RETSP_xs2a_u6 \<Rightarrow> RETSP_xs2a_body f
    | KRESTSP_u6 \<Rightarrow> (let Addr = op 1 f + op 0 f in
        load_word Addr (\<lambda>v. assign2 1 2 (v, Addr)) f)
    | KENTSP_u6 \<Rightarrow> store_word (op 1 f) (op 2 f) (\<lambda>f. assign 1 (op 2 f - fr_fields f ! 0) f) f
    | BRFU_u6 \<Rightarrow> finish (write_pc_unchecked (op 0 f) f)
    | BRFU_illegal_u6 \<Rightarrow> raise ET_ILLEGAL_PC (FROM_PC (op 0 f) f) f
    | BRBU_u6 \<Rightarrow> yield (write_pc_unchecked (op 0 f) f)
    | BRBU_illegal_u6 \<Rightarrow> raise ET_ILLEGAL_PC (FROM_PC (op 0 f) f) f
    | LDAWCP_u6 \<Rightarrow> assign 1 (op 2 f + op 0 f) f
    | SETSR_u6 \<Rightarrow> assign 1 (ucast (sr_of (op 1 f) OR sr_of (op 0 f))) f
    | CLRSR_u6 \<Rightarrow> assign 1 (ucast (sr_of (op 1 f) AND NOT (sr_of (op 0 f)))) f
    | BLAT_u6 \<Rightarrow> load_word (op 2 f + push_bit 2 (op 0 f))
        (\<lambda>v f. write_pc v yield (set_op 1 (FROM_PC (fr_nextPc f) f) f)) f
    | KCALL_u6 \<Rightarrow> raise ET_KCALL (op 0 f) f
    | GETSR_u6 \<Rightarrow> assign 1 (op 0 f AND op 2 f) f)"

text \<open>The address of the next instruction as \<open>LDAP\<close> uses it, with the dual issue correction.\<close>

definition ldap_value :: "u32 \<Rightarrow> ('s, 'r) frame \<Rightarrow> u32" where
  "ldap_value v f =
     (if dualIssue (fr_thread f) then v + FROM_PC (fr_nextPc f) f mod 4 else v)"

definition body_u10 :: "op_u10 \<Rightarrow> ('s, 'r) body" where
  "body_u10 i f = (case i of
      LDWCPL_u10 \<Rightarrow> load_word (op 2 f + op 0 f) (assign 1) f
    | LDAPF_u10 \<Rightarrow> assign 1 (ldap_value (FROM_PC (fr_nextPc f) f + op 0 f) f) f
    | LDAPB_u10 \<Rightarrow> assign 1 (ldap_value (FROM_PC (fr_nextPc f) f - op 0 f) f) f
    | BLRF_u10 \<Rightarrow> finish (write_pc_unchecked (op 0 f) (set_op 1 (FROM_PC (fr_nextPc f) f OR dual_bit f) f))
    | BLRF_illegal_u10 \<Rightarrow> raise ET_ILLEGAL_PC (FROM_PC (op 0 f) f) f
    | BLRB_u10 \<Rightarrow> yield (write_pc_unchecked (op 0 f) (set_op 1 (FROM_PC (fr_nextPc f) f OR dual_bit f) f))
    | BLRB_illegal_u10 \<Rightarrow> raise ET_ILLEGAL_PC (FROM_PC (op 0 f) f) f
    | BLACP_u10 \<Rightarrow> load_word (op 2 f + push_bit 2 (op 0 f)) (\<lambda>v. write_pc v yield)
        (set_op 1 (FROM_PC (fr_nextPc f) f) f))"

definition body_2r :: "op_2r \<Rightarrow> ('s, 'r) body" where
  "body_2r i f = (case i of
      NOT_2r \<Rightarrow> assign 0 (NOT (op 1 f)) f
    | NEG_2r \<Rightarrow> assign 0 (- op 1 f) f
    | SEXT_2r \<Rightarrow> assign 0 (signExtend (op 0 f) (op 1 f)) f
    | ZEXT_2r \<Rightarrow> assign 0 (zeroExtend (op 0 f) (op 1 f)) f
    | ANDNOT_2r \<Rightarrow> assign 0 (op 0 f AND NOT (op 1 f)) f
    | MKMSK_2r \<Rightarrow> assign 0 (makeMask (op 1 f)) f
    | BITREV_2r \<Rightarrow> assign 0 (bitReverse (op 1 f)) f
    | BYTEREV_2r \<Rightarrow> assign 0 (bswap32 (op 1 f)) f
    | CLZ_2r \<Rightarrow> assign 0 (of_nat (countLeadingZeros (op 1 f))) f
    | _ \<Rightarrow> None)"

definition body_rus :: "op_rus \<Rightarrow> ('s, 'r) body" where
  "body_rus i f = (case i of
      SEXT_rus \<Rightarrow> assign 0 (signExtend (op 0 f) (op 1 f)) f
    | ZEXT_rus \<Rightarrow> assign 0 (zeroExtend (op 0 f) (op 1 f)) f
    | MKMSK_rus \<Rightarrow> assign 0 (op 1 f) f
    | _ \<Rightarrow> None)"

definition body_l2r :: "op_l2r \<Rightarrow> ('s, 'r) body" where
  "body_l2r i f = (case i of
      BITREV_l2r \<Rightarrow> assign 0 (bitReverse (op 1 f)) f
    | BYTEREV_l2r \<Rightarrow> assign 0 (bswap32 (op 1 f)) f
    | CLZ_l2r \<Rightarrow> assign 0 (of_nat (countLeadingZeros (op 1 f))) f
    | GETPS_l2r \<Rightarrow> (case getProcessorState (op 1 f) (fr_core f) of
          None \<Rightarrow> raise ET_ILLEGAL_PS (op 1 f) f
        | Some v \<Rightarrow> assign 0 v f)
    | _ \<Rightarrow> None)"

definition body_1r :: "op_1r \<Rightarrow> ('s, 'r) body" where
  "body_1r i f = (case i of
      SETSP_1r \<Rightarrow> assign 1 (op 0 f) f
    | SETDP_1r \<Rightarrow> assign 1 (op 0 f) f
    | SETCP_1r \<Rightarrow> assign 1 (op 0 f) f
    | ECALLT_1r \<Rightarrow> (if op 0 f \<noteq> 0 then raise ET_ECALL 0 f else finish f)
    | ECALLF_1r \<Rightarrow> (if op 0 f = 0 then raise ET_ECALL 0 f else finish f)
    | BAU_1r \<Rightarrow> write_pc (op 0 f) yield f
    | BLA_1r \<Rightarrow> write_pc (op 0 f) yield (set_op 1 (FROM_PC (fr_nextPc f) f OR dual_bit f) f)
    | BRU_1r \<Rightarrow> write_pc (FROM_PC (fr_nextPc f + op 0 f * (if dualIssue (fr_thread f) then 2 else 1)) f) yield f
    | KCALL_1r \<Rightarrow> raise ET_KCALL (op 0 f) f
    | _ \<Rightarrow> None)"

definition KRET_body :: "('s, 'r) body" where
  "KRET_body f = write_pc (op 0 f) finish
     (set_op 4 (ucast (sr_set WAITING False (sr_of (op 2 f)))) (set_op 3 (op 1 f) f))"

definition body_0r :: "op_0r \<Rightarrow> ('s, 'r) body" where
  "body_0r i f = (case i of
      NOP_0r \<Rightarrow> finish f
    | GETID_0r \<Rightarrow> assign 0 (thread_num (fr_thread f)) f
    | GETET_0r \<Rightarrow> assign 0 (op 1 f) f
    | GETED_0r \<Rightarrow> assign 0 (op 1 f) f
    | GETKEP_0r \<Rightarrow> assign 0 (op 1 f) f
    | GETKSP_0r \<Rightarrow> assign 0 (op 1 f) f
    | SETKEP_0r \<Rightarrow> assign 0 (op 1 f AND NOT (push_bit 7 1 - 1)) f
    | KRET_0r \<Rightarrow> KRET_body f
    | LDSPC_0r \<Rightarrow> load_word (op 1 f + push_bit 2 1) (assign 0) f
    | LDSSR_0r \<Rightarrow> load_word (op 1 f + push_bit 2 2) (assign 0) f
    | LDSED_0r \<Rightarrow> load_word (op 1 f + push_bit 2 3) (assign 0) f
    | LDET_0r \<Rightarrow> load_word (op 1 f + push_bit 2 4) (assign 0) f
    | STSPC_0r \<Rightarrow> store_word (op 0 f) (op 1 f + push_bit 2 1) finish f
    | STSSR_0r \<Rightarrow> store_word (op 0 f) (op 1 f + push_bit 2 2) finish f
    | STSED_0r \<Rightarrow> store_word (op 0 f) (op 1 f + push_bit 2 3) finish f
    | STET_0r \<Rightarrow> store_word (op 0 f) (op 1 f + push_bit 2 4) finish f
    | _ \<Rightarrow> None)"

definition body_pseudo :: "op_pseudo \<Rightarrow> ('s, 'r) body" where
  "body_pseudo i f = (case i of
      ILLEGAL_PC \<Rightarrow> raise ET_ILLEGAL_PC (FROM_PC (fr_nextPc f) f - 2) f
    | ILLEGAL_PC_THREAD \<Rightarrow> raise ET_ILLEGAL_PC (pendingPc (fr_thread f)) f
    | ILLEGAL_INSTRUCTION \<Rightarrow> raise ET_ILLEGAL_INSTRUCTION 0 f
    | _ \<Rightarrow> None)"

definition inst_body :: "InstructionOpcode \<Rightarrow> ('s, 'r) body" where
  "inst_body opc = (case opc of
      F3r i \<Rightarrow> body_3r i | F2rus i \<Rightarrow> body_2rus i | Fl3r i \<Rightarrow> body_l3r i | Fl2rus i \<Rightarrow> body_l2rus i
    | Fl4r i \<Rightarrow> body_l4r i | Fl3rus i \<Rightarrow> body_l3rus i | Fl5r i \<Rightarrow> body_l5r i | Fl4rus i \<Rightarrow> body_l4rus i
    | Fl6r i \<Rightarrow> body_l6r i
    | Fru6 i \<Rightarrow> body_ru6 i | Flru6 i \<Rightarrow> body_ru6 (short_ru6 i)
    | Fu6 i \<Rightarrow> body_u6 i | Flu6 i \<Rightarrow> body_u6 (short_u6 i)
    | Fu10 i \<Rightarrow> body_u10 i | Flu10 i \<Rightarrow> body_u10 (short_u10 i)
    | F2r i \<Rightarrow> body_2r i | Frus i \<Rightarrow> body_rus i | Fl2r i \<Rightarrow> body_l2r i | F1r i \<Rightarrow> body_1r i
    | F0r i \<Rightarrow> body_0r i | Fl0r i \<Rightarrow> KRET_body | Fpseudo i \<Rightarrow> body_pseudo i)"

subsection \<open>The generated function around a body\<close>

definition emitRegWritePending :: "InstructionOpcode \<Rightarrow> ('s, 'r) thread \<Rightarrow> ('s, 'r) thread" where
  "emitRegWritePending opc t =
     (if inst_size opc = 2 then
        (if bufferInitialized t \<and> pc t mod 2 = 0
         then (swap_buffers t)\<lparr>bufferInitialized := False\<rparr> else t)
      else
        (if bufferInitialized t then (swap_buffers t)\<lparr>bufferInitialized := False\<rparr> else t))"

text \<open>\<open>tslice\<close> is the wake up time of the front of the scheduler queue, if there is one.\<close>

definition hasTimeSliceExpired :: "ticks_t option \<Rightarrow> ('s, 'r) thread \<Rightarrow> bool" where
  "hasTimeSliceExpired tslice t = (case tslice of None \<Rightarrow> False | Some w \<Rightarrow> w < time t)"

definition read_explicit :: "OpType \<Rightarrow> u32 \<Rightarrow> ('s, 'r) thread \<Rightarrow> u32 option" where
  "read_explicit ty field t = (case ty of
      Op_in \<Rightarrow> array_get (regs t) (unat field)
    | Op_inout \<Rightarrow> array_get (regs t) (unat field)
    | Op_imm \<Rightarrow> Some field
    | Op_out \<Rightarrow> Some 0)"

definition read_implicit :: "implicit_op \<times> OpType \<Rightarrow> ('s, 'r) thread \<Rightarrow> u32 option" where
  "read_implicit p t = (case p of
      (r, Op_out) \<Rightarrow> Some 0
    | (Reg n, _) \<Rightarrow> array_get (regs t) n
    | (SR, _) \<Rightarrow> Some (ucast (sr t)))"

fun read_all :: "('a \<Rightarrow> 'b option) \<Rightarrow> 'a list \<Rightarrow> 'b list option" where
  "read_all g [] = Some []"
| "read_all g (x # xs) = do {
     v \<leftarrow> g x;
     vs \<leftarrow> read_all g xs;
     Some (v # vs)
   }"

definition read_operands :: "InstructionOpcode \<Rightarrow> operands \<Rightarrow> ('s, 'r) thread \<Rightarrow> u32 list option" where
  "read_operands opc flds t = do {
     es \<leftarrow> read_all (\<lambda>(ty, v). read_explicit ty v t) (zip (explicit_ops opc) flds);
     ws \<leftarrow> read_all (\<lambda>p. read_implicit p t) (implicit_ops opc);
     Some (es @ ws)
   }"

definition emitCycles :: "InstructionOpcode \<Rightarrow> ('s, 'r) thread \<Rightarrow> ('s, 'r) thread" where
  "emitCycles opc t =
     (if \<not> dualIssue t \<or> pc t mod 2 = 0
      then t\<lparr>time := time t + ucast (instructionCycles t * inst_cycles opc)\<rparr> else t)"

text \<open>The register that receives operand \<open>n\<close>, if it is an output other than the status register.\<close>

definition write_target :: "InstructionOpcode \<Rightarrow> operands \<Rightarrow> nat \<Rightarrow> nat option" where
  "write_target opc flds n =
     (if all_ops opc ! n \<in> {Op_out, Op_inout} then
        (if n < length (explicit_ops opc) then Some (unat (flds ! n))
         else (case fst (implicit_ops opc ! (n - length (explicit_ops opc))) of
             Reg r \<Rightarrow> Some r
           | SR \<Rightarrow> None))
      else None)"

definition write_operand :: "InstructionOpcode \<Rightarrow> nat \<Rightarrow> u32 \<Rightarrow> ('s, 'r) thread \<Rightarrow> ('s, 'r) thread option" where
  "write_operand opc r v t = (if inst_size opc = 2 then writeRegister r v t else set_reg r v t)"

fun write_operands :: "InstructionOpcode \<Rightarrow> operands \<Rightarrow> nat \<Rightarrow> u32 list \<Rightarrow> ('s, 'r) thread \<Rightarrow> ('s, 'r) thread option" where
  "write_operands opc flds n [] t = Some t"
| "write_operands opc flds n (v # vs) t = do {
     t \<leftarrow> (case write_target opc flds n of None \<Rightarrow> Some t | Some r \<Rightarrow> write_operand opc r v t);
     write_operands opc flds (n + 1) vs t
   }"

text \<open>\<open>emitRegWriteBack\<close> up to the assignment of the pc; the status register follows.\<close>

definition emitRegWriteBack :: "InstructionOpcode \<Rightarrow> ('s, 'r) frame \<Rightarrow> ('s, 'r) frame option" where
  "emitRegWriteBack opc f = do {
     t \<leftarrow> write_operands opc (fr_fields f) 0 (fr_op f) (fr_thread f);
     Some (f\<lparr>fr_thread := t\<lparr>pc := fr_nextPc f\<rparr>\<rparr>)
   }"

text \<open>
  \<open>Thread::updateExecutionFrequency\<close> on the arrays of the cache the thread
  executes from.  An increment beyond the range of \<open>int\<close> is undefined.
\<close>

definition bump_frequency :: "u32 \<Rightarrow> dcache \<Rightarrow> (bool \<times> dcache) option" where
  "bump_frequency shiftedAddress dc = do {
     n \<leftarrow> array_get (dc_executionFrequency dc) (unat shiftedAddress);
     assert_that (n + 1 < 2 ^ 31);
     fs \<leftarrow> array_set (dc_executionFrequency dc) (unat shiftedAddress) (n + 1);
     Some (n + 1 > 128, dc\<lparr>dc_executionFrequency := fs\<rparr>)
   }"

definition updateExecutionFrequency :: "u32 \<Rightarrow> ('s, 'r) frame \<Rightarrow> ('s, 'r) frame option" where
  "updateExecutionFrequency shiftedAddress f = (
     let t = fr_thread f; c = fr_core f in
     if dv_rom (decodeCache t) then do {
       (hot, dc) \<leftarrow> bump_frequency shiftedAddress (fr_romdc f);
       c \<leftarrow> (if hot \<and> \<not> dualIssue t \<and> isInRam c t then runJIT shiftedAddress c else Some c);
       Some (f\<lparr>fr_romdc := dc, fr_core := c\<rparr>)
     }
     else do {
       (hot, dc) \<leftarrow> bump_frequency shiftedAddress (ramDecodeCache c);
       let c = c\<lparr>ramDecodeCache := dc\<rparr>;
       c \<leftarrow> (if hot \<and> \<not> dualIssue t \<and> isInRam c t then runJIT shiftedAddress c else Some c);
       Some (f\<lparr>fr_core := c\<rparr>)
     })"

text \<open>
  The result of an instruction function: it returns, or it throws a
  \<open>WatchpointException\<close>.  \<open>resched\<close> is the time at which the thread was put
  back into the scheduler queue, if it was.
\<close>

datatype ('s, 'r) exec_result =
  Returned InstReturn (resched: "ticks_t option") (frame_of: "('s, 'r) frame")
| Watchpoint_thrown WatchpointType u32 (resched: "ticks_t option") (frame_of: "('s, 'r) frame")

text \<open>What \<open>SystemState::schedule\<close> does to the thread itself.\<close>

definition mark_scheduled :: "('s, 'r) thread \<Rightarrow> ('s, 'r) thread" where
  "mark_scheduled t = t\<lparr>sr := sr_set WAITING False (sr t), pausedOn := None\<rparr>"

definition reschedule :: "('s, 'r) frame \<Rightarrow> ticks_t option \<times> ('s, 'r) frame" where
  "reschedule f = (Some (time (fr_thread f)), f\<lparr>fr_thread := mark_scheduled (fr_thread f)\<rparr>)"

definition finish_exception ::
  "ticks_t option \<Rightarrow> InstructionOpcode \<Rightarrow> ExceptionType \<Rightarrow> u32 \<Rightarrow> ('s, 'r) frame \<Rightarrow> ('s, 'r) exec_result option" where
  "finish_exception tslice opc et ed f = do {
     (newPc, t) \<leftarrow> exception (fr_core f) (pc (fr_thread f)) et ed (fr_thread f);
     let t = emitCycles opc (t\<lparr>pc := newPc\<rparr>);
     let f = f\<lparr>fr_thread := t\<rparr>;
     if hasTimeSliceExpired tslice t then
       (let (rs, f) = reschedule f in Some (Returned END_THREAD_EXECUTION rs f))
     else Some (Returned END_TRACE None f)
   }"

text \<open>The yield at the end of a body: the thread is queued before its cycles are counted.\<close>

definition do_yield :: "ticks_t option \<Rightarrow> yield_kind \<Rightarrow> ('s, 'r) frame \<Rightarrow> ticks_t option \<times> ('s, 'r) frame" where
  "do_yield tslice y f =
     (if y = Force_yield \<or> (y = Yield \<and> hasTimeSliceExpired tslice (fr_thread f))
      then (let (rs, f) = reschedule f in (rs, f\<lparr>fr_retval := END_THREAD_EXECUTION\<rparr>))
      else (None, f))"

definition finish_normal ::
  "bool \<Rightarrow> InstructionOpcode \<Rightarrow> ticks_t option \<Rightarrow> ('s, 'r) frame \<Rightarrow> ('s, 'r) exec_result option" where
  "finish_normal tracing opc rs f = do {
     f \<leftarrow> (if \<not> tracing \<and> mayBranch opc then updateExecutionFrequency (pc (fr_thread f)) f else Some f);
     Some (case fr_watch f of
         Some (ty, a) \<Rightarrow> Watchpoint_thrown ty a rs f
       | None \<Rightarrow> Returned (fr_retval f) rs f)
   }"

definition start_frame ::
  "InstructionOpcode \<Rightarrow> operands \<Rightarrow> ('s, 'r) thread \<Rightarrow> core \<Rightarrow> dcache \<Rightarrow> ('s, 'r) frame" where
  "start_frame opc flds t c romdc =
     \<lparr>fr_thread = t, fr_core = c, fr_romdc = romdc, fr_fields = flds, fr_op = [],
      fr_nextPc = pc t + of_nat (inst_size opc div 2), fr_retval = CONTINUE, fr_watch = None\<rparr>"

text \<open>
  The generated function of an instruction that writes no status register.
\<close>

definition exec_local ::
  "ticks_t option \<Rightarrow> bool \<Rightarrow> InstructionOpcode \<Rightarrow> operands \<Rightarrow> ('s, 'r) thread \<Rightarrow> core \<Rightarrow> dcache
     \<Rightarrow> ('s, 'r) exec_result option" where
  "exec_local tslice tracing opc flds t c romdc = (
     let t = emitRegWritePending opc t;
         f = start_frame opc flds t c romdc in
     if yieldBefore opc \<and> hasTimeSliceExpired tslice t then
       (let (rs, f) = reschedule f in Some (Returned END_THREAD_EXECUTION rs f))
     else do {
       ops \<leftarrow> read_operands opc flds t;
       r \<leftarrow> inst_body opc (f\<lparr>fr_op := ops\<rparr>);
       (case r of
          Raise et ed f \<Rightarrow> finish_exception tslice opc et ed f
        | Back y f \<Rightarrow> do {
            let (rs, f) = do_yield tslice y f;
            f \<leftarrow> emitRegWriteBack opc (f\<lparr>fr_thread := emitCycles opc (fr_thread f)\<rparr>);
            finish_normal tracing opc rs f
          })
     })"

end
