(* ===== verification/Geometry.thy ===== *)
theory Geometry
  imports Transform
begin

text \<open>
  Addresses of a core: the arithmetic between an address, the offset into
  the RAM, the index into the invalidation marks and the pc of an entry of
  the decode cache, and what the decoder fetches for an entry.
\<close>

text \<open>
  The configuration of a core: the RAM has a power of two of bytes and does
  not reach the end of the address space, the decode cache has an entry per
  half-word of RAM and the RAM base as its base, and no ROM starts where the
  RAM ends.
\<close>

definition core_wf :: "core \<Rightarrow> bool" where
  "core_wf c \<longleftrightarrow>
     2 \<le> ramSizeLog2 c \<and> ramSizeLog2 c < 32 \<and>
     length (memory c) = 2 ^ ramSizeLog2 c \<and>
     Suc (unat (ramBaseMultiple c)) * 2 ^ ramSizeLog2 c < 2 ^ 32 \<and>
     dc_size (ramDecodeCache c) = getRamSizeShorts c \<and>
     dc_base (ramDecodeCache c) = getRamBase c \<and>
     \<not> isValidRomAddress c (getRamBase c + getRamSize c)"

definition ram_shorts :: "core \<Rightarrow> nat" where
  "ram_shorts c = 2 ^ (ramSizeLog2 c - 1)"

definition ram_offset :: "core \<Rightarrow> u32 \<Rightarrow> nat" where
  "ram_offset c address = unat address - unat (getRamBase c)"

lemma wf_sizes:
  assumes "core_wf c"
  shows "unat (getRamSize c) = 2 ^ ramSizeLog2 c"
    and "unat (getRamSizeShorts c) = ram_shorts c"
    and "unat (getRamBase c) = unat (ramBaseMultiple c) * 2 ^ ramSizeLog2 c"
    and "2 ^ ramSizeLog2 c = 2 * ram_shorts c"
    and "even (ram_shorts c)"
    and "unat (getRamBase c) + 2 ^ ramSizeLog2 c < 2 ^ 32"
proof -
  have k: "ramSizeLog2 c < 32" "ramSizeLog2 c - 1 < 32"
    using assms by (auto simp: core_wf_def)
  show s: "unat (getRamSize c) = 2 ^ ramSizeLog2 c"
    "unat (getRamSizeShorts c) = ram_shorts c"
    using k by (simp_all add: getRamSize_def getRamSizeShorts_def ram_shorts_def unat_pow)
  have "unat (getRamSize c) * unat (ramBaseMultiple c) < 2 ^ LENGTH(32)"
    using assms by (simp add: s core_wf_def mult.commute)
  then show b: "unat (getRamBase c) = unat (ramBaseMultiple c) * 2 ^ ramSizeLog2 c"
    unfolding getRamBase_def by (subst unat_mult_lem [THEN iffD1]) (simp_all add: s mult.commute)
  have "ramSizeLog2 c = Suc (ramSizeLog2 c - 1)" "ramSizeLog2 c - 1 = Suc (ramSizeLog2 c - 2)"
    using assms by (auto simp: core_wf_def)
  then show "2 ^ ramSizeLog2 c = 2 * ram_shorts c" "even (ram_shorts c)"
    unfolding ram_shorts_def by (metis power_Suc, metis dvd_triv_left power_Suc)
  show "unat (getRamBase c) + 2 ^ ramSizeLog2 c < 2 ^ 32"
    using assms by (simp add: b core_wf_def)
qed

lemma div_eq_iff_bounds: "0 < d \<Longrightarrow> x div d = q \<longleftrightarrow> q * d \<le> x \<and> x < Suc q * (d :: nat)"
  using div_times_less_eq_dividend [of x d] dividend_less_div_times [of d x]
  by (auto intro: div_nat_eqI simp: mult.commute)

lemma valid_ram_iff:
  assumes "core_wf c"
  shows "isValidRamAddress c a \<longleftrightarrow>
    unat (getRamBase c) \<le> unat a \<and> unat a < unat (getRamBase c) + 2 * ram_shorts c"
proof -
  have "isValidRamAddress c a \<longleftrightarrow> unat a div 2 ^ ramSizeLog2 c = unat (ramBaseMultiple c)"
    unfolding isValidRamAddress_def word_unat_eq_iff
    by (simp only: unat_drop_bit_eq) (simp only: drop_bit_eq_div)
  also have "\<dots> \<longleftrightarrow> unat (ramBaseMultiple c) * 2 ^ ramSizeLog2 c \<le> unat a
      \<and> unat a < Suc (unat (ramBaseMultiple c)) * 2 ^ ramSizeLog2 c"
    by (simp add: div_eq_iff_bounds)
  finally show ?thesis
    using wf_sizes [OF assms] by (simp add: algebra_simps)
qed

lemma ram_index_valid:
  assumes "core_wf c" "isValidRamAddress c a"
  shows "ram_index c a = Some (ram_offset c a)" "ram_offset c a < 2 * ram_shorts c"
    "ram_offset c a < length (memory c)" "unat a = unat (getRamBase c) + ram_offset c a"
  using valid_ram_iff [OF assms(1), of a] assms wf_sizes(4) [OF assms(1)]
  by (auto simp: ram_index_def ram_offset_def word_le_nat_alt core_wf_def)

lemma base_half:
  assumes "core_wf c"
  shows "unat (getRamBase c div 2) = unat (getRamBase c) div 2" "even (unat (getRamBase c))"
    "4 dvd unat (getRamBase c)"
proof -
  show "unat (getRamBase c div 2) = unat (getRamBase c) div 2"
    by (simp add: unat_div)
  have "4 dvd (2 :: nat) ^ ramSizeLog2 c"
    using assms le_imp_power_dvd [of 2 "ramSizeLog2 c" "2 :: nat"] by (simp add: core_wf_def)
  then show "4 dvd unat (getRamBase c)"
    using wf_sizes(3) [OF assms] by simp
  then show "even (unat (getRamBase c))"
    by presburger
qed

lemma info_index_valid:
  assumes "core_wf c" "isValidRamAddress c a"
  shows "info_index c (drop_bit 1 a) = Some (ram_offset c a div 2)"
    "ram_offset c a div 2 < ram_shorts c"
proof -
  obtain k where k: "unat (getRamBase c) = 2 * k"
    using base_half(2) [OF assms(1)] by (rule evenE)
  note v = ram_index_valid [OF assms]
  then show "ram_offset c a div 2 < ram_shorts c"
    by simp
  have "unat a div 2 = k + ram_offset c a div 2"
    using v(4) k by simp
  then show "info_index c (drop_bit 1 a) = Some (ram_offset c a div 2)"
    using k by (simp add: info_index_def word_le_nat_alt unat_half base_half(1) [OF assms(1)])
qed

lemma ram_offset_aligned:
  assumes "core_wf c" "isValidRamAddress c a"
  shows "a AND 1 = 0 \<Longrightarrow> even (ram_offset c a)"
    and "a AND 3 = 0 \<Longrightarrow> 4 dvd ram_offset c a"
    and "a mod 4 = 0 \<Longrightarrow> 4 dvd ram_offset c a"
proof -
  note v = ram_index_valid [OF assms]
  have "a AND 3 = a mod 4" "a AND 1 = a mod 2"
    using take_bit_eq_mod [of 2 a] take_bit_eq_mod [of 1 a]
    by (simp_all add: take_bit_eq_mask mask_eq_exp_minus_1)
  moreover have "unat (a mod 4) = unat a mod 4" "unat (a mod 2) = unat a mod 2"
    by (simp_all add: unat_mod)
  ultimately have "a AND 3 = 0 \<longleftrightarrow> 4 dvd unat a" "a mod 4 = 0 \<longleftrightarrow> 4 dvd unat a" "a AND 1 = 0 \<longleftrightarrow> even (unat a)"
    by (auto simp: dvd_eq_mod_eq_0 unat_eq_zero simp flip: unat_eq_zero)
  then show "a AND 1 = 0 \<Longrightarrow> even (ram_offset c a)" "a AND 3 = 0 \<Longrightarrow> 4 dvd ram_offset c a"
    "a mod 4 = 0 \<Longrightarrow> 4 dvd ram_offset c a"
    using v(4) base_half(2,3) [OF assms(1)] by (auto simp: dvd_add_right_iff)
qed

text \<open>The address of entry \<open>j\<close> of the cache.\<close>

definition entry_addr :: "core \<Rightarrow> nat \<Rightarrow> u32" where
  "entry_addr c j = fromRamPc c (of_nat j)"

lemma wf_base: "core_wf c \<Longrightarrow> dc_base (ramDecodeCache c) = getRamBase c"
  by (simp add: core_wf_def)

lemma unat_entry_addr:
  assumes "core_wf c" "j \<le> ram_shorts c"
  shows "unat (entry_addr c j) = unat (getRamBase c) + 2 * j"
proof -
  note wf = wf_sizes [OF assms(1)]
  have "2 * j \<le> 2 * ram_shorts c"
    using assms(2) by simp
  then have b: "unat (getRamBase c) + 2 * j < 2 ^ 32"
    using wf(4,6) by linarith
  have e: "entry_addr c j = of_nat (2 * j) + getRamBase c"
    using wf_base [OF assms(1)] by (simp add: entry_addr_def fromRamPc_def fromPc_def push_bit_eq_mult)
  have "unat (of_nat (2 * j) :: u32) = 2 * j"
    using b by (simp only: unat_of_nat) (simp add: take_bit_nat_eq_self)
  then show ?thesis
    unfolding e using b by (subst unat_add_lem [THEN iffD1]) simp_all
qed

lemma entry_addr_valid:
  assumes "core_wf c" "j < ram_shorts c"
  shows "isValidRamAddress c (entry_addr c j)" "ram_offset c (entry_addr c j) = 2 * j"
    and "entry_addr c j AND 1 = 0"
    and "Suc j = ram_shorts c \<Longrightarrow> \<not> isValidAddress c (entry_addr c (Suc j))"
proof -
  have u: "unat (entry_addr c j) = unat (getRamBase c) + 2 * j"
    using unat_entry_addr assms by simp
  then show "isValidRamAddress c (entry_addr c j)" "ram_offset c (entry_addr c j) = 2 * j"
    using assms(2) by (simp_all add: valid_ram_iff [OF assms(1)] ram_offset_def)
  have "entry_addr c j AND 1 = entry_addr c j mod 2"
    using take_bit_eq_mod [of 1 "entry_addr c j"] by (simp add: take_bit_eq_mask mask_eq_exp_minus_1)
  moreover have "unat (entry_addr c j mod 2) = 0"
    using u base_half(2) [OF assms(1)] by (simp add: unat_mod)
  ultimately show "entry_addr c j AND 1 = 0"
    by (simp add: unat_eq_zero)
  show "\<not> isValidAddress c (entry_addr c (Suc j))" if "Suc j = ram_shorts c"
  proof -
    have u': "unat (entry_addr c (Suc j)) = unat (getRamBase c) + 2 * Suc j"
      using unat_entry_addr [OF assms(1), of "Suc j"] that by simp
    then have "\<not> isValidRamAddress c (entry_addr c (Suc j))"
      using that by (simp add: valid_ram_iff [OF assms(1)])
    moreover have "unat (getRamBase c + getRamSize c) = unat (getRamBase c) + 2 * Suc j"
      using wf_sizes [OF assms(1)] that by (subst unat_add_lem [THEN iffD1]) simp_all
    then have "entry_addr c (Suc j) = getRamBase c + getRamSize c"
      using u' by (simp add: word_unat_eq_iff)
    ultimately show ?thesis
      using assms(1) by (simp add: isValidAddress_def core_wf_def)
  qed
qed

lemma entry_addr_step: "entry_addr c j + 2 = entry_addr c (Suc j)"
  by (simp add: entry_addr_def fromRamPc_def fromPc_def push_bit_eq_mult algebra_simps)

text \<open>The half-words of RAM.\<close>

definition ram_half :: "core \<Rightarrow> nat \<Rightarrow> u8 list" where
  "ram_half c j = take 2 (drop (2 * j) (memory c))"

lemma loadShort_entry:
  assumes "core_wf c" "j < ram_shorts c"
  shows "loadShort c (entry_addr c j) = Some (read16le True (ram_half c j))"
proof -
  note v = entry_addr_valid [OF assms]
  have "2 * j + 2 \<le> length (memory c)"
    using assms wf_sizes(4) [OF assms(1)] by (simp add: core_wf_def)
  then show ?thesis
    using v ram_index_valid(1) [OF assms(1) v(1)]
    by (simp add: loadShort_def loadRamShort_def array_slice_def ram_half_def)
qed

lemma fetch_entry:
  assumes "core_wf c" "j < ram_shorts c"
  shows "fetch c (entry_addr c j) = Some (read16le True (ram_half c j),
    if Suc j < ram_shorts c then Some (read16le True (ram_half c (Suc j))) else None)"
proof (cases "Suc j < ram_shorts c")
  case True
  then show ?thesis
    using loadShort_entry [OF assms] loadShort_entry [OF assms(1) True] entry_addr_valid(1) [OF assms(1) True]
    by (simp add: fetch_def entry_addr_step isValidAddress_def)
next
  case False
  then have "Suc j = ram_shorts c"
    using assms(2) by simp
  then show ?thesis
    using loadShort_entry [OF assms] entry_addr_valid(4) [OF assms]
    by (simp add: fetch_def entry_addr_step)
qed

end
