(* ===== verification/Invalidation.thy ===== *)
theory Invalidation
  imports Geometry
begin

text \<open>
  Coherence of the RAM decode cache.  An entry of the cache is an instruction
  decoded earlier; the interpreter runs it without looking at memory again.
  The marks of \<open>invalidationInfo\<close> say which entries a store may make stale.
\<close>

abbreviation ram_opcode :: "core \<Rightarrow> inst_function list" where
  "ram_opcode c \<equiv> dc_opcode (ramDecodeCache c)"

abbreviation ram_info :: "core \<Rightarrow> invalidation list" where
  "ram_info c \<equiv> the (dc_invalidationInfo (ramDecodeCache c))"

definition undecoded :: "core \<Rightarrow> nat \<Rightarrow> bool" where
  "undecoded c j \<longleftrightarrow> fst (ram_opcode c ! j) = Fpseudo DECODE"

text \<open>The arrays of the cache have the lengths the constructor allocates.\<close>

definition cache_shape :: "nat \<Rightarrow> core \<Rightarrow> bool" where
  "cache_shape n c \<longleftrightarrow>
     dc_invalidationInfo (ramDecodeCache c) \<noteq> None \<and>
     length (ram_info c) = n \<and>
     length (dc_executionFrequency (ramDecodeCache c)) = n \<and>
     length (dc_operands (ramDecodeCache c)) = n \<and>
     length (ram_opcode c) = n + 4 \<and>
     n < 2 ^ 32"

text \<open>A decoded entry is marked, and so is the second half-word of a long one.\<close>

definition long_entry :: "core \<Rightarrow> nat \<Rightarrow> bool" where
  "long_entry c j \<longleftrightarrow> \<not> undecoded c j \<and> inst_size (fst (ram_opcode c ! j)) = 4"

definition entry_marked :: "core \<Rightarrow> nat \<Rightarrow> bool" where
  "entry_marked c j \<longleftrightarrow>
     (\<not> undecoded c j \<longrightarrow> ram_info c ! j \<noteq> INVALIDATE_NONE) \<and>
     (long_entry c j \<longrightarrow>
        Suc j < length (ram_info c) \<and> ram_info c ! Suc j = INVALIDATE_CURRENT_AND_PREVIOUS)"

text \<open>
  The marks are right except perhaps at the entries of \<open>exempt\<close>, which an
  invalidation in progress is about to clear.
\<close>

definition marks_ok :: "nat set \<Rightarrow> nat \<Rightarrow> core \<Rightarrow> bool" where
  "marks_ok exempt n c \<longleftrightarrow>
     cache_shape n c \<and>
     ram_info c ! 0 \<noteq> INVALIDATE_CURRENT_AND_PREVIOUS \<and>
     (\<forall>j < n. j \<notin> exempt \<longrightarrow> entry_marked c j)"

text \<open>What an invalidation changes: entries go back to undecoded, nothing else.\<close>

definition cleared_of :: "core \<Rightarrow> core \<Rightarrow> bool" where
  "cleared_of c c' \<longleftrightarrow>
     c' = c\<lparr>ramDecodeCache := ramDecodeCache c'\<rparr> \<and>
     dc_operands (ramDecodeCache c') = dc_operands (ramDecodeCache c) \<and>
     dc_size (ramDecodeCache c') = dc_size (ramDecodeCache c) \<and>
     dc_base (ramDecodeCache c') = dc_base (ramDecodeCache c) \<and>
     dc_tracingEnabled (ramDecodeCache c') = dc_tracingEnabled (ramDecodeCache c) \<and>
     (\<forall>j. undecoded c' j \<or> ram_opcode c' ! j = ram_opcode c ! j)"

lemma cleared_of_refl: "cleared_of c c"
  by (simp add: cleared_of_def)

lemma cleared_of_trans:
  assumes "cleared_of c c'" "cleared_of c' c''"
  shows "cleared_of c c''"
proof -
  have "c'' = c\<lparr>ramDecodeCache := ramDecodeCache c''\<rparr>"
    using assms unfolding cleared_of_def by (cases c; cases c'; cases c'') simp
  moreover have "undecoded c'' j \<or> ram_opcode c'' ! j = ram_opcode c ! j" for j
    using assms unfolding cleared_of_def undecoded_def by metis
  ultimately show ?thesis
    using assms by (simp add: cleared_of_def)
qed

lemma cleared_of_undecoded: "cleared_of c c' \<Longrightarrow> undecoded c j \<Longrightarrow> undecoded c' j"
  by (auto simp: cleared_of_def undecoded_def)

lemma cleared_of_entry:
  "cleared_of c c' \<Longrightarrow> \<not> undecoded c' j \<Longrightarrow> ram_opcode c' ! j = ram_opcode c ! j"
  by (auto simp: cleared_of_def)

text \<open>One round of the loop of \<open>invalidateSlowPath\<close>.\<close>

lemma invalidate_entry_ok:
  assumes "marks_ok (insert i ex) n c" "i < n"
  obtains c' where "invalidate_entry i c = Some (ram_info c ! i, c')"
    "cache_shape n c'" "cleared_of c c'" "undecoded c' i"
    "ram_info c' = (ram_info c)[i := INVALIDATE_NONE]"
    "\<And>j. j \<noteq> i \<Longrightarrow> ram_opcode c' ! j = ram_opcode c ! j"
proof -
  define dc where "dc = ramDecodeCache c"
  obtain info where sh: "dc_invalidationInfo dc = Some info" "length info = n"
    "length (dc_executionFrequency dc) = n" "length (dc_opcode dc) = n + 4" "n < 2 ^ 32"
    using assms(1) by (auto simp: marks_ok_def cache_shape_def dc_def)
  define c' where "c' = c\<lparr>ramDecodeCache := dc\<lparr>
     dc_opcode := (dc_opcode dc)[i := getInstruction_DECODE (dc_tracingEnabled dc)],
     dc_executionFrequency := (dc_executionFrequency dc)[i := 0],
     dc_invalidationInfo := Some (info[i := INVALIDATE_NONE])\<rparr>\<rparr>"
  have pc: "unat (of_nat i :: u32) = i"
    using assms(2) sh(5) by (simp add: unat_of_nat take_bit_nat_eq_self)
  have "invalidate_entry i c = Some (ram_info c ! i, c')"
    using assms(2) sh pc
    by (simp add: invalidate_entry_def get_info_def clearOpcode_def dc_clearOpcode_def
        clear_frequency_def set_info_def c'_def flip: dc_def)
  moreover have "undecoded c' i"
    using assms(2) sh(4) by (simp add: undecoded_def c'_def getInstruction_DECODE_def)
  moreover have "cache_shape n c'"
    using assms(1) sh by (simp add: marks_ok_def cache_shape_def c'_def dc_def)
  moreover have "\<And>j. j \<noteq> i \<Longrightarrow> ram_opcode c' ! j = ram_opcode c ! j"
    by (simp add: c'_def dc_def)
  moreover have "ram_info c' = (ram_info c)[i := INVALIDATE_NONE]"
    using sh(1) by (simp add: c'_def dc_def)
  moreover have "undecoded c' j \<or> ram_opcode c' ! j = ram_opcode c ! j" for j
    using calculation(2,4) by (cases "j = i") auto
  then have "cleared_of c c'"
    by (simp add: cleared_of_def) (simp add: c'_def dc_def)
  ultimately show ?thesis
    using that by blast
qed

lemma entry_marked_cong:
  assumes "entry_marked c j" "ram_opcode c' ! j = ram_opcode c ! j"
    "length (ram_info c') = length (ram_info c)"
    "\<not> undecoded c j \<Longrightarrow> ram_info c' ! j = ram_info c ! j"
    "long_entry c j \<Longrightarrow> ram_info c' ! Suc j = ram_info c ! Suc j"
  shows "entry_marked c' j"
  using assms by (auto simp: entry_marked_def long_entry_def undecoded_def)

lemma marks_after_entry:
  assumes "marks_ok {i} n c" "i < n" "cache_shape n c'"
    "undecoded c' i" "ram_info c' = (ram_info c)[i := INVALIDATE_NONE]"
    "\<And>j. j \<noteq> i \<Longrightarrow> ram_opcode c' ! j = ram_opcode c ! j"
  shows "marks_ok (if ram_info c ! i = INVALIDATE_CURRENT_AND_PREVIOUS then {i - 1} else {}) n c'"
  unfolding marks_ok_def
proof (intro conjI allI impI)
  show "ram_info c' ! 0 \<noteq> INVALIDATE_CURRENT_AND_PREVIOUS"
    using assms(1,2,5) by (cases i) (auto simp: marks_ok_def cache_shape_def nth_list_update)
next
  fix j
  assume j: "j < n" "j \<notin> (if ram_info c ! i = INVALIDATE_CURRENT_AND_PREVIOUS then {i - 1} else {})"
  show "entry_marked c' j"
  proof (cases "j = i")
    case True
    with assms(4) show ?thesis
      by (simp add: entry_marked_def long_entry_def)
  next
    case False
    then have em: "entry_marked c j"
      using assms(1) j(1) by (simp add: marks_ok_def)
    show ?thesis
    proof (rule entry_marked_cong [OF em])
      show "ram_info c' ! Suc j = ram_info c ! Suc j" if "long_entry c j"
        using that em j(2) False
        by (cases "Suc j = i") (auto simp: assms(5) entry_marked_def split: if_splits)
    qed (use assms(5,6) False in auto)
  qed
qed (use assms in simp)

text \<open>
  The loop always returns, restores the marks, and clears every entry of the
  chain that the marks link to its start.
\<close>

definition linked :: "core \<Rightarrow> nat \<Rightarrow> nat \<Rightarrow> bool" where
  "linked c k i \<longleftrightarrow> k \<le> i \<and>
     (\<forall>m. k < m \<and> m \<le> i \<longrightarrow> ram_info c ! m = INVALIDATE_CURRENT_AND_PREVIOUS)"

lemma linked_Suc:
  "linked c k (Suc i) \<longleftrightarrow>
     k = Suc i \<or> linked c k i \<and> ram_info c ! Suc i = INVALIDATE_CURRENT_AND_PREVIOUS"
  by (auto simp: linked_def le_Suc_eq)

lemma invalidateSlowPath_at_ok:
  assumes "marks_ok {i} n c" "i < n"
  shows "\<exists>c'. invalidateSlowPath_at i c = Some c' \<and> marks_ok {} n c' \<and> cleared_of c c' \<and>
    (\<forall>k. linked c k i \<longrightarrow> undecoded c' k)"
  using assms
proof (induction i arbitrary: c)
  case 0
  then obtain c' where c': "invalidate_entry 0 c = Some (ram_info c ! 0, c')"
    "cache_shape n c'" "cleared_of c c'" "undecoded c' 0"
    "ram_info c' = (ram_info c)[0 := INVALIDATE_NONE]"
    "\<And>j. j \<noteq> 0 \<Longrightarrow> ram_opcode c' ! j = ram_opcode c ! j"
    using invalidate_entry_ok [of 0 "{}" n c] by blast
  have "ram_info c ! 0 \<noteq> INVALIDATE_CURRENT_AND_PREVIOUS"
    using 0 by (simp add: marks_ok_def)
  with marks_after_entry [OF 0 c'(2,4,5,6)] c' show ?case
    by (simp add: linked_def)
next
  case (Suc i)
  then obtain c' where c': "invalidate_entry (Suc i) c = Some (ram_info c ! Suc i, c')"
    "cache_shape n c'" "cleared_of c c'" "undecoded c' (Suc i)"
    "ram_info c' = (ram_info c)[Suc i := INVALIDATE_NONE]"
    "\<And>j. j \<noteq> Suc i \<Longrightarrow> ram_opcode c' ! j = ram_opcode c ! j"
    using invalidate_entry_ok [of "Suc i" "{}" n c] by blast
  note m = marks_after_entry [OF Suc.prems c'(2,4,5,6)]
  have l: "linked c' k i \<longleftrightarrow> linked c k i" for k
    using c'(5) by (auto simp: linked_def)
  show ?case
  proof (cases "ram_info c ! Suc i = INVALIDATE_CURRENT_AND_PREVIOUS")
    case True
    with m have "marks_ok {i} n c'"
      by simp
    from Suc.IH [OF this] Suc.prems(2) obtain c'' where c'':
      "invalidateSlowPath_at i c' = Some c''" "marks_ok {} n c''" "cleared_of c' c''"
      "\<And>k. linked c' k i \<Longrightarrow> undecoded c'' k"
      by auto
    with c' True l show ?thesis
      by (auto simp: linked_Suc intro: cleared_of_trans cleared_of_undecoded)
  next
    case False
    with m c' show ?thesis
      by (auto simp: linked_Suc)
  qed
qed

subsection \<open>Invalidation of half-words\<close>

lemma cleared_of_fields:
  assumes "cleared_of c c'"
  shows "memory c' = memory c" "ramSizeLog2 c' = ramSizeLog2 c" "ramBaseMultiple c' = ramBaseMultiple c"
    "nodeType c' = nodeType c" "rom c' = rom c" "romBase c' = romBase c" "romSize c' = romSize c"
    "breakpoints c' = breakpoints c" "watchpoints c' = watchpoints c" "jitEnabled c' = jitEnabled c"
    "dc_size (ramDecodeCache c') = dc_size (ramDecodeCache c)"
    "dc_base (ramDecodeCache c') = dc_base (ramDecodeCache c)"
    "dc_operands (ramDecodeCache c') = dc_operands (ramDecodeCache c)"
    "dc_tracingEnabled (ramDecodeCache c') = dc_tracingEnabled (ramDecodeCache c)"
proof -
  obtain dc where "c' = c\<lparr>ramDecodeCache := dc\<rparr>"
    using assms unfolding cleared_of_def by blast
  then show "memory c' = memory c" "ramSizeLog2 c' = ramSizeLog2 c" "ramBaseMultiple c' = ramBaseMultiple c"
    "nodeType c' = nodeType c" "rom c' = rom c" "romBase c' = romBase c" "romSize c' = romSize c"
    "breakpoints c' = breakpoints c" "watchpoints c' = watchpoints c" "jitEnabled c' = jitEnabled c"
    by simp_all
qed (use assms in \<open>simp_all add: cleared_of_def\<close>)

text \<open>Operations that read only the configuration of a core.\<close>

definition same_config :: "core \<Rightarrow> core \<Rightarrow> bool" where
  "same_config c c' \<longleftrightarrow>
     ramSizeLog2 c' = ramSizeLog2 c \<and> ramBaseMultiple c' = ramBaseMultiple c \<and>
     nodeType c' = nodeType c \<and> rom c' = rom c \<and> romBase c' = romBase c \<and> romSize c' = romSize c \<and>
     dc_size (ramDecodeCache c') = dc_size (ramDecodeCache c) \<and>
     dc_base (ramDecodeCache c') = dc_base (ramDecodeCache c) \<and>
     length (memory c') = length (memory c)"

lemma cleared_of_config: "cleared_of c c' \<Longrightarrow> same_config c c'"
  by (simp add: same_config_def cleared_of_fields)

lemma same_config_trans: "same_config c c' \<Longrightarrow> same_config c' c'' \<Longrightarrow> same_config c c''"
  by (simp add: same_config_def)

lemma config_eqs:
  assumes "same_config c c'"
  shows "getRamBase c' = getRamBase c" "getRamSize c' = getRamSize c" "ram_shorts c' = ram_shorts c"
    "isValidRamAddress c' a = isValidRamAddress c a" "isValidAddress c' a = isValidAddress c a"
    "ram_offset c' a = ram_offset c a" "entry_addr c' j = entry_addr c j" "core_wf c' = core_wf c"
  using assms
  by (simp_all add: same_config_def getRamBase_def getRamSize_def ram_shorts_def isValidRamAddress_def
      isValidAddress_def isValidRomAddress_def ram_offset_def entry_addr_def fromRamPc_def fromPc_def
      core_wf_def getRamSizeShorts_def)

lemma index_eqs:
  assumes "same_config c c'"
  shows "info_index c' a = info_index c a" "ram_index c' a = ram_index c a"
  using config_eqs(1) [OF assms] by (simp_all add: info_index_def ram_index_def)

text \<open>Entry \<open>j\<close> was decoded from half-word \<open>i\<close> (among others).\<close>

definition touches :: "core \<Rightarrow> nat \<Rightarrow> nat \<Rightarrow> bool" where
  "touches c j i \<longleftrightarrow> j = i \<or> Suc j = i \<and> long_entry c j"

definition invalidates :: "nat set \<Rightarrow> core \<Rightarrow> core \<Rightarrow> bool" where
  "invalidates I c c' \<longleftrightarrow>
     marks_ok {} (ram_shorts c) c' \<and> cleared_of c c' \<and>
     (\<forall>i \<in> I. \<forall>j. touches c j i \<longrightarrow> undecoded c' j)"

lemma touches_cleared:
  assumes "cleared_of c c'" "touches c j i"
  shows "undecoded c' j \<or> touches c' j i"
  using assms cleared_of_entry [OF assms(1), of j]
  by (auto simp: touches_def long_entry_def)

lemma invalidates_refl: "marks_ok {} (ram_shorts c) c \<Longrightarrow> invalidates {} c c"
  by (simp add: invalidates_def cleared_of_refl)

lemma invalidates_trans:
  assumes "invalidates I c c'" "invalidates J c' c''"
  shows "invalidates (I \<union> J) c c''"
proof -
  have "undecoded c'' j" if "touches c j i" "i \<in> I \<union> J" for i j
    using that assms touches_cleared [of c c' j i] cleared_of_undecoded [of c' c'' j]
    by (auto simp: invalidates_def)
  moreover have "ram_shorts c' = ram_shorts c"
    using assms(1) by (simp add: invalidates_def config_eqs cleared_of_config)
  ultimately show ?thesis
    using assms cleared_of_trans by (auto simp: invalidates_def)
qed

lemma invalidates_mono: "invalidates J c c' \<Longrightarrow> I \<subseteq> J \<Longrightarrow> invalidates I c c'"
  by (auto simp: invalidates_def)

lemma marks_touches:
  assumes "marks_ok {} n c" "touches c j i" "i < n" "\<not> undecoded c j"
  shows "ram_info c ! i \<noteq> INVALIDATE_NONE"
    and "j \<noteq> i \<Longrightarrow> ram_info c ! i = INVALIDATE_CURRENT_AND_PREVIOUS"
  using assms by (auto simp: marks_ok_def touches_def entry_marked_def)

lemma marks_ok_exempt: "marks_ok {} n c \<Longrightarrow> marks_ok ex n c"
  by (simp add: marks_ok_def)

lemma marks_get_info: "marks_ok ex n c \<Longrightarrow> i < n \<Longrightarrow> get_info c i = Some (ram_info c ! i)"
  by (auto simp: get_info_def marks_ok_def cache_shape_def)

lemma slow_invalidates:
  assumes "marks_ok {} n c" "i < n" "n = ram_shorts c"
  shows "\<exists>c'. invalidateSlowPath_at i c = Some c' \<and> invalidates {i} c c'"
proof -
  from invalidateSlowPath_at_ok [OF marks_ok_exempt [OF assms(1)] assms(2)] obtain c' where c':
    "invalidateSlowPath_at i c = Some c'" "marks_ok {} n c'" "cleared_of c c'"
    "\<And>k. linked c k i \<Longrightarrow> undecoded c' k"
    by blast
  have "undecoded c' j" if "touches c j i" for j
  proof (cases "undecoded c j")
    case False
    with that marks_touches(2) [OF assms(1) that assms(2)] have "linked c j i"
      by (auto simp: touches_def linked_def le_Suc_eq)
    then show ?thesis
      by (rule c'(4))
  qed (use c'(3) cleared_of_undecoded in auto)
  with c' assms(3) show ?thesis
    by (auto simp: invalidates_def)
qed

lemma unmarked_invalidates:
  assumes "marks_ok {} (ram_shorts c) c" "i < ram_shorts c" "ram_info c ! i = INVALIDATE_NONE"
  shows "invalidates {i} c c"
proof -
  have "undecoded c j" if "touches c j i" for j
    using marks_touches(1) [OF assms(1) that assms(2)] assms(3) by blast
  with assms(1) show ?thesis
    by (simp add: invalidates_def cleared_of_refl)
qed

lemma invalidateShort_ok:
  assumes "core_wf c" "marks_ok {} (ram_shorts c) c" "isValidRamAddress c a"
  shows "\<exists>b c'. invalidateShort a c = Some (b, c') \<and> invalidates {ram_offset c a div 2} c c'"
proof -
  note i = info_index_valid [OF assms(1,3)]
  show ?thesis
    using slow_invalidates [OF assms(2) i(2)] unmarked_invalidates [OF assms(2) i(2)] i
      marks_get_info [OF assms(2) i(2)]
    by (auto simp: invalidateShort_def invalidateShortCheck_def invalidateSlowPath_def)
qed

lemma invalidateByte_ok:
  assumes "core_wf c" "marks_ok {} (ram_shorts c) c" "isValidRamAddress c a"
  shows "\<exists>b c'. invalidateByte a c = Some (b, c') \<and> invalidates {ram_offset c a div 2} c c'"
  using invalidateShort_ok [OF assms]
  by (simp add: invalidateByte_def invalidateByteCheck_def invalidateShort_def invalidateShortCheck_def)

lemma word_halves:
  assumes "core_wf c" "isValidRamAddress c a" "4 dvd ram_offset c a"
  shows "Suc (ram_offset c a div 2) < ram_shorts c"
    and "info_index c (drop_bit 1 a + 1) = Some (Suc (ram_offset c a div 2))"
proof -
  note i = info_index_valid [OF assms(1,2)]
  show "Suc (ram_offset c a div 2) < ram_shorts c"
    using i(2) wf_sizes(5) [OF assms(1)] assms(3) by presburger
  have "unat a < 2 ^ 32"
    by (rule unat_less_32)
  then have "unat (drop_bit 1 a) + 1 < 2 ^ 32"
    by (simp add: unat_half)
  then have "unat (drop_bit 1 a + 1) = unat (drop_bit 1 a) + 1"
    by (subst unat_add_lem [THEN iffD1]) simp_all
  with i(1) show "info_index c (drop_bit 1 a + 1) = Some (Suc (ram_offset c a div 2))"
    by (auto simp: info_index_def word_le_nat_alt split: if_splits)
qed

lemma set_info_link:
  assumes "marks_ok {} (ram_shorts c) c" "Suc i < ram_shorts c" "ram_info c ! Suc i \<noteq> INVALIDATE_NONE"
  shows "\<exists>c'. set_info (Suc i) INVALIDATE_CURRENT_AND_PREVIOUS c = Some c' \<and>
    marks_ok {} (ram_shorts c) c' \<and> cleared_of c c' \<and> ram_opcode c' = ram_opcode c \<and>
    ram_info c' = (ram_info c)[Suc i := INVALIDATE_CURRENT_AND_PREVIOUS]"
proof -
  obtain info where info: "dc_invalidationInfo (ramDecodeCache c) = Some info" "length info = ram_shorts c"
    using assms(1) by (auto simp: marks_ok_def cache_shape_def)
  define c' where "c' = c\<lparr>ramDecodeCache := (ramDecodeCache c)\<lparr>dc_invalidationInfo :=
     Some (info[Suc i := INVALIDATE_CURRENT_AND_PREVIOUS])\<rparr>\<rparr>"
  have eq: "ram_info c' = (ram_info c)[Suc i := INVALIDATE_CURRENT_AND_PREVIOUS]" "ram_opcode c' = ram_opcode c"
    by (simp_all add: c'_def info)
  have len: "length (ram_info c) = ram_shorts c"
    by (simp add: info)
  have "entry_marked c' j" if "j < ram_shorts c" for j
    using assms that len
    by (auto simp: marks_ok_def entry_marked_def long_entry_def undecoded_def eq nth_list_update)
  then have "marks_ok {} (ram_shorts c) c'"
    using assms(1) info by (auto simp: marks_ok_def eq) (auto simp: cache_shape_def c'_def)
  moreover have "set_info (Suc i) INVALIDATE_CURRENT_AND_PREVIOUS c = Some c'"
    using info assms(2) by (simp add: set_info_def c'_def)
  moreover have "cleared_of c c'"
    by (simp add: cleared_of_def) (simp add: c'_def)
  ultimately show ?thesis
    using eq by blast
qed

lemma invalidateWordSlowPath_ok:
  assumes "core_wf c" "marks_ok {} (ram_shorts c) c" "isValidRamAddress c a" "4 dvd ram_offset c a"
  defines "i \<equiv> ram_offset c a div 2"
  shows "\<exists>c'. invalidateWordSlowPath (drop_bit 1 a) c = Some c' \<and> invalidates {i, Suc i} c c'"
proof -
  have w: "info_index c (drop_bit 1 a + 1) = Some (Suc i)" "Suc i < ram_shorts c"
    "info_index c (drop_bit 1 a) = Some i" "i < ram_shorts c"
    using word_halves [OF assms(1,3,4)] info_index_valid [OF assms(1,3)] by (simp_all add: i_def)
  note g = marks_get_info [OF assms(2) w(2)]
  show ?thesis
  proof (cases "ram_info c ! Suc i = INVALIDATE_NONE")
    case True
    from slow_invalidates [OF assms(2) w(4)] obtain c' where c':
      "invalidateSlowPath_at i c = Some c'" "invalidates {i} c c'"
      by auto
    from invalidates_trans [OF unmarked_invalidates [OF assms(2) w(2) True] c'(2)] c'(1) w g True
    show ?thesis
      by (auto simp: invalidateWordSlowPath_def invalidateSlowPath_def insert_commute)
  next
    case False
    from set_info_link [OF assms(2) w(2) False] obtain c1 where c1:
      "set_info (Suc i) INVALIDATE_CURRENT_AND_PREVIOUS c = Some c1" "marks_ok {} (ram_shorts c) c1"
      "cleared_of c c1" "ram_info c1 = (ram_info c)[Suc i := INVALIDATE_CURRENT_AND_PREVIOUS]"
      by blast
    from invalidateSlowPath_at_ok [OF marks_ok_exempt [OF c1(2)] w(2)] obtain c' where c':
      "invalidateSlowPath_at (Suc i) c1 = Some c'" "marks_ok {} (ram_shorts c) c'" "cleared_of c1 c'"
      "\<And>k. linked c1 k (Suc i) \<Longrightarrow> undecoded c' k"
      by blast
    have "length (ram_info c) = ram_shorts c"
      using assms(2) by (simp add: marks_ok_def cache_shape_def)
    then have link: "ram_info c1 ! Suc i = INVALIDATE_CURRENT_AND_PREVIOUS" "ram_info c1 ! i = ram_info c ! i"
      using c1(4) w(2) by simp_all
    have cl: "cleared_of c c'"
      using c1(3) c'(3) by (rule cleared_of_trans)
    have "undecoded c' j" if "touches c j k" "k \<in> {i, Suc i}" for j k
    proof (cases "undecoded c j")
      case False
      then have "linked c1 j (Suc i)"
        using that marks_touches(2) [OF assms(2) that(1)] w link
        by (auto simp: linked_Suc touches_def linked_def le_Suc_eq)
      then show ?thesis
        by (rule c'(4))
    qed (use cl cleared_of_undecoded in auto)
    with c' cl have "invalidates {i, Suc i} c c'"
      by (auto simp: invalidates_def)
    moreover have "info_index c1 (drop_bit 1 a + 1) = Some (Suc i)"
      using w(1) by (simp only: index_eqs [OF cleared_of_config [OF c1(3)]])
    ultimately show ?thesis
      using c1 c'(1) w g False
      by (auto simp: invalidateWordSlowPath_def invalidateSlowPath_def)
  qed
qed

lemma invalidateWord_ok:
  assumes "core_wf c" "marks_ok {} (ram_shorts c) c" "isValidRamAddress c a" "4 dvd ram_offset c a"
  defines "i \<equiv> ram_offset c a div 2"
  shows "\<exists>b c'. invalidateWord a c = Some (b, c') \<and> invalidates {i, Suc i} c c'"
proof -
  have w: "Suc i < ram_shorts c" "info_index c (drop_bit (Suc 0) a) = Some i" "i < ram_shorts c"
    using word_halves [OF assms(1,3,4)] info_index_valid [OF assms(1,3)] by (simp_all add: i_def)
  note chk = invalidateWordCheck_def w(2) marks_get_info [OF assms(2) w(1)] marks_get_info [OF assms(2) w(3)]
  show ?thesis
  proof (cases "ram_info c ! i = INVALIDATE_NONE \<and> ram_info c ! Suc i = INVALIDATE_NONE")
    case True
    with unmarked_invalidates [OF assms(2)] w have "invalidates ({i} \<union> {Suc i}) c c"
      by (intro invalidates_trans) auto
    with True show ?thesis
      by (auto simp: invalidateWord_def chk insert_commute)
  next
    case False
    with invalidateWordSlowPath_ok [OF assms(1-4)] show ?thesis
      by (auto simp: invalidateWord_def chk simp flip: i_def)
  qed
qed

end
