(* ===== verification/InvalidateRange.thy ===== *)
theory InvalidateRange
  imports Invalidation
begin

text \<open>
  The loops of \<open>Core::invalidateRange\<close> and \<open>Core::resetCaches\<close>: they
  return, keep the marks and clear every entry decoded from the range.
\<close>

subsection \<open>Invalidation of ranges\<close>

text \<open>\<open>address\<close> is at offset \<open>x\<close> of the RAM, or just behind it.\<close>

definition at_offset :: "core \<Rightarrow> u32 \<Rightarrow> nat \<Rightarrow> bool" where
  "at_offset c address x \<longleftrightarrow>
     unat address = unat (getRamBase c) + x \<and> x \<le> 2 * ram_shorts c"

lemma at_offset_valid:
  assumes "core_wf c" "at_offset c a x" "x < 2 * ram_shorts c"
  shows "isValidRamAddress c a" "ram_offset c a = x"
  using assms by (simp_all add: at_offset_def valid_ram_iff ram_offset_def)

lemma at_offset_add:
  assumes "core_wf c" "at_offset c a x" "x + k \<le> 2 * ram_shorts c"
  shows "at_offset c (a + of_nat k) (x + k)"
proof -
  have b: "unat (getRamBase c) + (x + k) < 2 ^ 32"
    using assms(3) wf_sizes(4,6) [OF assms(1)] by linarith
  then have "unat (of_nat k :: u32) = k"
    by (simp only: unat_of_nat) (simp add: take_bit_nat_eq_self)
  with b assms(2,3) show ?thesis
    unfolding at_offset_def by (subst unat_add_lem [THEN iffD1]) simp_all
qed

lemma at_offset_less: "at_offset c a x \<Longrightarrow> at_offset c b y \<Longrightarrow> a < b \<longleftrightarrow> x < y"
  by (simp add: at_offset_def word_less_nat_alt)

lemma at_offset_mod4:
  assumes "core_wf c" "at_offset c a x"
  shows "a mod 4 = 0 \<longleftrightarrow> 4 dvd x"
proof -
  have "a mod 4 = 0 \<longleftrightarrow> unat a mod 4 = 0"
    using unat_eq_zero [of "a mod 4"] by (simp add: unat_mod)
  with assms(2) base_half(3) [OF assms(1)] show ?thesis
    by (auto simp: at_offset_def dvd_eq_mod_eq_0 [symmetric] dvd_add_right_iff)
qed

lemma at_offset_config: "same_config c c' \<Longrightarrow> at_offset c' a x = at_offset c a x"
  by (simp add: at_offset_def config_eqs)

text \<open>The half-words of the bytes at offsets from \<open>x\<close> up to \<open>y\<close>.\<close>

definition halves :: "nat \<Rightarrow> nat \<Rightarrow> nat set" where
  "halves x y = (\<lambda>k. k div 2) ` {x..<y}"

lemma halves_empty [simp]: "y \<le> x \<Longrightarrow> halves x y = {}"
  by (simp add: halves_def)

lemma halves_join: "x \<le> y \<Longrightarrow> y \<le> z \<Longrightarrow> halves x y \<union> halves y z = halves x z"
  unfolding halves_def by (simp add: image_Un [symmetric] ivl_disj_un)

lemma halves_one: "halves x (Suc x) = {x div 2}"
  by (simp add: halves_def)

lemma halves_four: "4 dvd x \<Longrightarrow> halves x (x + 4) = {x div 2, Suc (x div 2)}"
proof -
  assume "4 dvd x"
  then obtain k where "x = 4 * k"
    by (rule dvdE)
  moreover have "{4 * k ..< 4 * k + 4} = {4 * k, 4 * k + 1, 4 * k + 2, 4 * k + 3}"
    by auto
  ultimately show ?thesis
    by (auto simp: halves_def)
qed

lemma invalidates_step:
  assumes "core_wf c" "invalidates I c c'"
  shows "core_wf c'" "marks_ok {} (ram_shorts c') c'" "same_config c c'"
  using assms cleared_of_config [of c c'] by (auto simp: invalidates_def config_eqs)

lemma invalidate_bytes_ok:
  assumes "core_wf c" "marks_ok {} (ram_shorts c) c" "at_offset c a x" "at_offset c e y"
  shows "\<exists>b c'. invalidate_bytes a e iv c = Some (b, c') \<and> invalidates (halves x y) c c'"
  using assms
proof (induction "y - x" arbitrary: a x c iv)
  case 0
  then show ?case
    using at_offset_less [OF 0(4,5)] invalidates_refl
    by (subst invalidate_bytes.simps) simp
next
  case (Suc d)
  then have xy: "x < y" "x < 2 * ram_shorts c" "Suc x \<le> 2 * ram_shorts c" and d: "d = y - Suc x"
    by (auto simp: at_offset_def)
  note v = at_offset_valid [OF Suc.prems(1,3) xy(2)]
  from invalidateByte_ok [OF Suc.prems(1,2) v(1)] obtain b c1 where
    c1: "invalidateByte a c = Some (b, c1)" "invalidates {x div 2} c c1"
    using v(2) by auto
  note s = invalidates_step [OF Suc.prems(1) c1(2)]
  have "at_offset c1 (a + 1) (Suc x)" "at_offset c1 e y"
    using at_offset_add [OF Suc.prems(1,3), of 1] xy(3) Suc.prems(4) by (simp_all add: at_offset_config [OF s(3)])
  with Suc.hyps(1) [of "Suc x" c1 "a + 1" "iv \<or> b"] d s(1,2) obtain b' c' where
    c': "invalidate_bytes (a + 1) e (iv \<or> b) c1 = Some (b', c')" "invalidates (halves (Suc x) y) c1 c'"
    by auto
  have "halves x (Suc x) \<union> halves (Suc x) y = halves x y"
    using xy by (intro halves_join) simp_all
  then have "invalidates (halves x y) c c'"
    using invalidates_trans [OF c1(2) c'(2)] by (simp only: halves_one)
  with c1(1) c'(1) show ?case
    using xy(1) at_offset_less [OF Suc.prems(3,4)]
    by (subst invalidate_bytes.simps) simp
qed

lemma invalidate_unaligned_ok:
  assumes "core_wf c" "marks_ok {} (ram_shorts c) c" "at_offset c a x" "at_offset c e y"
  shows "\<exists>a' z b c'. invalidate_unaligned a e iv c = Some (a', b, c') \<and> at_offset c a' z \<and>
    x \<le> z \<and> (z < y \<longrightarrow> 4 dvd z) \<and> (x \<le> y \<longrightarrow> z \<le> y) \<and> invalidates (halves x z) c c'"
  using assms
proof (induction "y - x" arbitrary: a x c iv)
  case 0
  then show ?case
    using at_offset_less [OF 0(4,5)] invalidates_refl
    by (subst invalidate_unaligned.simps) auto
next
  case (Suc d)
  then have xy: "x < y" "x < 2 * ram_shorts c" "Suc x \<le> 2 * ram_shorts c" and d: "d = y - Suc x"
    by (auto simp: at_offset_def)
  show ?case
  proof (cases "4 dvd x")
    case True
    then show ?thesis
      using Suc.prems at_offset_mod4 [OF Suc.prems(1,3)] invalidates_refl xy(1)
      by (subst invalidate_unaligned.simps) auto
  next
    case False
    note v = at_offset_valid [OF Suc.prems(1,3) xy(2)]
    from invalidateByte_ok [OF Suc.prems(1,2) v(1)] obtain b c1 where
      c1: "invalidateByte a c = Some (b, c1)" "invalidates {x div 2} c c1"
      using v(2) by auto
    note s = invalidates_step [OF Suc.prems(1) c1(2)]
    have "at_offset c1 (a + 1) (Suc x)" "at_offset c1 e y"
      using at_offset_add [OF Suc.prems(1,3), of 1] xy(3) Suc.prems(4) by (simp_all add: at_offset_config [OF s(3)])
    with Suc.hyps(1) [of "Suc x" c1 "a + 1" "iv \<or> b"] d s(1,2) obtain a' z b' c' where
      c': "invalidate_unaligned (a + 1) e (iv \<or> b) c1 = Some (a', b', c')" "at_offset c1 a' z"
        "Suc x \<le> z" "z < y \<longrightarrow> 4 dvd z" "Suc x \<le> y \<longrightarrow> z \<le> y" "invalidates (halves (Suc x) z) c1 c'"
      by auto
    have "halves x (Suc x) \<union> halves (Suc x) z = halves x z"
      using c'(3) by (intro halves_join) simp_all
    then have "invalidates (halves x z) c c'"
      using invalidates_trans [OF c1(2) c'(6)] by (simp only: halves_one)
    then show ?thesis
      using c1(1) c' xy(1) at_offset_less [OF Suc.prems(3,4)] at_offset_mod4 [OF Suc.prems(1,3)] False
      by (subst invalidate_unaligned.simps) (auto simp: at_offset_config [OF s(3)])
  qed
qed

lemma invalidate_words_ok:
  assumes "core_wf c" "marks_ok {} (ram_shorts c) c" "at_offset c a x" "at_offset c e y"
    and "x < y \<longrightarrow> 4 dvd x"
  shows "\<exists>a' z b c'. invalidate_words a e iv c = Some (a', b, c') \<and> at_offset c a' z \<and>
    x \<le> z \<and> (x \<le> y \<longrightarrow> z \<le> y) \<and> invalidates (halves x z) c c'"
  using assms
proof (induction "y - x" arbitrary: a x c iv rule: less_induct)
  case less
  have top: "unat (getRamBase c) + 2 * ram_shorts c + 4 \<le> 2 ^ 32"
  proof -
    have "4 dvd unat (getRamBase c) + 2 * ram_shorts c"
      using base_half(3) wf_sizes(4,5) less.prems(1) by (intro dvd_add) auto
    moreover have "unat (getRamBase c) + 2 * ram_shorts c < 2 ^ 32"
      using wf_sizes(4,6) [OF less.prems(1)] by simp
    ultimately show ?thesis
      by (auto elim!: dvdE)
  qed
  have "unat a + 3 < 2 ^ 32"
    using top less.prems(3) by (simp add: at_offset_def)
  then have "unat (a + 3) = unat a + 3"
    by (subst unat_add_lem [THEN iffD1]) simp_all
  then have cond: "a + 3 < e \<longleftrightarrow> x + 3 < y"
    using less.prems(3,4) by (simp add: at_offset_def word_less_nat_alt)
  show ?case
  proof (cases "x + 3 < y")
    case False
    then show ?thesis
      using cond less.prems(2,3) invalidates_refl by (subst invalidate_words.simps) auto
  next
    case True
    then have x: "x < 2 * ram_shorts c" "x + 4 \<le> y" "x + 4 \<le> 2 * ram_shorts c" "4 dvd x"
      using less.prems(4,5) by (auto simp: at_offset_def)
    note v = at_offset_valid [OF less.prems(1,3) x(1)]
    from invalidateWord_ok [OF less.prems(1,2) v(1)] v(2) x(4) obtain b c1 where
      c1: "invalidateWord a c = Some (b, c1)" "invalidates (halves x (x + 4)) c c1"
      by (auto simp: halves_four)
    note s = invalidates_step [OF less.prems(1) c1(2)]
    have "at_offset c1 (a + 4) (x + 4)" "at_offset c1 e y"
      using at_offset_add [OF less.prems(1,3), of 4] x(3) less.prems(4)
      by (simp_all add: at_offset_config [OF s(3)])
    moreover have "y - (x + 4) < y - x"
      using True by simp
    ultimately obtain a' z b' c' where
      c': "invalidate_words (a + 4) e (iv \<or> b) c1 = Some (a', b', c')" "at_offset c1 a' z"
        "x + 4 \<le> z" "z \<le> y" "invalidates (halves (x + 4) z) c1 c'"
      using less.hyps [of "x + 4" c1 "a + 4" "iv \<or> b"] s(1,2) x(2,4) by auto
    have "invalidates (halves x z) c c'"
      using invalidates_trans [OF c1(2) c'(5)] c'(3) by (simp add: halves_join)
    then show ?thesis
      using c1(1) c' True cond by (subst invalidate_words.simps) (auto simp: at_offset_config [OF s(3)])
  qed
qed

lemma invalidateRange_ok:
  assumes "core_wf c" "marks_ok {} (ram_shorts c) c" "at_offset c a x" "at_offset c e y" "x \<le> y"
  shows "\<exists>b c'. invalidateRange a e c = Some (b, c') \<and> invalidates (halves x y) c c'"
proof -
  from invalidate_unaligned_ok [OF assms(1-4)] assms(5) obtain a1 z1 b1 c1 where
    1: "invalidate_unaligned a e False c = Some (a1, b1, c1)" "at_offset c a1 z1"
      "x \<le> z1" "z1 \<le> y" "z1 < y \<longrightarrow> 4 dvd z1" "invalidates (halves x z1) c c1"
    by blast
  note s1 = invalidates_step [OF assms(1) 1(6)]
  have "at_offset c1 a1 z1" "at_offset c1 e y"
    using 1(2) assms(4) by (simp_all add: at_offset_config [OF s1(3)])
  from invalidate_words_ok [OF s1(1,2) this 1(5)] 1(4) obtain a2 z2 b2 c2 where
    2: "invalidate_words a1 e b1 c1 = Some (a2, b2, c2)" "at_offset c1 a2 z2"
      "z1 \<le> z2" "z2 \<le> y" "invalidates (halves z1 z2) c1 c2"
    by blast
  note s2 = invalidates_step [OF s1(1) 2(5)]
  have "at_offset c2 a2 z2" "at_offset c2 e y"
    using 2(2) assms(4) by (simp_all add: at_offset_config [OF s1(3)] at_offset_config [OF s2(3)])
  from invalidate_bytes_ok [OF s2(1,2) this] obtain b3 c3 where
    3: "invalidate_bytes a2 e b2 c2 = Some (b3, c3)" "invalidates (halves z2 y) c2 c3"
    by blast
  have "halves x z1 \<union> halves z1 z2 \<union> halves z2 y = halves x y"
    using 1(3) 2(3,4) by (simp add: halves_join)
  then have "invalidates (halves x y) c c3"
    using invalidates_trans [OF invalidates_trans [OF 1(6) 2(5)] 3(2)] by simp
  with 1(1) 2(1) 3(1) show ?thesis
    by (simp add: invalidateRange_def)
qed

lemma resetCaches_loop_ok:
  assumes "core_wf c" "marks_ok {} (ram_shorts c) c" "at_offset c a x" "at_offset c e (2 * ram_shorts c)"
    and "4 dvd x"
  shows "\<exists>c'. resetCaches_loop a e c = Some c' \<and> invalidates (halves x (2 * ram_shorts c)) c c'"
  using assms
proof (induction "2 * ram_shorts c - x" arbitrary: a x c rule: less_induct)
  case less
  show ?case
  proof (cases "x < 2 * ram_shorts c")
    case False
    then show ?thesis
      using at_offset_less [OF less.prems(3,4)] invalidates_refl [OF less.prems(2)]
      by (subst resetCaches_loop.simps) simp
  next
    case True
    have x: "x + 4 \<le> 2 * ram_shorts c"
      using True less.prems(5) wf_sizes(5) [OF less.prems(1)] by (auto elim!: dvdE)
    note v = at_offset_valid [OF less.prems(1,3) True]
    from invalidateWord_ok [OF less.prems(1,2) v(1)] v(2) less.prems(5) obtain b c1 where
      c1: "invalidateWord a c = Some (b, c1)" "invalidates (halves x (x + 4)) c c1"
      by (auto simp: halves_four)
    note s = invalidates_step [OF less.prems(1) c1(2)]
    have n: "ram_shorts c1 = ram_shorts c"
      by (simp add: config_eqs [OF s(3)])
    have "at_offset c1 (a + 4) (x + 4)" "at_offset c1 e (2 * ram_shorts c1)"
      using at_offset_add [OF less.prems(1,3), of 4] x less.prems(4)
      by (simp_all add: at_offset_config [OF s(3)] n)
    moreover have "2 * ram_shorts c1 - (x + 4) < 2 * ram_shorts c - x"
      using True by (simp add: n)
    ultimately obtain c' where
      c': "resetCaches_loop (a + 4) e c1 = Some c'" "invalidates (halves (x + 4) (2 * ram_shorts c)) c1 c'"
      using less.hyps [of c1 "x + 4" "a + 4"] s(1,2) less.prems(5) by (auto simp: n)
    have "invalidates (halves x (2 * ram_shorts c)) c c'"
      using invalidates_trans [OF c1(2) c'(2)] x by (simp add: halves_join)
    then show ?thesis
      using c1(1) c'(1) True at_offset_less [OF less.prems(3,4)]
      by (subst resetCaches_loop.simps) simp
  qed
qed

lemma resetCaches_ok:
  assumes "core_wf c" "marks_ok {} (ram_shorts c) c"
  shows "\<exists>c'. resetCaches c = Some c' \<and> marks_ok {} (ram_shorts c) c' \<and> cleared_of c c' \<and>
    (\<forall>j < ram_shorts c. undecoded c' j)"
proof -
  note wf = wf_sizes [OF assms(1)]
  have e: "at_offset c (getRamBase c + getRamSize c) (2 * ram_shorts c)"
    unfolding at_offset_def using wf by (subst unat_add_lem [THEN iffD1]) simp_all
  have "at_offset c (getRamBase c) 0"
    by (simp add: at_offset_def)
  from resetCaches_loop_ok [OF assms this e] obtain c' where
    c': "resetCaches_loop (getRamBase c) (getRamBase c + getRamSize c) c = Some c'"
      "invalidates (halves 0 (2 * ram_shorts c)) c c'"
    by auto
  have "j \<in> halves 0 (2 * ram_shorts c)" if "j < ram_shorts c" for j
    unfolding halves_def using that by (intro image_eqI [of _ _ "2 * j"]) auto
  then have "\<forall>j < ram_shorts c. undecoded c' j"
    using c'(2) by (auto simp: invalidates_def touches_def)
  with c' show ?thesis
    by (simp add: resetCaches_def invalidates_def getRamSize_def)
qed

end
