(* ===== verification/Coherence.thy ===== *)
theory Coherence
  imports InvalidateRange
begin

text \<open>
  Coherence of the RAM decode cache: every decoded entry is what decoding the
  memory, under the breakpoints, gives now.  All operations that change the
  memory, the breakpoints or the cache keep it.
\<close>

definition entry_coherent :: "dcache \<Rightarrow> core \<Rightarrow> nat \<Rightarrow> bool" where
  "entry_coherent romdc c j \<longleftrightarrow> undecoded c j \<or>
     (\<exists>dual ops0. length ops0 = 6 \<and>
        decode_at c romdc (entry_addr c j) dual ops0 =
          Some (fst (ram_opcode c ! j), dc_operands (ramDecodeCache c) ! j))"

definition cache_coherent :: "dcache \<Rightarrow> core \<Rightarrow> bool" where
  "cache_coherent romdc c \<longleftrightarrow>
     core_wf c \<and> marks_ok {} (ram_shorts c) c \<and> (\<forall>j < ram_shorts c. entry_coherent romdc c j)"

lemma transform_size_cong:
  assumes "dc_size dc' = dc_size dc"
  shows "transform_2rus dc' = transform_2rus dc" "transform_l2rus dc' = transform_l2rus dc"
    "transform_ru6 dc' = transform_ru6 dc" "transform_lru6 dc' = transform_lru6 dc"
    "transform_u6 dc' = transform_u6 dc" "transform_lu6 dc' = transform_lu6 dc"
    "transform_u10 dc' = transform_u10 dc" "transform_lu10 dc' = transform_lu10 dc"
    "transform_rus dc' = transform_rus dc"
proof -
  have "isValidPc dc' = isValidPc dc"
    using assms by (simp add: fun_eq_iff isValidPc_def)
  then show "transform_2rus dc' = transform_2rus dc" "transform_l2rus dc' = transform_l2rus dc"
    "transform_ru6 dc' = transform_ru6 dc" "transform_lru6 dc' = transform_lru6 dc"
    "transform_u6 dc' = transform_u6 dc" "transform_lu6 dc' = transform_lu6 dc"
    "transform_u10 dc' = transform_u10 dc" "transform_lu10 dc' = transform_lu10 dc"
    "transform_rus dc' = transform_rus dc"
    by (simp_all only: fun_eq_iff transform_defs simp_thms)
qed

lemma instructionTransform_config:
  assumes "same_config c c'" "isValidRamAddress c a"
  shows "instructionTransform c' romdc a dual d = instructionTransform c romdc a dual d"
proof -
  have "dc_size (ramDecodeCache c') = dc_size (ramDecodeCache c)"
    "dc_base (ramDecodeCache c') = dc_base (ramDecodeCache c)"
    using assms(1) by (simp_all add: same_config_def)
  note cong = transform_size_cong [OF this(1)] this
  have dc: "getDecodeCacheContaining c romdc a = Some (ramDecodeCache c)"
    "getDecodeCacheContaining c' romdc a = Some (ramDecodeCache c')"
    using assms by (simp_all add: getDecodeCacheContaining_def config_eqs)
  have pc: "toPc (ramDecodeCache c') a = toPc (ramDecodeCache c) a"
    by (simp add: toPc_def cong)
  show ?thesis
    unfolding instructionTransform_def Let_def dc bind.bind_lunit cong pc ..
qed

lemma decode_at_cong:
  assumes wf: "core_wf c" "same_config c c'" "j < ram_shorts c"
    and d: "decode_at c romdc (entry_addr c j) dual ops0 = Some d" "length ops0 = 6"
    and bp: "entry_addr c j \<in> breakpoints c' \<longleftrightarrow> entry_addr c j \<in> breakpoints c"
    and low: "ram_half c' j = ram_half c j"
    and high: "inst_size (fst d) = 4 \<Longrightarrow> Suc j < ram_shorts c \<Longrightarrow> ram_half c' (Suc j) = ram_half c (Suc j)"
  shows "decode_at c' romdc (entry_addr c j) dual ops0 = Some d"
proof -
  note v = entry_addr_valid [OF wf(1,3)]
  have wf': "core_wf c'" "j < ram_shorts c'"
    using wf by (simp_all add: config_eqs [OF wf(2)])
  note tr = instructionTransform_config [OF wf(2) v(1)]
  have valid: "isValidAddress c (entry_addr c j)" "isValidAddress c' (entry_addr c j)"
    using v(1) by (simp_all add: isValidAddress_def config_eqs [OF wf(2)])
  from d(1) obtain e where e: "instructionTransform c romdc (entry_addr c j) dual e = Some d"
    "fst e \<noteq> Fpseudo DECODE"
    "if isBreakpointAddress c (entry_addr c j) then e = (Fpseudo BREAKPOINT, ops0)
     else \<exists>h. fetch c (entry_addr c j) = Some h \<and>
       decode_halves (nodeType c) h (Fpseudo DECODE, ops0) = Some e"
    by (auto simp: decode_at_eq_Some)
  have "fetch c' (entry_addr c j) = Some h' \<Longrightarrow>
      decode_halves (nodeType c') h' (Fpseudo DECODE, ops0) = Some e"
    if "\<not> isBreakpointAddress c (entry_addr c j)" for h'
  proof -
    assume h': "fetch c' (entry_addr c j) = Some h'"
    have ty: "nodeType c' = nodeType c"
      using wf(2) by (simp add: same_config_def)
    from e(3) that fetch_entry [OF wf(1,3)] obtain h where
      h: "decode_halves (nodeType c) (read16le True (ram_half c j), h) (Fpseudo DECODE, ops0) = Some e"
      "h = (if Suc j < ram_shorts c then Some (read16le True (ram_half c (Suc j))) else None)"
      by auto
    have "h' = (read16le True (ram_half c j),
        if Suc j < ram_shorts c then Some (read16le True (ram_half c' (Suc j))) else None)"
      using fetch_entry [OF wf'] h' by (simp add: config_eqs [OF wf(2)] low)
    then show ?thesis
      using h high instructionTransform_size [OF e(1)]
        decode_halves_cong [OF d(2) h(1) e(2), of "snd h'"]
      by (cases "inst_size (fst e) = 4") (auto simp: ty)
  qed
  then have "if isBreakpointAddress c' (entry_addr c j) then e = (Fpseudo BREAKPOINT, ops0)
     else \<exists>h. fetch c' (entry_addr c j) = Some h \<and>
       decode_halves (nodeType c') h (Fpseudo DECODE, ops0) = Some e"
    using e(3) bp fetch_entry [OF wf'] by (auto simp: isBreakpointAddress_def config_eqs [OF wf(2)])
  with e(1,2) valid v(3) show ?thesis
    unfolding decode_at_eq_Some tr by (intro conjI exI [of _ e])
qed


text \<open>
  The frame of all operations that change memory or breakpoints: they change
  only half-words of \<open>I\<close>, and then invalidate them.
\<close>

lemma coherent_invalidated:
  assumes coh: "cache_coherent romdc c"
    and c1: "same_config c c1" "ramDecodeCache c1 = ramDecodeCache c"
    and eq: "\<And>j. j < ram_shorts c \<Longrightarrow> j \<notin> I \<Longrightarrow> ram_half c1 j = ram_half c j \<and>
      (entry_addr c j \<in> breakpoints c1 \<longleftrightarrow> entry_addr c j \<in> breakpoints c)"
    and inv: "invalidates I c1 c'"
  shows "cache_coherent romdc c'"
proof -
  have wf: "core_wf c" "core_wf c1"
    using coh config_eqs(8) [OF c1(1)] by (simp_all add: cache_coherent_def)
  note s = invalidates_step [OF wf(2) inv]
  have cl: "cleared_of c1 c'"
    using inv by (simp add: invalidates_def)
  have cfg: "same_config c c'"
    using c1(1) s(3) by (rule same_config_trans)
  have und: "undecoded c1 j = undecoded c j" "long_entry c1 j = long_entry c j" for j
    by (simp_all add: undecoded_def long_entry_def c1(2))
  have "entry_coherent romdc c' j" if j: "j < ram_shorts c" for j
  proof (cases "undecoded c' j")
    case False
    then have keep: "ram_opcode c' ! j = ram_opcode c ! j"
      using cleared_of_entry [OF cl] c1(2) by simp
    with False have "\<not> undecoded c j"
      by (simp add: undecoded_def)
    with coh j obtain dual ops0 where d: "length ops0 = 6"
      "decode_at c romdc (entry_addr c j) dual ops0 =
        Some (fst (ram_opcode c ! j), dc_operands (ramDecodeCache c) ! j)"
      by (auto simp: cache_coherent_def entry_coherent_def)
    have out: "i \<notin> I" if "touches c1 j i" for i
      using False inv that by (auto simp: invalidates_def)
    have "j \<notin> I"
      by (rule out) (simp add: touches_def)
    moreover have "Suc j \<notin> I" if "inst_size (fst (ram_opcode c ! j)) = 4"
      using that \<open>\<not> undecoded c j\<close> by (intro out) (simp add: touches_def und(1) long_entry_def c1(2))
    moreover have "ram_half c' k = ram_half c1 k" "breakpoints c' = breakpoints c1" for k
      using cleared_of_fields [OF cl] by (simp_all add: ram_half_def)
    ultimately have "decode_at c' romdc (entry_addr c j) dual ops0 =
        Some (fst (ram_opcode c ! j), dc_operands (ramDecodeCache c) ! j)"
      using eq j by (intro decode_at_cong [OF wf(1) cfg j d(2,1)]) simp_all
    moreover have "dc_operands (ramDecodeCache c') = dc_operands (ramDecodeCache c)"
      using cleared_of_fields(13) [OF cl] c1(2) by simp
    ultimately show ?thesis
      using d(1) keep by (auto simp: entry_coherent_def config_eqs [OF cfg])
  qed (simp add: entry_coherent_def)
  then show ?thesis
    using s by (simp add: cache_coherent_def config_eqs [OF cfg])
qed

subsection \<open>Stores\<close>

lemma array_write_half:
  assumes "array_write xs x bs = Some ys" "j \<notin> halves x (x + length bs)"
  shows "take 2 (drop (2 * j) ys) = take 2 (drop (2 * j) xs)"
proof -
  have ys: "ys = take x xs @ bs @ drop (x + length bs) xs" "x + length bs \<le> length xs"
    using assms(1) by (auto simp: array_write_def split: if_splits)
  have out: "\<not> (x \<le> k \<and> k < x + length bs)" if "k div 2 = j" for k
    using assms(2) that unfolding halves_def by (metis atLeastLessThan_iff imageI)
  have same: "ys ! k = xs ! k" if "k div 2 = j" "k < length xs" for k
    using out [OF that(1)] that(2) ys by (auto simp: nth_append)
  have len: "length ys = length xs"
    using ys by simp
  show ?thesis
  proof (rule nth_equalityI)
    fix i
    assume "i < length (take 2 (drop (2 * j) ys))"
    then have "i < 2" "2 * j + i < length xs"
      by (auto simp: len)
    moreover then have "ys ! (2 * j + i) = xs ! (2 * j + i)"
      by (intro same) auto
    ultimately show "take 2 (drop (2 * j) ys) ! i = take 2 (drop (2 * j) xs) ! i"
      by (simp add: len)
  qed (simp add: len)
qed

lemma store_bytes_ok:
  assumes "core_wf c" "at_offset c a x" "x + length bs \<le> 2 * ram_shorts c"
  shows "\<exists>m. store_bytes bs a c = Some (c\<lparr>memory := m\<rparr>) \<and> length m = length (memory c) \<and>
    (\<forall>j. j \<notin> halves x (x + length bs) \<longrightarrow> ram_half (c\<lparr>memory := m\<rparr>) j = ram_half c j)"
proof -
  have "ram_index c a = Some x"
    using assms(2) by (simp add: at_offset_def ram_index_def word_le_nat_alt)
  moreover have "length (memory c) = 2 * ram_shorts c"
    using wf_sizes(4) [OF assms(1)] assms(1) unfolding core_wf_def by argo
  then obtain m where m: "array_write (memory c) x bs = Some m" "length m = length (memory c)"
    using assms(3) by (simp add: array_write_def)
  ultimately show ?thesis
    using array_write_half [OF m(1)] by (auto simp: store_bytes_def ram_half_def)
qed

lemma valid_at_offset:
  assumes "core_wf c" "isValidRamAddress c a"
  shows "at_offset c a (ram_offset c a)"
  using ram_index_valid [OF assms] by (simp add: at_offset_def)

lemma memory_marks [simp]: "marks_ok ex n (c\<lparr>memory := m\<rparr>) = marks_ok ex n c"
  by (simp add: marks_ok_def cache_shape_def entry_marked_def long_entry_def undecoded_def)

lemma memory_config: "length m = length (memory c) \<Longrightarrow> same_config c (c\<lparr>memory := m\<rparr>)"
  by (simp add: same_config_def)

text \<open>A store followed by the invalidation of what it wrote.\<close>

lemma store_coherent:
  assumes coh: "cache_coherent romdc c"
    and x: "at_offset c a x" "x + length bs \<le> 2 * ram_shorts c"
    and inv: "\<And>m. length m = length (memory c) \<Longrightarrow>
      \<exists>b c'. f (c\<lparr>memory := m\<rparr>) = Some (b, c') \<and>
        invalidates (halves x (x + length bs)) (c\<lparr>memory := m\<rparr>) c'"
  shows "\<exists>c1 b c'. store_bytes bs a c = Some c1 \<and> f c1 = Some (b, c') \<and> cache_coherent romdc c' \<and> same_config c c'"
proof -
  have wf: "core_wf c"
    using coh by (simp add: cache_coherent_def)
  from store_bytes_ok [OF wf x] obtain m where m: "store_bytes bs a c = Some (c\<lparr>memory := m\<rparr>)"
    "length m = length (memory c)"
    "\<And>j. j \<notin> halves x (x + length bs) \<Longrightarrow> ram_half (c\<lparr>memory := m\<rparr>) j = ram_half c j"
    by blast
  from inv [OF m(2)] obtain b c' where c': "f (c\<lparr>memory := m\<rparr>) = Some (b, c')"
    "invalidates (halves x (x + length bs)) (c\<lparr>memory := m\<rparr>) c'"
    by blast
  have "cache_coherent romdc c'"
    by (rule coherent_invalidated [OF coh memory_config [OF m(2)] _ _ c'(2)]) (simp_all add: m(3))
  moreover have "same_config c c'"
    using memory_config [OF m(2)] c'(2) cleared_of_config same_config_trans by (auto simp: invalidates_def)
  ultimately show ?thesis
    using m(1) c'(1) by blast
qed

lemma length_write [simp]: "length (write32le b v) = 4" "length (write16le b w) = 2"
  by (simp_all add: write32le_def write16le_def host_store32_def)

lemma emitStore_WORD_coherent:
  assumes "cache_coherent romdc c"
  shows "\<exists>r c'. emitStore_WORD v a c = Some (r, c') \<and> cache_coherent romdc c' \<and> same_config c c'"
proof (cases "CHECK_ADDR_RAM_WORD a c")
  case True
  have wf: "core_wf c" "marks_ok {} (ram_shorts c) c"
    using assms by (simp_all add: cache_coherent_def)
  have v: "isValidRamAddress c a" "a AND 3 = 0"
    using True by (simp_all add: CHECK_ADDR_RAM_WORD_def)
  note al = ram_offset_aligned(2) [OF wf(1) v] and off = valid_at_offset [OF wf(1) v(1)]
  have top: "ram_offset c a + 4 \<le> 2 * ram_shorts c"
    using ram_index_valid(2) [OF wf(1) v(1)] al wf_sizes(5) [OF wf(1)] by (auto elim!: dvdE)
  have "\<exists>c1 b c'. store_bytes (write32le True v) a c = Some c1 \<and> invalidateWord a c1 = Some (b, c') \<and>
      cache_coherent romdc c' \<and> same_config c c'" for v
  proof (rule store_coherent [OF assms off])
    fix m :: "u8 list"
    assume m: "length m = length (memory c)"
    note cfg = config_eqs [OF memory_config [OF m]]
    show "\<exists>b c'. invalidateWord a (c\<lparr>memory := m\<rparr>) = Some (b, c') \<and>
        invalidates (halves (ram_offset c a) (ram_offset c a + length (write32le True v))) (c\<lparr>memory := m\<rparr>) c'"
      using invalidateWord_ok [of "c\<lparr>memory := m\<rparr>" a] wf v al by (simp add: cfg halves_four)
  qed (use top in simp)
  then obtain c1 b c' where "store_bytes (write32le True v) a c = Some c1"
    "invalidateWord a c1 = Some (b, c')" "cache_coherent romdc c'" "same_config c c'"
    by blast
  with True show ?thesis
    by (simp add: emitStore_WORD_def storeWord_def)
qed (use assms in \<open>simp add: emitStore_WORD_def same_config_def\<close>)

end
