(* ===== verification/CoherenceOps.thy ===== *)
theory CoherenceOps
  imports Coherence
begin

text \<open>
  The stores of the interpreter and of a debugger and the breakpoint
  operations keep the decode cache coherent.
\<close>

lemma coherentD:
  assumes "cache_coherent romdc c"
  shows "core_wf c" "marks_ok {} (ram_shorts c) c"
  using assms by (simp_all add: cache_coherent_def)

lemma halves_two: "even x \<Longrightarrow> halves x (Suc (Suc x)) = {x div 2}"
  by (auto simp: halves_def elim!: evenE)

lemma emitStore_SHORT_coherent:
  assumes "cache_coherent romdc c"
  shows "\<exists>r c'. emitStore_SHORT v a c = Some (r, c') \<and> cache_coherent romdc c' \<and> same_config c c'"
proof (cases "CHECK_ADDR_RAM_SHORT a c")
  case True
  note wf = coherentD [OF assms]
  have v: "isValidRamAddress c a" "a AND 1 = 0"
    using True by (simp_all add: CHECK_ADDR_RAM_SHORT_def)
  note al = ram_offset_aligned(1) [OF wf(1) v] and off = valid_at_offset [OF wf(1) v(1)]
  have top: "ram_offset c a + 2 \<le> 2 * ram_shorts c"
    using ram_index_valid(2) [OF wf(1) v(1)] al by (auto elim!: evenE)
  have "\<exists>c1 b c'. store_bytes (write16le True v) a c = Some c1 \<and> invalidateShort a c1 = Some (b, c') \<and>
      cache_coherent romdc c' \<and> same_config c c'"
  proof (rule store_coherent [OF assms off])
    fix m :: "u8 list"
    assume m: "length m = length (memory c)"
    note cfg = config_eqs [OF memory_config [OF m]]
    show "\<exists>b c'. invalidateShort a (c\<lparr>memory := m\<rparr>) = Some (b, c') \<and>
        invalidates (halves (ram_offset c a) (ram_offset c a + length (write16le True v))) (c\<lparr>memory := m\<rparr>) c'"
      using invalidateShort_ok [of "c\<lparr>memory := m\<rparr>" a] wf v al by (simp add: cfg halves_two)
  qed (use top in simp)
  then obtain c1 b c' where "store_bytes (write16le True v) a c = Some c1"
    "invalidateShort a c1 = Some (b, c')" "cache_coherent romdc c'" "same_config c c'"
    by blast
  with True show ?thesis
    by (simp add: emitStore_SHORT_def storeShort_def)
qed (use assms in \<open>simp add: emitStore_SHORT_def same_config_def\<close>)

lemma emitStore_BYTE_coherent:
  assumes "cache_coherent romdc c"
  shows "\<exists>r c'. emitStore_BYTE v a c = Some (r, c') \<and> cache_coherent romdc c' \<and> same_config c c'"
proof (cases "CHECK_ADDR_RAM_BYTE a c")
  case True
  note wf = coherentD [OF assms]
  have v: "isValidRamAddress c a"
    using True by (simp add: CHECK_ADDR_RAM_BYTE_def)
  note off = valid_at_offset [OF wf(1) v]
  have "\<exists>c1 b c'. store_bytes [v] a c = Some c1 \<and> invalidateByte a c1 = Some (b, c') \<and>
      cache_coherent romdc c' \<and> same_config c c'"
  proof (rule store_coherent [OF assms off])
    fix m :: "u8 list"
    assume m: "length m = length (memory c)"
    note cfg = config_eqs [OF memory_config [OF m]]
    show "\<exists>b c'. invalidateByte a (c\<lparr>memory := m\<rparr>) = Some (b, c') \<and>
        invalidates (halves (ram_offset c a) (ram_offset c a + length [v])) (c\<lparr>memory := m\<rparr>) c'"
      using invalidateByte_ok [of "c\<lparr>memory := m\<rparr>" a] wf v by (simp add: cfg halves_one)
  qed (use ram_index_valid(2) [OF wf(1) v] in simp)
  then obtain c1 b c' where "store_bytes [v] a c = Some c1"
    "invalidateByte a c1 = Some (b, c')" "cache_coherent romdc c'" "same_config c c'"
    by blast
  with True show ?thesis
    by (simp add: emitStore_BYTE_def storeByte_def)
qed (use assms in \<open>simp add: emitStore_BYTE_def same_config_def\<close>)

text \<open>The bounds that \<open>writeMemory\<close> checks.\<close>

lemma writeMemory_bounds:
  assumes "core_wf c" "length src < 2 ^ 32"
    and "\<not> (a < getRamBase c \<or> ucast a + (of_nat (length src) :: u64) \<ge> ucast (getRamBase c + getRamSize c))"
  defines "x \<equiv> unat a - unat (getRamBase c)"
  shows "at_offset c a x" "x + length src < 2 * ram_shorts c"
    "at_offset c (ucast (ucast a + (of_nat (length src) :: u64))) (x + length src)"
proof -
  note wf = wf_sizes [OF assms(1)]
  have l: "unat (of_nat (length src) :: u64) = length src"
    using assms(2) by (simp add: unat_of_nat take_bit_nat_eq_self)
  have "unat (ucast a :: u64) + unat (of_nat (length src) :: u64) < 2 ^ 64"
    using unat_less_32 [of a] assms(2) by (simp add: unat_ucast64 l)
  then have u: "unat (ucast a + of_nat (length src) :: u64) = unat a + length src"
    by (subst unat_add_lem [THEN iffD1]) (simp_all add: unat_ucast64 l)
  have e: "unat (getRamBase c + getRamSize c) = unat (getRamBase c) + 2 * ram_shorts c"
    using wf by (subst unat_add_lem [THEN iffD1]) simp_all
  have b: "unat (getRamBase c) \<le> unat a" "unat a + length src < unat (getRamBase c) + 2 * ram_shorts c"
    using assms(3) by (simp_all add: word_less_nat_alt word_le_nat_alt u unat_ucast64 e)
  then show "at_offset c a x" "x + length src < 2 * ram_shorts c"
    by (simp_all add: at_offset_def x_def)
  have "unat a + length src < 2 ^ 32"
    using b(2) wf(4,6) by simp
  then show "at_offset c (ucast (ucast a + (of_nat (length src) :: u64))) (x + length src)"
    using b by (simp add: at_offset_def x_def unat_ucast32 u)
qed

lemma writeMemory_coherent:
  assumes "cache_coherent romdc c" "length src < 2 ^ 32"
  shows "\<exists>b c'. writeMemory a src c = Some (b, c') \<and> cache_coherent romdc c'"
proof (cases "src = [] \<or> a < getRamBase c \<or>
    ucast a + (of_nat (length src) :: u64) \<ge> ucast (getRamBase c + getRamSize c)")
  case True
  then show ?thesis
    using assms(1) by (auto simp: writeMemory_def Let_def)
next
  case False
  note wf = coherentD [OF assms(1)]
  define x where "x = unat a - unat (getRamBase c)"
  define e :: u32 where "e = ucast (ucast a + (of_nat (length src) :: u64))"
  have b: "at_offset c a x" "x + length src < 2 * ram_shorts c" "at_offset c e (x + length src)"
    using writeMemory_bounds [OF wf(1) assms(2), of a] False by (simp_all add: x_def e_def)
  have "\<exists>c1 b c'. store_bytes src a c = Some c1 \<and> invalidateRange a e c1 = Some (b, c') \<and>
      cache_coherent romdc c' \<and> same_config c c'"
  proof (rule store_coherent [OF assms(1) b(1)])
    fix m :: "u8 list"
    assume m: "length m = length (memory c)"
    note cfg = config_eqs [OF memory_config [OF m]] at_offset_config [OF memory_config [OF m]]
    show "\<exists>b c'. invalidateRange a e (c\<lparr>memory := m\<rparr>) = Some (b, c') \<and>
        invalidates (halves x (x + length src)) (c\<lparr>memory := m\<rparr>) c'"
      by (rule invalidateRange_ok) (use wf b in \<open>simp_all add: cfg\<close>)
  qed (use b in simp)
  then obtain c1 b c' where r: "store_bytes src a c = Some c1"
    "invalidateRange a e c1 = Some (b, c')" "cache_coherent romdc c'"
    by blast
  have "(of_nat (length src) :: u64) \<noteq> 0"
    using False assms(2) by (simp add: word_unat_eq_iff unat_of_nat take_bit_nat_eq_self)
  with False r show ?thesis
    by (auto simp: writeMemory_def Let_def e_def)
qed

subsection \<open>Breakpoints\<close>

lemma invalidateShort_valid:
  assumes "core_wf c" "marks_ok {} (ram_shorts c) c" "invalidateShort a c = Some r"
  shows "isValidRamAddress c a"
proof -
  from assms(3) obtain i info where i: "info_index c (drop_bit 1 a) = Some i" "get_info c i = Some info"
    by (auto simp: invalidateShort_def invalidateShortCheck_def bind_eq_Some_conv)
  have "i < ram_shorts c"
    using i(2) assms(2) by (auto simp: get_info_def marks_ok_def cache_shape_def array_get_def split: if_splits)
  moreover obtain k where k: "unat (getRamBase c) = 2 * k"
    using base_half(2) [OF assms(1)] by (rule evenE)
  moreover have "k \<le> unat a div 2" "i = unat a div 2 - k"
    using i(1) k by (auto simp: info_index_def word_le_nat_alt unat_half base_half(1) [OF assms(1)] split: if_splits)
  ultimately show ?thesis
    unfolding valid_ram_iff [OF assms(1)] by linarith
qed

lemma breakpoints_marks [simp]: "marks_ok ex n (c\<lparr>breakpoints := m\<rparr>) = marks_ok ex n c"
  by (simp add: marks_ok_def cache_shape_def entry_marked_def long_entry_def undecoded_def)

lemma breakpoints_config: "same_config c (c\<lparr>breakpoints := m\<rparr>)"
  by (simp add: same_config_def)

lemma breakpoint_coherent:
  assumes "cache_coherent romdc c" "invalidateShort a (c\<lparr>breakpoints := bs\<rparr>) = Some (b, c')"
    and "\<And>y. y \<noteq> a \<Longrightarrow> y \<in> bs \<longleftrightarrow> y \<in> breakpoints c"
  shows "cache_coherent romdc c'"
proof -
  note wf = coherentD [OF assms(1)] and cfg = config_eqs [OF breakpoints_config [of c bs]]
  have v: "isValidRamAddress c a"
    using invalidateShort_valid [OF _ _ assms(2)] wf by (simp add: cfg)
  from invalidateShort_ok [of "c\<lparr>breakpoints := bs\<rparr>" a] assms(2) wf v
  have inv: "invalidates {ram_offset c a div 2} (c\<lparr>breakpoints := bs\<rparr>) c'"
    by (simp add: cfg)
  show ?thesis
  proof (rule coherent_invalidated [OF assms(1) breakpoints_config _ _ inv])
    fix j
    assume j: "j < ram_shorts c" "j \<notin> {ram_offset c a div 2}"
    then have "entry_addr c j \<noteq> a"
      using entry_addr_valid(2) [OF wf(1) j(1)] by auto
    then show "ram_half (c\<lparr>breakpoints := bs\<rparr>) j = ram_half c j \<and>
        (entry_addr c j \<in> breakpoints (c\<lparr>breakpoints := bs\<rparr>) \<longleftrightarrow> entry_addr c j \<in> breakpoints c)"
      using assms(3) by (simp add: ram_half_def)
  qed simp
qed

lemma setBreakpoint_coherent:
  assumes "cache_coherent romdc c" "setBreakpoint a c = Some (b, c')"
  shows "cache_coherent romdc c'"
  using assms breakpoint_coherent [OF assms(1), of a "insert a (breakpoints c)"]
  by (auto simp: setBreakpoint_def bind_eq_Some_conv split: if_splits)

lemma unsetBreakpoint_coherent:
  assumes "cache_coherent romdc c" "unsetBreakpoint a c = Some c'"
  shows "cache_coherent romdc c'"
  using assms breakpoint_coherent [OF assms(1), of a "breakpoints c - {a}"]
  by (auto simp: unsetBreakpoint_def bind_eq_Some_conv split: if_splits)

end
