(* ===== verification/CoherenceReset.thy ===== *)
theory CoherenceReset
  imports CoherenceOps
begin

text \<open>
  The operations that empty the decode cache (change of the tracing mode, of
  the RAM base, watchpoints) and those that do not touch it.
\<close>

subsection \<open>Operations that empty the cache\<close>

lemma empty_coherent:
  assumes "core_wf c" "marks_ok {} (ram_shorts c) c" "\<forall>j < ram_shorts c. undecoded c j"
  shows "cache_coherent romdc c"
  using assms by (simp add: cache_coherent_def entry_coherent_def)

text \<open>Fields that neither the marks nor the entries of the cache depend on.\<close>

lemma marks_cache_cong:
  assumes "ram_opcode c' = ram_opcode c"
    "dc_invalidationInfo (ramDecodeCache c') = dc_invalidationInfo (ramDecodeCache c)"
    "length (dc_executionFrequency (ramDecodeCache c')) = length (dc_executionFrequency (ramDecodeCache c))"
    "length (dc_operands (ramDecodeCache c')) = length (dc_operands (ramDecodeCache c))"
  shows "marks_ok ex n c' = marks_ok ex n c" "undecoded c' j = undecoded c j"
  using assms
  by (simp_all add: marks_ok_def cache_shape_def entry_marked_def long_entry_def undecoded_def)

lemma resetCaches_coherent:
  assumes "core_wf c" "marks_ok {} (ram_shorts c) c"
  shows "\<exists>c'. resetCaches c = Some c' \<and> cache_coherent romdc c' \<and> cleared_of c c' \<and>
    (\<forall>j < ram_shorts c. undecoded c' j)"
proof -
  from resetCaches_ok [OF assms] obtain c' where c': "resetCaches c = Some c'"
    "marks_ok {} (ram_shorts c) c'" "cleared_of c c'" "\<forall>j < ram_shorts c. undecoded c' j"
    by blast
  note cfg = config_eqs [OF cleared_of_config [OF c'(3)]]
  have "cache_coherent romdc c'"
    using c' assms(1) by (intro empty_coherent) (simp_all add: cfg)
  with c' show ?thesis
    by blast
qed

lemma setTracing_reset:
  assumes "cache_coherent romdc c"
  shows "\<exists>c'. resetCaches (c\<lparr>jitEnabled := b, ramDecodeCache := setTracing t (ramDecodeCache c)\<rparr>) = Some c' \<and>
    cache_coherent romdc c'"
proof -
  define d where "d = c\<lparr>jitEnabled := b, ramDecodeCache := setTracing t (ramDecodeCache c)\<rparr>"
  have "same_config c d"
    by (simp add: same_config_def d_def setTracing_def)
  moreover have "marks_ok {} n d = marks_ok {} n c" for n
    by (rule marks_cache_cong) (simp_all add: d_def setTracing_def)
  ultimately show ?thesis
    using resetCaches_coherent [of d romdc] coherentD [OF assms]
    by (auto simp: config_eqs simp flip: d_def)
qed

lemma disableJIT_coherent:
  "cache_coherent romdc c \<Longrightarrow> \<exists>c'. disableJIT c = Some c' \<and> cache_coherent romdc c'"
  unfolding disableJIT_def by (rule setTracing_reset)

lemma enableJIT_coherent:
  "cache_coherent romdc c \<Longrightarrow> \<exists>c'. enableJIT c = Some c' \<and> cache_coherent romdc c'"
  unfolding enableJIT_def by (rule setTracing_reset)

text \<open>Fields that coherence does not depend on.\<close>

lemma coherent_cong:
  assumes "cache_coherent romdc c" "same_config c c'" "memory c' = memory c" "breakpoints c' = breakpoints c"
    and eq: "ram_opcode c' = ram_opcode c"
    "dc_invalidationInfo (ramDecodeCache c') = dc_invalidationInfo (ramDecodeCache c)"
    "length (dc_executionFrequency (ramDecodeCache c')) = length (dc_executionFrequency (ramDecodeCache c))"
    "dc_operands (ramDecodeCache c') = dc_operands (ramDecodeCache c)"
  shows "cache_coherent romdc c'"
proof -
  note wf = coherentD [OF assms(1)] and cfg = config_eqs [OF assms(2)]
  note cong = marks_cache_cong [OF eq(1-3)]
  have "entry_coherent romdc c' j" if j: "j < ram_shorts c" for j
  proof (cases "undecoded c j")
    case False
    with assms(1) j obtain dual ops0 where d: "length ops0 = 6"
      "decode_at c romdc (entry_addr c j) dual ops0 =
        Some (fst (ram_opcode c ! j), dc_operands (ramDecodeCache c) ! j)"
      by (auto simp: cache_coherent_def entry_coherent_def)
    have "decode_at c' romdc (entry_addr c j) dual ops0 =
        Some (fst (ram_opcode c ! j), dc_operands (ramDecodeCache c) ! j)"
      by (rule decode_at_cong [OF wf(1) assms(2) j d(2,1)]) (simp_all add: ram_half_def assms)
    with d(1) show ?thesis
      by (auto simp: entry_coherent_def cfg eq)
  qed (use eq cong in \<open>simp add: entry_coherent_def\<close>)
  moreover have "marks_ok {} (ram_shorts c) c'"
    using wf(2) cong eq(4) by simp
  ultimately show ?thesis
    using wf(1) by (simp add: cache_coherent_def cfg)
qed

lemma setWatchpoint_coherent:
  assumes "cache_coherent romdc c"
  shows "\<exists>b c'. setWatchpoint ty lo hi c = Some (b, c') \<and> cache_coherent romdc c'"
proof -
  have *: "cache_coherent romdc (d\<lparr>watchpoints := w\<rparr>)" if "cache_coherent romdc d" for d w
    by (rule coherent_cong [OF that]) (simp_all add: same_config_def)
  show ?thesis
    using assms disableJIT_coherent [OF assms] by (auto simp: setWatchpoint_def intro: *)
qed

lemma unsetWatchpoint_coherent:
  assumes "cache_coherent romdc c"
  shows "\<exists>c'. unsetWatchpoint tracer ty lo hi c = Some c' \<and> cache_coherent romdc c'"
proof -
  have *: "cache_coherent romdc (c\<lparr>watchpoints := w\<rparr>)" for w
    by (rule coherent_cong [OF assms]) (simp_all add: same_config_def)
  then show ?thesis
    using enableJIT_coherent [OF *] by (auto simp: unsetWatchpoint_def Let_def)
qed

lemma setRamBaseMultiple_coherent:
  assumes "cache_coherent romdc c"
  shows "\<exists>c'. setRamBaseMultiple k c = Some c' \<and> (core_wf c' \<longrightarrow> cache_coherent romdc c')"
proof -
  from resetCaches_coherent [OF coherentD [OF assms], of romdc] obtain c1 where
    c1: "resetCaches c = Some c1" "cache_coherent romdc c1" "cleared_of c c1"
      "\<forall>j < ram_shorts c. undecoded c1 j"
    by blast
  define d where "d = c1\<lparr>ramBaseMultiple := k\<rparr>"
  define c' where "c' = d\<lparr>ramDecodeCache := setBase (getRamBase d) (ramDecodeCache d)\<rparr>"
  have n: "ram_shorts c' = ram_shorts c" "ram_shorts c1 = ram_shorts c"
    using cleared_of_fields [OF c1(3)] by (simp_all add: ram_shorts_def c'_def d_def)
  have "marks_ok {} n c' = marks_ok {} n c1" "undecoded c' j = undecoded c1 j" for n j
    by (rule marks_cache_cong; simp add: c'_def d_def setBase_def)+
  then have "core_wf c' \<Longrightarrow> cache_coherent romdc c'"
    using c1(4) coherentD(2) [OF c1(2)] by (intro empty_coherent) (simp_all add: n)
  moreover have "setRamBaseMultiple k c = Some c'"
    by (simp add: setRamBaseMultiple_def c1(1) c'_def d_def Let_def)
  ultimately show ?thesis
    by blast
qed

lemma setProcessorState_coherent:
  assumes "cache_coherent romdc c"
  shows "\<exists>b c'. setProcessorState reg v c = Some (b, c') \<and> (core_wf c' \<longrightarrow> cache_coherent romdc c')"
proof -
  have "cache_coherent romdc (c\<lparr>vector_base := v\<rparr>)" "cache_coherent romdc (c\<lparr>bootStatus := v\<rparr>)"
    by (rule coherent_cong [OF assms]; simp add: same_config_def)+
  then show ?thesis
    using assms setRamBaseMultiple_coherent [OF assms, of "v div getRamSize c"]
    by (auto simp: setProcessorState_def)
qed

lemma runJIT_coherent:
  assumes "cache_coherent romdc c"
  shows "\<exists>c'. runJIT pc c = Some c' \<and> cache_coherent romdc c'"
proof (cases "isValidRamPc c pc")
  case True
  define fs where "fs = (dc_executionFrequency (ramDecodeCache c))[unat pc := MIN_EXECUTION_FREQUENCY]"
  define c' where "c' = c\<lparr>ramDecodeCache := (ramDecodeCache c)\<lparr>dc_executionFrequency := fs\<rparr>\<rparr>"
  have "unat pc < ram_shorts c"
    using True coherentD(1) [OF assms] wf_sizes(2) [OF coherentD(1) [OF assms]]
    by (simp add: isValidRamPc_def isValidPc_def core_wf_def word_less_nat_alt)
  then have "runJIT pc c = Some c'"
    using True coherentD(2) [OF assms]
    by (simp add: runJIT_def marks_ok_def cache_shape_def c'_def fs_def)
  moreover have "cache_coherent romdc c'"
    by (rule coherent_cong [OF assms]) (simp_all add: same_config_def c'_def fs_def)
  ultimately show ?thesis
    by blast
qed (use assms in \<open>simp add: runJIT_def\<close>)

end
