(* ===== verification/CoherenceDecode.thy ===== *)
theory CoherenceDecode
  imports CoherenceReset
begin

text \<open>
  Filling an entry: \<open>Instruction_DECODE\<close> keeps the decode cache coherent.
\<close>

subsection \<open>Filling an entry\<close>

lemma inst_size_cases: "inst_size opc = 2 \<or> inst_size opc = 4"
  by (cases opc) (simp_all add: inst_size_def)

lemma decode_at_long:
  assumes wf: "core_wf c" "j < ram_shorts c" and ops0: "length ops0 = 6"
    and d: "decode_at c romdc (entry_addr c j) dual ops0 = Some d" and long: "inst_size (fst d) = 4"
  shows "Suc j < ram_shorts c"
proof (rule ccontr)
  assume end0: "\<not> Suc j < ram_shorts c"
  from d obtain e where e: "instructionTransform c romdc (entry_addr c j) dual e = Some d"
    "fst e \<noteq> Fpseudo DECODE"
    "if isBreakpointAddress c (entry_addr c j) then e = (Fpseudo BREAKPOINT, ops0)
     else \<exists>h. fetch c (entry_addr c j) = Some h \<and>
       decode_halves (nodeType c) h (Fpseudo DECODE, ops0) = Some e"
    by (auto simp: decode_at_eq_Some)
  have four: "inst_size (fst e) = 4"
    using instructionTransform_size [OF e(1)] long by simp
  then have "e \<noteq> (Fpseudo BREAKPOINT, ops0)"
    by (auto simp: inst_size_def)
  with e(3) have "decode_halves (nodeType c) (read16le True (ram_half c j), None) (Fpseudo DECODE, ops0) = Some e"
    using fetch_entry [OF wf] end0 by (auto split: if_splits)
  with decode_halves_good [OF ops0, of "read16le True (ram_half c j)" None "Fpseudo DECODE" "nodeType c"] e(2) four
  show False
    by (auto simp: decode_good_def)
qed

text \<open>The marks after \<open>setOpcode\<close> for an instruction of \<open>sz\<close> bytes.\<close>

definition marked :: "nat \<Rightarrow> nat \<Rightarrow> invalidation list \<Rightarrow> invalidation list" where
  "marked j sz info = (
     let info = (if info ! j = INVALIDATE_NONE then info[j := INVALIDATE_CURRENT] else info) in
     if sz = 4 then info[Suc j := INVALIDATE_CURRENT_AND_PREVIOUS] else info)"

lemma length_marked [simp]: "length (marked j sz info) = length info"
  by (simp add: marked_def Let_def)

lemma setOpcode_eq:
  assumes "dc_invalidationInfo dc = Some info" "unat pc < length info" "length (dc_operands dc) = length info"
    "length info \<le> length (dc_opcode dc)" "sz = 2 \<or> sz = 4" "sz = 4 \<Longrightarrow> Suc (unat pc) < length info"
  shows "setOpcode pc opc ops sz dc = Some (dc\<lparr>
    dc_opcode := (dc_opcode dc)[unat pc := opc],
    dc_invalidationInfo := Some (marked (unat pc) sz info),
    dc_operands := (dc_operands dc)[unat pc := ops]\<rparr>)"
  using assms by (auto simp: setOpcode_def setOpcode_size_def marked_def Let_def)

lemma Instruction_DECODE_eq:
  assumes coh: "cache_coherent romdc c" and pc: "isValidRamPc c pc" and ops0: "length ops0 = 6"
    and d: "decode_at c romdc (fromRamPc c pc) dual ops0 = Some (opc, ops)"
  shows "Instruction_DECODE tracing pc dual ops0 romdc c = Some (c\<lparr>ramDecodeCache := (ramDecodeCache c)\<lparr>
    dc_opcode := (ram_opcode c)[unat pc := (opc, tracing)],
    dc_invalidationInfo := Some (marked (unat pc) (inst_size opc) (ram_info c)),
    dc_operands := (dc_operands (ramDecodeCache c))[unat pc := ops]\<rparr>\<rparr>)"
    "unat pc < ram_shorts c" "entry_addr c (unat pc) = fromRamPc c pc"
    "inst_size opc = 4 \<Longrightarrow> Suc (unat pc) < ram_shorts c"
proof -
  note wf = coherentD [OF coh]
  show n: "unat pc < ram_shorts c"
    using pc wf(1) wf_sizes(2) [OF wf(1)]
    by (simp add: isValidRamPc_def isValidPc_def core_wf_def word_less_nat_alt)
  show e: "entry_addr c (unat pc) = fromRamPc c pc"
    by (simp add: entry_addr_def)
  show long: "inst_size opc = 4 \<Longrightarrow> Suc (unat pc) < ram_shorts c"
    using decode_at_long [OF wf(1) n ops0, of romdc dual "(opc, ops)"] d by (simp add: e)
  obtain info where info: "dc_invalidationInfo (ramDecodeCache c) = Some info" "length info = ram_shorts c"
    "length (dc_operands (ramDecodeCache c)) = ram_shorts c" "length (ram_opcode c) = ram_shorts c + 4"
    using wf(2) by (auto simp: marks_ok_def cache_shape_def)
  have "setOpcode pc (opc, tracing) ops (inst_size opc) (ramDecodeCache c) = Some ((ramDecodeCache c)\<lparr>
    dc_opcode := (ram_opcode c)[unat pc := (opc, tracing)],
    dc_invalidationInfo := Some (marked (unat pc) (inst_size opc) info),
    dc_operands := (dc_operands (ramDecodeCache c))[unat pc := ops]\<rparr>)"
    by (rule setOpcode_eq) (use info n long inst_size_cases in \<open>simp_all\<close>)
  then show "Instruction_DECODE tracing pc dual ops0 romdc c = Some (c\<lparr>ramDecodeCache := (ramDecodeCache c)\<lparr>
    dc_opcode := (ram_opcode c)[unat pc := (opc, tracing)],
    dc_invalidationInfo := Some (marked (unat pc) (inst_size opc) (ram_info c)),
    dc_operands := (dc_operands (ramDecodeCache c))[unat pc := ops]\<rparr>\<rparr>)"
    by (simp add: Instruction_DECODE_def d info)
qed

lemma marked_marks:
  assumes "marks_ok {} n c" "k < n" "sz = 4 \<Longrightarrow> Suc k < n"
    and c': "ram_opcode c' = (ram_opcode c)[k := f]" "ram_info c' = marked k sz (ram_info c)"
    "cache_shape n c'" and sz: "sz = inst_size (fst f)"
  shows "marks_ok {} n c'"
proof -
  have len: "length (ram_info c) = n" "length (ram_opcode c) = n + 4"
    using assms(1) by (simp_all add: marks_ok_def cache_shape_def)
  have m: "ram_info c ! i \<noteq> INVALIDATE_NONE \<Longrightarrow> i \<noteq> Suc k \<Longrightarrow> ram_info c' ! i = ram_info c ! i"
    "ram_info c' ! k \<noteq> INVALIDATE_NONE"
    "ram_info c ! i = INVALIDATE_CURRENT_AND_PREVIOUS \<Longrightarrow> ram_info c' ! i = INVALIDATE_CURRENT_AND_PREVIOUS"
    "ram_info c ! i \<noteq> INVALIDATE_NONE \<Longrightarrow> ram_info c' ! i \<noteq> INVALIDATE_NONE"
    "sz = 4 \<Longrightarrow> ram_info c' ! Suc k = INVALIDATE_CURRENT_AND_PREVIOUS" for i
    using assms(2,3) len unfolding c'(2) marked_def Let_def
    by (auto simp: nth_list_update split: if_splits)
  have "entry_marked c' j" if j: "j < n" for j
  proof (cases "j = k")
    case True
    then show ?thesis
      using m assms(2,3) len sz c'(3)
      by (simp add: entry_marked_def long_entry_def undecoded_def c'(1) cache_shape_def)
  next
    case False
    then have "entry_marked c j"
      using assms(1) j by (simp add: marks_ok_def)
    with False show ?thesis
      using m c'(3) len by (auto simp: entry_marked_def long_entry_def undecoded_def c'(1) cache_shape_def)
  qed
  moreover have "ram_info c' ! 0 \<noteq> INVALIDATE_CURRENT_AND_PREVIOUS"
    using assms(1,2) len unfolding c'(2) marked_def Let_def
    by (auto simp: marks_ok_def nth_list_update split: if_splits)
  ultimately show ?thesis
    using c'(3) by (simp add: marks_ok_def)
qed

lemma Instruction_DECODE_coherent:
  assumes coh: "cache_coherent romdc c" and pc: "isValidRamPc c pc" and ops0: "length ops0 = 6"
    and d: "decode_at c romdc (fromRamPc c pc) dual ops0 = Some (opc, ops)"
    and step: "Instruction_DECODE tracing pc dual ops0 romdc c = Some c'"
  shows "cache_coherent romdc c'"
proof -
  note wf = coherentD [OF coh]
  note D = Instruction_DECODE_eq [OF coh pc ops0 d]
  define k where "k = unat pc"
  have c': "c' = c\<lparr>ramDecodeCache := (ramDecodeCache c)\<lparr>
    dc_opcode := (ram_opcode c)[k := (opc, tracing)],
    dc_invalidationInfo := Some (marked k (inst_size opc) (ram_info c)),
    dc_operands := (dc_operands (ramDecodeCache c))[k := ops]\<rparr>\<rparr>"
    using D(1) step by (simp add: k_def)
  have k: "k < ram_shorts c" "inst_size opc = 4 \<Longrightarrow> Suc k < ram_shorts c"
    using D by (simp_all add: k_def)
  have ent: "ram_opcode c' = (ram_opcode c)[k := (opc, tracing)]"
    "dc_operands (ramDecodeCache c') = (dc_operands (ramDecodeCache c))[k := ops]"
    by (simp_all add: c')
  have cfg: "same_config c c'"
    by (simp add: same_config_def c')
  have sh: "cache_shape (ram_shorts c) c'"
    using wf(2) by (auto simp: marks_ok_def cache_shape_def c')
  have "marks_ok {} (ram_shorts c) c'"
    by (rule marked_marks [OF wf(2) k(1) _ _ _ sh, where f = "(opc, tracing)" and sz = "inst_size opc"])
      (use k in \<open>simp_all add: c'\<close>)
  moreover have "entry_coherent romdc c' j" if j: "j < ram_shorts c" for j
  proof (cases "undecoded c' j")
    case False
    have same: "decode_at c' romdc (entry_addr c j) dual' ops' = Some d'"
      if "decode_at c romdc (entry_addr c j) dual' ops' = Some d'" "length ops' = 6" for dual' ops' d'
      by (rule decode_at_cong [OF wf(1) cfg j that]) (simp_all add: ram_half_def c')
    have len: "length (ram_opcode c) = ram_shorts c + 4" "length (dc_operands (ramDecodeCache c)) = ram_shorts c"
      using wf(2) by (simp_all add: marks_ok_def cache_shape_def)
    show ?thesis
    proof (cases "j = k")
      case True
      then have "decode_at c' romdc (entry_addr c j) dual ops0 = Some (opc, ops)"
        using same [OF _ ops0] d D(3) by (simp add: k_def)
      with True ops0 k(1) len show ?thesis
        by (auto simp: entry_coherent_def config_eqs [OF cfg] ent)
    next
      case False
      with \<open>\<not> undecoded c' j\<close> coh j obtain dual' ops' where d': "length ops' = 6"
        "decode_at c romdc (entry_addr c j) dual' ops' =
          Some (fst (ram_opcode c ! j), dc_operands (ramDecodeCache c) ! j)"
        by (auto simp: cache_coherent_def entry_coherent_def undecoded_def ent)
      with same [OF d'(2,1)] False show ?thesis
        by (auto simp: entry_coherent_def config_eqs [OF cfg] ent)
    qed
  qed (simp add: entry_coherent_def)
  ultimately show ?thesis
    using wf(1) by (simp add: cache_coherent_def config_eqs [OF cfg])
qed

end
