(* ===== verification/MemorySystem.thy ===== *)
theory MemorySystem
  imports CoherenceDecode
begin

text \<open>
  The memory system of a core as a state machine: what the instructions of
  its threads and a debugger do to memory, breakpoints and the decode cache,
  in any order.
\<close>

inductive core_step :: "dcache \<Rightarrow> core \<Rightarrow> core \<Rightarrow> bool" for romdc where
  step_decode: "isValidRamPc c pc \<Longrightarrow> fst (ram_opcode c ! unat pc) = Fpseudo DECODE \<Longrightarrow> length ops0 = 6 \<Longrightarrow>
    Instruction_DECODE (snd (ram_opcode c ! unat pc)) pc dual ops0 romdc c = Some c' \<Longrightarrow> core_step romdc c c'"
| step_store_word: "emitStore_WORD w a c = Some (r, c') \<Longrightarrow> core_step romdc c c'"
| step_store_short: "emitStore_SHORT h a c = Some (r, c') \<Longrightarrow> core_step romdc c c'"
| step_store_byte: "emitStore_BYTE v a c = Some (r, c') \<Longrightarrow> core_step romdc c c'"
| step_write: "length src < 2 ^ 32 \<Longrightarrow> writeMemory a src c = Some (b, c') \<Longrightarrow> core_step romdc c c'"
| step_set_breakpoint: "setBreakpoint a c = Some (b, c') \<Longrightarrow> core_step romdc c c'"
| step_unset_breakpoint: "unsetBreakpoint a c = Some c' \<Longrightarrow> core_step romdc c c'"
| step_set_watchpoint: "setWatchpoint ty lo hi c = Some (b, c') \<Longrightarrow> core_step romdc c c'"
| step_unset_watchpoint: "unsetWatchpoint tracer ty lo hi c = Some c' \<Longrightarrow> core_step romdc c c'"
| step_processor_state: "setProcessorState reg v c = Some (b, c') \<Longrightarrow> core_wf c' \<Longrightarrow> core_step romdc c c'"
| step_run_jit: "runJIT pc c = Some c' \<Longrightarrow> core_step romdc c c'"

inductive_cases core_stepE: "core_step romdc c c'"

lemma core_step_coherent:
  assumes "core_step romdc c c'" "cache_coherent romdc c"
  shows "cache_coherent romdc c'"
  using assms
proof (induction rule: core_step.induct)
  case (step_decode c pc ops0 dual c')
  then obtain opc ops where "decode_at c romdc (fromRamPc c pc) dual ops0 = Some (opc, ops)"
    by (auto simp: Instruction_DECODE_def Let_def bind_eq_Some_conv)
  with step_decode Instruction_DECODE_coherent show ?case
    by blast
next
  case (step_store_word w a c r c')
  with emitStore_WORD_coherent [of romdc c w a] show ?case by simp
next
  case (step_store_short h a c r c')
  with emitStore_SHORT_coherent [of romdc c h a] show ?case by simp
next
  case (step_store_byte v a c r c')
  with emitStore_BYTE_coherent [of romdc c v a] show ?case by simp
next
  case (step_write src a c b c')
  with writeMemory_coherent [of romdc c src a] show ?case by simp
next
  case (step_set_watchpoint ty lo hi c b c')
  with setWatchpoint_coherent [of romdc c ty lo hi] show ?case by simp
next
  case (step_unset_watchpoint tracer ty lo hi c c')
  with unsetWatchpoint_coherent [of romdc c tracer ty lo hi] show ?case by simp
next
  case (step_processor_state reg v c b c')
  with setProcessorState_coherent [of romdc c reg v] show ?case by simp
next
  case (step_run_jit pc c c')
  with runJIT_coherent [of romdc c pc] show ?case by simp
qed (blast intro: setBreakpoint_coherent unsetBreakpoint_coherent)+

lemma core_steps_coherent:
  assumes "(core_step romdc)\<^sup>*\<^sup>* c c'" "cache_coherent romdc c"
  shows "cache_coherent romdc c'"
  using assms by (induction rule: rtranclp_induct) (auto intro: core_step_coherent)

subsection \<open>A new core\<close>

text \<open>
  A core of the default configuration, where the RAM of \<open>2 ^ k\<close> bytes starts
  at its own size, with a boot ROM attached.
\<close>

definition boot_core ::
  "nat \<Rightarrow> u8 list \<Rightarrow> operands \<Rightarrow> u32 \<Rightarrow> NodeType \<Rightarrow> bool \<Rightarrow> u8 list \<Rightarrow> u32 \<Rightarrow> u32 \<Rightarrow> core" where
  "boot_core k memory0 operands0 vector_base0 ty tracing romData romBase0 romSize0 =
     setRom romData romBase0 romSize0 (Core_new memory0 operands0 vector_base0 ty (2 ^ k) (2 ^ k) tracing)"

lemma clz_pow: "k < 32 \<Longrightarrow> countLeadingZeros (2 ^ k) = 31 - k"
proof -
  assume k: "k < 32"
  have "clz_loop 32 (2 ^ k) = 32 - Suc k"
    by (rule clz_loop_eq) (use k in \<open>auto simp: bit_exp_iff\<close>)
  then show ?thesis
    by (simp add: countLeadingZeros_def)
qed

lemma boot_core_fields:
  assumes "2 \<le> k" "k \<le> 30" "c = boot_core k memory0 operands0 vb ty tracing romData romBase0 romSize0"
  shows "ramSizeLog2 c = k" "ramBaseMultiple c = 1" "memory c = memory0"
    "ramDecodeCache c = dc_new operands0 (2 ^ (k - 1)) (2 ^ k) True tracing"
    "romBase c = romBase0" "romSize c = romSize0" "breakpoints c = {}"
proof -
  have "drop_bit 1 (2 ^ k :: u32) = 2 ^ (k - 1)"
    using assms(1,2) by (intro bit_word_eqI) (auto simp: bit_drop_bit_eq bit_exp_iff)
  moreover have "(2 ^ k :: u32) div 2 ^ k = 1"
  proof -
    have "unat ((2 ^ k :: u32) div 2 ^ k) = 1"
      using assms(2) unat_pow [of k] by (simp only: unat_div) simp
    then show ?thesis
      by (simp only: word_unat_eq_iff unat_1)
  qed
  ultimately show "ramSizeLog2 c = k" "ramBaseMultiple c = 1" "memory c = memory0"
    "ramDecodeCache c = dc_new operands0 (2 ^ (k - 1)) (2 ^ k) True tracing"
    "romBase c = romBase0" "romSize c = romSize0" "breakpoints c = {}"
    using assms(2) by (simp_all add: assms(3) boot_core_def setRom_def Core_new_def clz_pow)
qed

lemma boot_core_coherent:
  assumes "2 \<le> k" "k \<le> 30" "length memory0 = 2 ^ k" "romSize0 \<le> 2 ^ k + 2 ^ k - romBase0"
  shows "cache_coherent romdc (boot_core k memory0 operands0 vb ty tracing romData romBase0 romSize0)"
proof -
  define c where "c = boot_core k memory0 operands0 vb ty tracing romData romBase0 romSize0"
  note f = boot_core_fields [OF assms(1,2) c_def]
  have p: "(2 :: nat) ^ k * 2 < 2 ^ 32" "k - 1 < 32" "unat (2 ^ (k - 1) :: u32) = 2 ^ (k - 1)"
    using assms(2) power_strict_increasing [of "Suc k" 32 "2 :: nat"] unat_pow [of "k - 1"] by auto
  have base: "getRamBase c = 2 ^ k" "getRamSize c = 2 ^ k" "getRamSizeShorts c = 2 ^ (k - 1)" "ram_shorts c = 2 ^ (k - 1)"
    by (simp_all add: getRamBase_def getRamSize_def getRamSizeShorts_def ram_shorts_def f)
  have "core_wf c"
    unfolding core_wf_def using assms p base
    by (simp add: f dc_new_def initCache_def isValidRomAddress_def)
  moreover have "undecoded c j" if "j < ram_shorts c" for j
    using that p(3)
    by (simp add: base undecoded_def f dc_new_def initCache_def getInstruction_DECODE_def nth_append)
  moreover from this have "marks_ok {} (ram_shorts c) c"
    using p power_strict_increasing [of "k - 1" 32 "2 :: nat"]
    by (simp add: base marks_ok_def cache_shape_def entry_marked_def long_entry_def f dc_new_def initCache_def)
  ultimately show ?thesis
    unfolding c_def [symmetric] by (intro empty_coherent) (auto simp: base)
qed

subsection \<open>Results\<close>


text \<open>A core with two half-words of RAM, the second one empty.\<close>

definition demo_core_of :: "u16 \<Rightarrow> core" where
  "demo_core_of h = boot_core 2 (write16le True h @ [0, 0]) [0, 0, 0, 0, 0, 0] 0 XS1_L False [] 0 0"

definition demo_rom :: dcache where
  "demo_rom = dc_new [0, 0, 0, 0, 0, 0] 0 0 False False"

lemma demo_core_facts:
  "cache_coherent romdc (demo_core_of h)" "core_wf (demo_core_of h)" "ram_shorts (demo_core_of h) = 2"
  "breakpoints (demo_core_of h) = {}" "memory (demo_core_of h) = write16le True h @ [0, 0]"
  "nodeType (demo_core_of h) = XS1_L" "ram_opcode (demo_core_of h) ! 0 = (Fpseudo DECODE, False)"
  "dc_size (ramDecodeCache (demo_core_of h)) = 2" "ramSizeLog2 (demo_core_of h) = 2"
  "ramBaseMultiple (demo_core_of h) = 1" "dc_base (ramDecodeCache (demo_core_of h)) = 4"
proof -
  show coh: "cache_coherent romdc (demo_core_of h)" for romdc
    unfolding demo_core_of_def by (rule boot_core_coherent) simp_all
  then show "core_wf (demo_core_of h)"
    by (simp add: cache_coherent_def)
  have f: "2 \<le> (2 :: nat)" "2 \<le> (30 :: nat)"
    by simp_all
  note d = boot_core_fields [OF f demo_core_of_def]
  show "ram_shorts (demo_core_of h) = 2" "breakpoints (demo_core_of h) = {}"
    "memory (demo_core_of h) = write16le True h @ [0, 0]" "ramSizeLog2 (demo_core_of h) = 2"
    "ramBaseMultiple (demo_core_of h) = 1"
    by (simp_all add: ram_shorts_def d)
  show "nodeType (demo_core_of h) = XS1_L"
    by (simp add: demo_core_of_def boot_core_def setRom_def Core_new_def)
  show "ram_opcode (demo_core_of h) ! 0 = (Fpseudo DECODE, False)"
    "dc_size (ramDecodeCache (demo_core_of h)) = 2" "dc_base (ramDecodeCache (demo_core_of h)) = 4"
    by (simp_all add: d dc_new_def initCache_def getInstruction_DECODE_def nth_append)
qed

lemma read16le_write16le: "read16le le (write16le le' h) = h"
  by (rule word16_eqI) (auto simp: read16le_def write16le_def bit_simps not_less)

lemma demo_decode:
  assumes "instructionDecode h 0 True XS1_L (Fpseudo DECODE, [0, 0, 0, 0, 0, 0]) = Some d"
    "fst d \<noteq> Fpseudo DECODE" "instructionTransform (demo_core_of h) romdc (fromRamPc (demo_core_of h) 0) False d = Some d'"
  shows "decode_at (demo_core_of h) romdc (fromRamPc (demo_core_of h) 0) False [0, 0, 0, 0, 0, 0] = Some d'"
proof -
  note f = demo_core_facts [where h = h]
  have n: "0 < ram_shorts (demo_core_of h)"
    by (simp add: f(3))
  note v = entry_addr_valid [OF f(2) n] and fe = fetch_entry [OF f(2) n]
  have half: "ram_half (demo_core_of h) 0 = write16le True h" "ram_half (demo_core_of h) (Suc 0) = [0, 0]"
    by (simp_all add: ram_half_def f(5))
  have "read16le True [0, 0] = 0"
    by (simp add: read16le_def)
  then have "fetch (demo_core_of h) (entry_addr (demo_core_of h) 0) = Some (h, Some 0)"
    using fe half by (simp add: f(3) read16le_write16le)
  then show ?thesis
    unfolding decode_at_eq_Some using v assms f(4,6)
    by (intro conjI exI [of _ d]) (auto simp: isValidAddress_def isBreakpointAddress_def decode_halves_def entry_addr_def)
qed

definition demo_add :: u16 where
  "demo_add = encode_3r 0x02 1 2 3"

lemma demo_decode_add:
  "decode_at (demo_core_of demo_add) romdc (fromRamPc (demo_core_of demo_add) 0) False [0, 0, 0, 0, 0, 0] =
     Some (F3r ADD_3r, [1, 2, 3, 0, 0, 0])"
proof (rule demo_decode)
  show "instructionDecode demo_add 0 True XS1_L (Fpseudo DECODE, [0, 0, 0, 0, 0, 0]) =
      Some (F3r ADD_3r, [1, 2, 3, 0, 0, 0])"
    using decode_roundtrip_3r [of "0x02" ADD_3r XS1_L 1 2 3 "(Fpseudo DECODE, [0, 0, 0, 0, 0, 0])"]
    by (simp add: table_3r_def demo_add_def)
  show "instructionTransform (demo_core_of demo_add) romdc (fromRamPc (demo_core_of demo_add) 0) False
      (F3r ADD_3r, [1, 2, 3, 0, 0, 0]) = Some (F3r ADD_3r, [1, 2, 3, 0, 0, 0])"
    using entry_addr_valid(1) [OF demo_core_facts(2), of 0 demo_add]
    by (simp add: instructionTransform_def getDecodeCacheContaining_def demo_core_facts(3) entry_addr_def)
qed simp


text \<open>
  C14. No store gets stuck in the invalidation of the cache.  In every state
  that a new core can reach, the stores of a word, a short and a byte, a write
  by the debugger, a change of the watchpoints and of the compiler mode all
  return: the loops that follow the marks end inside the array of marks.
\<close>

theorem memory_operations_return:
  assumes "2 \<le> k" "k \<le> 30" "length memory0 = 2 ^ k" "romSize0 \<le> 2 ^ k + 2 ^ k - romBase0"
    and "(core_step romdc)\<^sup>*\<^sup>*
      (boot_core k memory0 operands0 vb ty tracing romData romBase0 romSize0) c"
    and "length src < 2 ^ 32"
  shows "emitStore_WORD w a c \<noteq> None \<and> emitStore_SHORT h a c \<noteq> None \<and> emitStore_BYTE v a c \<noteq> None
    \<and> writeMemory a src c \<noteq> None \<and> resetCaches c \<noteq> None
    \<and> setWatchpoint wty lo hi c \<noteq> None \<and> unsetWatchpoint tracer wty lo hi c \<noteq> None"
proof -
  have coh: "cache_coherent romdc c"
    using core_steps_coherent [OF assms(5) boot_core_coherent [OF assms(1-4)]] .
  show ?thesis
    using emitStore_WORD_coherent [OF coh, of w a] emitStore_SHORT_coherent [OF coh, of h a]
      emitStore_BYTE_coherent [OF coh, of v a] writeMemory_coherent [OF coh assms(6), of a]
      resetCaches_coherent [OF coherentD [OF coh], of romdc]
      setWatchpoint_coherent [OF coh, of wty lo hi] unsetWatchpoint_coherent [OF coh, of tracer wty lo hi]
    by auto
qed

theorem memory_operations_return_witness:
  "emitStore_WORD 0xdeadbeef 4 (demo_core_of demo_add) \<noteq> None \<and> writeMemory 5 [1, 2] (demo_core_of demo_add) \<noteq> None"
  using memory_operations_return [of 2 "write16le True demo_add @ [0, 0]" 0 0 demo_rom
      "[0, 0, 0, 0, 0, 0]" 0 XS1_L False "[]" "demo_core_of demo_add" "[1, 2]" "0xdeadbeef" 4, folded demo_core_of_def]
    memory_operations_return [of 2 "write16le True demo_add @ [0, 0]" 0 0 demo_rom
      "[0, 0, 0, 0, 0, 0]" 0 XS1_L False "[]" "demo_core_of demo_add" "[1, 2]" 0 5, folded demo_core_of_def]
  by simp

subsection \<open>What a store does\<close>

lemma array_write_read:
  assumes "array_write xs x bs = Some ys"
  shows "array_slice ys x (length bs) = Some bs"
    and "i < x \<or> x + length bs \<le> i \<Longrightarrow> array_get ys i = array_get xs i"
  using assms by (auto simp: array_write_def array_slice_def array_get_def nth_append split: if_splits)

lemma emitStore_WORD_effect:
  assumes coh: "cache_coherent romdc c" and chk: "CHECK_ADDR_RAM_WORD a c"
  obtains e c' m where "emitStore_WORD w a c = Some (Stored e (hitWatchpoint WRITE a 4 c), c')"
    "memory c' = m" "array_write (memory c) (ram_offset c a) (write32le True w) = Some m"
    "same_config c c'"
proof -
  have v: "isValidRamAddress c a"
    using chk by (simp add: CHECK_ADDR_RAM_WORD_def)
  note i = ram_index_valid(1) [OF coherentD(1) [OF coh] v]
  from emitStore_WORD_coherent [OF coh, of w a] chk obtain c1 b c' where
    r: "storeWord w a c = Some c1" "invalidateWord a c1 = Some (b, c')"
    by (auto simp: emitStore_WORD_def bind_eq_Some_conv)
  from r(1) i obtain m where m: "array_write (memory c) (ram_offset c a) (write32le True w) = Some m"
    "c1 = c\<lparr>memory := m\<rparr>"
    by (auto simp: storeWord_def store_bytes_def bind_eq_Some_conv)
  have len: "length m = length (memory c)"
    using m(1) by (auto simp: array_write_def split: if_splits)
  note cfg = config_eqs [OF memory_config [OF len]]
  have "4 dvd ram_offset c a"
    using ram_offset_aligned(2) [OF coherentD(1) [OF coh] v] chk by (simp add: CHECK_ADDR_RAM_WORD_def)
  then have "cleared_of c1 c'"
    using invalidateWord_ok [of c1 a] r(2) coherentD [OF coh] v by (auto simp: m(2) cfg invalidates_def)
  then have "memory c' = m" "same_config c c'" "watchpoints c' = watchpoints c"
    using cleared_of_fields [of c1 c'] cleared_of_config [of c1 c'] same_config_trans [OF memory_config [OF len], of c']
    by (simp_all add: m(2))
  with r chk m(1) that [of b c' m] show thesis
    by (simp add: emitStore_WORD_def hitWatchpoint_def)
qed

text \<open>
  C15. The store of a word.  At an address that is not word aligned or not in
  RAM it raises \<open>ET_LOAD_STORE\<close> with this address and changes nothing.  At any
  other address it returns, the word is what a load reads back there, every
  other byte of the RAM keeps its value, and a watchpoint is reported exactly
  when one for writes covers the four bytes.
\<close>

theorem store_word_effect:
  assumes "cache_coherent romdc c"
  shows "if \<not> CHECK_ADDR_RAM_WORD a c then emitStore_WORD w a c = Some (Store_exception a, c)
    else \<exists>e c'. emitStore_WORD w a c = Some (Stored e (hitWatchpoint WRITE a 4 c), c')
      \<and> loadRamWord c' a = Some w
      \<and> (\<forall>b. isValidRamAddress c b \<and> (unat b < unat a \<or> unat a + 4 \<le> unat b) \<longrightarrow>
           loadRamByte c' b = loadRamByte c b)"
proof (cases "CHECK_ADDR_RAM_WORD a c")
  case True
  note wf = coherentD(1) [OF assms]
  have v: "isValidRamAddress c a"
    using True by (simp add: CHECK_ADDR_RAM_WORD_def)
  obtain e c' m where c': "emitStore_WORD w a c = Some (Stored e (hitWatchpoint WRITE a 4 c), c')"
    "memory c' = m" "array_write (memory c) (ram_offset c a) (write32le True w) = Some m" "same_config c c'"
    using emitStore_WORD_effect [OF assms True] .
  note idx = index_eqs(2) [OF c'(4)]
  have "loadRamWord c' a = Some w"
    using array_write_read(1) [OF c'(3)] ram_index_valid(1) [OF wf v] read32le_write32le [of True True w "[]"]
    by (simp add: loadRamWord_def idx c'(2))
  moreover have "loadRamByte c' b = loadRamByte c b"
    if "isValidRamAddress c b" "unat b < unat a \<or> unat a + 4 \<le> unat b" for b
    using array_write_read(2) [OF c'(3), of "ram_offset c b"] that
      ram_index_valid [OF wf v] ram_index_valid [OF wf that(1)]
    by (auto simp: loadRamByte_def idx c'(2))
  ultimately show ?thesis
    using c'(1) True by auto
qed (simp add: emitStore_WORD_def)

theorem store_word_effect_witness:
  "(\<exists>e c'. emitStore_WORD 7 4 (demo_core_of demo_add) = Some (Stored e (hitWatchpoint WRITE 4 4 (demo_core_of demo_add)), c')
      \<and> loadRamWord c' 4 = Some 7)
   \<and> emitStore_WORD 7 5 (demo_core_of demo_add) = Some (Store_exception 5, (demo_core_of demo_add))"
proof -
  have "isValidRamAddress (demo_core_of demo_add) 4"
    using demo_core_facts(9,10) [of demo_add] by (simp add: isValidRamAddress_def)
  then have "CHECK_ADDR_RAM_WORD 4 (demo_core_of demo_add)" "\<not> CHECK_ADDR_RAM_WORD 5 (demo_core_of demo_add)"
    by (simp_all add: CHECK_ADDR_RAM_WORD_def)
  then show ?thesis
    using store_word_effect [OF demo_core_facts(1), of 4 demo_add 7]
      store_word_effect [OF demo_core_facts(1), of 5 demo_add 7] by auto
qed

text \<open>
  C32. What \<open>readMemory\<close> lets a debugger read.  For a non-empty read it
  returns the bytes when the range starts in RAM and ends strictly below the
  last byte of it, and fails otherwise; so the last byte of the RAM, which
  loads can read, is never returned.
\<close>

theorem readMemory_window:
  assumes "core_wf c" "0 < n" "n < 2 ^ 32"
  shows "readMemory a (of_nat n) c =
    (if unat (getRamBase c) \<le> unat a \<and> unat a + n < unat (getRamBase c) + 2 ^ ramSizeLog2 c
     then Some (Some (take n (drop (unat a - unat (getRamBase c)) (memory c))))
     else Some None)"
proof -
  note wf = wf_sizes [OF assms(1)]
  have l: "unat (of_nat n :: u64) = n" "(of_nat n :: u64) \<noteq> 0"
    using assms(2,3) by (simp_all add: unat_of_nat take_bit_nat_eq_self word_unat_eq_iff)
  have "unat (ucast a :: u64) + unat (of_nat n :: u64) < 2 ^ 64"
    using unat_less_32 [of a] assms(3) by (simp add: unat_ucast64 l)
  then have u: "unat (ucast a + of_nat n :: u64) = unat a + n"
    by (subst unat_add_lem [THEN iffD1]) (simp_all add: unat_ucast64 l)
  have e: "unat (getRamBase c + getRamSize c) = unat (getRamBase c) + 2 ^ ramSizeLog2 c"
    using wf by (subst unat_add_lem [THEN iffD1]) simp_all
  have len: "length (memory c) = 2 ^ ramSizeLog2 c"
    using assms(1) by (simp add: core_wf_def)
  show ?thesis
    using l len
    by (auto simp: readMemory_def Let_def word_less_nat_alt word_le_nat_alt u e unat_ucast64 ram_index_def array_slice_def)
qed

theorem readMemory_window_witness:
  "readMemory 4 3 (demo_core_of demo_add) \<noteq> Some None \<and> readMemory 7 1 (demo_core_of demo_add) = Some None"
  using readMemory_window [OF demo_core_facts(2) [of demo_add], of 3 4]
    readMemory_window [OF demo_core_facts(2) [of demo_add], of 1 7]
    demo_core_facts(9,10) [of demo_add]
  by (simp add: getRamBase_def getRamSize_def)

text \<open>
  C16. The interpreter jumps to a resolved branch target without a check.  This
  is safe: when decoding at an address gives a branch or a call whose target is
  resolved at decode time and which is not replaced by its illegal variant,
  the target is a pc inside the cache that holds the address.
\<close>

theorem branch_target_valid:
  assumes "decode_at c romdc address dual ops0 = Some d" "length ops0 = 6" "branch_target d = Some t"
  shows "\<exists>dc. getDecodeCacheContaining c romdc address = Some dc \<and> isValidPc dc t"
proof -
  from assms(1) obtain e where e: "instructionTransform c romdc address dual e = Some d"
    "if isBreakpointAddress c address then e = (Fpseudo BREAKPOINT, ops0)
     else \<exists>h. fetch c address = Some h \<and> decode_halves (nodeType c) h (Fpseudo DECODE, ops0) = Some e"
    by (auto simp: decode_at_eq_Some)
  show ?thesis
    using instructionTransform_target [OF e(1) decode_at_length [OF e(2) assms(2)] assms(3)] .
qed

lemma demo_branch:
  "instructionDecode 0x7300 0 True XS1_L (Fpseudo DECODE, [0, 0, 0, 0, 0, 0]) = Some (Fu6 BRFU_u6, [0, 0, 0, 0, 0, 0])"
  by code_simp

theorem branch_target_valid_witness:
  "\<exists>d dc. decode_at (demo_core_of 0x7300) demo_rom (fromRamPc (demo_core_of 0x7300) 0) False [0, 0, 0, 0, 0, 0] = Some d
    \<and> branch_target d = Some 1
    \<and> getDecodeCacheContaining (demo_core_of 0x7300) demo_rom (fromRamPc (demo_core_of 0x7300) 0) = Some dc
    \<and> isValidPc dc 1"
proof -
  note f = demo_core_facts [where h = "0x7300"]
  have v: "isValidRamAddress (demo_core_of 0x7300) (fromRamPc (demo_core_of 0x7300) 0)"
    using entry_addr_valid(1) [OF f(2), of 0] by (simp add: f(3) entry_addr_def)
  have "instructionTransform (demo_core_of 0x7300) demo_rom (fromRamPc (demo_core_of 0x7300) 0) False
      (Fu6 BRFU_u6, [0, 0, 0, 0, 0, 0]) = Some (Fu6 BRFU_u6, [1, 0, 0, 0, 0, 0])"
    using v by (simp add: instructionTransform_def getDecodeCacheContaining_def transform_u6_def isValidPc_def
        toPc_def fromRamPc_def fromPc_def f(8))
  then have d: "decode_at (demo_core_of 0x7300) demo_rom (fromRamPc (demo_core_of 0x7300) 0) False [0, 0, 0, 0, 0, 0]
      = Some (Fu6 BRFU_u6, [1, 0, 0, 0, 0, 0])"
    by (intro demo_decode [OF demo_branch]) simp_all
  moreover have t: "branch_target (Fu6 BRFU_u6, [1, 0, 0, 0, 0, 0]) = Some 1"
    by (simp add: branch_target_def)
  ultimately show ?thesis
    using branch_target_valid [OF d _ t] by auto
qed

end
