(* ===== verification/ExecSafe.thy ===== *)
theory ExecSafe
  imports Exec MemorySystem
begin

text \<open>
  Executing an instruction keeps the machine consistent.  A thread that runs
  a decoded entry of the RAM cache leaves the cache coherent with memory, the
  register files at their size and the program counter inside the cache of
  the memory it executes from (at most one entry behind its end, where the
  cache holds the instruction that raises \<open>ET_ILLEGAL_PC\<close>).
\<close>

subsection \<open>Frames\<close>

definition thread_shape :: "('s, 'r) thread \<Rightarrow> bool" where
  "thread_shape t \<longleftrightarrow> length (regs t) = NUM_REGISTERS \<and> length (regsBuffer t) = NUM_REGISTERS"

text \<open>The thread executes from the RAM of its core, or from the ROM.\<close>

definition in_ram :: "core \<Rightarrow> ('s, 'r) thread \<Rightarrow> bool" where
  "in_ram c t \<longleftrightarrow> \<not> dv_rom (decodeCache t)
     \<and> dv_size (decodeCache t) = dc_size (ramDecodeCache c)
     \<and> dv_base (decodeCache t) = dc_base (ramDecodeCache c)"

definition in_rom :: "dcache \<Rightarrow> ('s, 'r) thread \<Rightarrow> bool" where
  "in_rom romdc t \<longleftrightarrow> dv_rom (decodeCache t)
     \<and> dv_size (decodeCache t) = dc_size romdc \<and> dv_base (decodeCache t) = dc_base romdc"

text \<open>The ROM cache covers the ROM that the core sees.\<close>

definition rom_ok :: "core \<Rightarrow> dcache \<Rightarrow> bool" where
  "rom_ok c romdc \<longleftrightarrow> dc_base romdc = romBase c \<and> romSize c \<le> dc_size romdc"

lemma in_ram_config: "same_config c c' \<Longrightarrow> in_ram c' t = in_ram c t"
  by (simp add: in_ram_def same_config_def)

lemma same_config_refl [simp]: "same_config c c"
  by (simp add: same_config_def)

text \<open>
  Frames of instructions that run in RAM.  The core starts out as \<open>c\<close>; what
  an instruction changes of it is not part of its configuration.
\<close>

definition good_base :: "core \<Rightarrow> dcache \<Rightarrow> ('s, 'r) frame \<Rightarrow> bool" where
  "good_base c romdc f \<longleftrightarrow> same_config c (fr_core f) \<and> cache_coherent romdc (fr_core f)
     \<and> fr_romdc f = romdc \<and> thread_shape (fr_thread f) \<and> in_ram c (fr_thread f)"

definition good_frame :: "core \<Rightarrow> dcache \<Rightarrow> ('s, 'r) frame \<Rightarrow> bool" where
  "good_frame c romdc f \<longleftrightarrow> good_base c romdc f \<and> unat (fr_nextPc f) \<le> ram_shorts c"

text \<open>A frame whose \<open>%write_pc\<close> went to the ROM.\<close>

definition moved_frame :: "core \<Rightarrow> dcache \<Rightarrow> ('s, 'r) frame \<Rightarrow> bool" where
  "moved_frame c romdc f \<longleftrightarrow> same_config c (fr_core f) \<and> cache_coherent romdc (fr_core f)
     \<and> fr_romdc f = romdc \<and> thread_shape (fr_thread f) \<and> in_rom romdc (fr_thread f)
     \<and> fr_nextPc f < dc_size romdc"

definition outcome_good :: "core \<Rightarrow> dcache \<Rightarrow> ('s, 'r) outcome option \<Rightarrow> bool" where
  "outcome_good c romdc r = (case r of
      None \<Rightarrow> True
    | Some (Raise et ed f) \<Rightarrow> good_frame c romdc f
    | Some (Back y f) \<Rightarrow> good_frame c romdc f \<or> (y = Force_yield \<and> moved_frame c romdc f))"

named_theorems good_intros \<open>rules for the outcomes of bodies\<close>

lemma good_frame_updates [good_intros]:
  "good_frame c romdc f \<Longrightarrow> good_frame c romdc (set_op n v f)"
  "good_frame c romdc f \<Longrightarrow> good_frame c romdc (note_watch ty a h f)"
  "good_frame c romdc f \<Longrightarrow> good_frame c romdc (f\<lparr>fr_retval := rv\<rparr>)"
  by (auto simp: good_frame_def good_base_def set_op_def note_watch_def)

lemma set_dual_good [good_intros]: "good_frame c romdc f \<Longrightarrow> good_frame c romdc (set_dual di f)"
  by (auto simp: good_frame_def good_base_def set_dual_def setDualIssue_def swap_buffers_def thread_shape_def in_ram_def Let_def)

lemma outcome_good_simps [good_intros]:
  "good_frame c romdc f \<Longrightarrow> outcome_good c romdc (finish f)"
  "good_frame c romdc f \<Longrightarrow> outcome_good c romdc (yield f)"
  "good_frame c romdc f \<Longrightarrow> outcome_good c romdc (raise et ed f)"
  "outcome_good c romdc None"
  by (simp_all add: outcome_good_def finish_def yield_def raise_def)

lemma assign_good [good_intros]:
  "good_frame c romdc f \<Longrightarrow> outcome_good c romdc (assign n v f)"
  "good_frame c romdc f \<Longrightarrow> outcome_good c romdc (assign2 n m p f)"
  "good_frame c romdc f \<Longrightarrow> outcome_good c romdc (assign_arith r f)"
  unfolding assign_def assign2_def assign_arith_def
  by (auto intro!: good_intros split: option.split simp: assign_def)

lemma load_good [good_intros]:
  assumes "good_frame c romdc f" "\<And>v f'. good_frame c romdc f' \<Longrightarrow> outcome_good c romdc (k v f')"
  shows "outcome_good c romdc (load_word a k f)" "outcome_good c romdc (load_short a k f)"
    "outcome_good c romdc (load_byte a k f)"
  unfolding load_word_def load_short_def load_byte_def Let_def
  by (auto intro!: assms good_intros split: bind_splits)

lemma after_store_good:
  assumes "good_frame c romdc f" "\<And>f'. good_frame c romdc f' \<Longrightarrow> outcome_good c romdc (k f')"
    "cache_coherent romdc c'" "same_config (fr_core f) c'"
  shows "outcome_good c romdc (after_store a k f (r, c'))"
proof -
  have "good_frame c romdc (f\<lparr>fr_core := c'\<rparr>)"
    using assms by (auto simp: good_frame_def good_base_def intro: same_config_trans)
  then show ?thesis
    using assms(1) by (auto simp: after_store_def Let_def intro!: assms(2) good_intros split: store_outcome.split)
qed

lemma store_good [good_intros]:
  assumes f: "good_frame c romdc f" and k: "\<And>f'. good_frame c romdc f' \<Longrightarrow> outcome_good c romdc (k f')"
  shows "outcome_good c romdc (store_word v a k f)" "outcome_good c romdc (store_short v a k f)"
    "outcome_good c romdc (store_byte v a k f)"
proof -
  have coh: "cache_coherent romdc (fr_core f)"
    using f by (simp add: good_frame_def good_base_def)
  show "outcome_good c romdc (store_word v a k f)"
    using emitStore_WORD_coherent [OF coh, of v a] after_store_good [OF f k]
    by (auto simp: store_word_def)
  show "outcome_good c romdc (store_short v a k f)"
    using emitStore_SHORT_coherent [OF coh, of "ucast v" a] after_store_good [OF f k]
    by (auto simp: store_short_def)
  show "outcome_good c romdc (store_byte v a k f)"
    using emitStore_BYTE_coherent [OF coh, of "ucast v" a] after_store_good [OF f k]
    by (auto simp: store_byte_def)
qed

lemma CHECK_PC_iff:
  assumes "core_wf c"
  shows "CHECK_PC c p \<longleftrightarrow> unat p < ram_shorts c"
proof -
  have "unat (drop_bit (ramSizeLog2 c - 1) p) = unat p div ram_shorts c"
    by (simp only: unat_drop_bit_eq ram_shorts_def) (simp only: drop_bit_eq_div)
  then have "CHECK_PC c p \<longleftrightarrow> unat p div ram_shorts c = 0"
    unfolding CHECK_PC_def by (simp only: word_unat_eq_iff unat_0)
  then show ?thesis
    by (simp add: div_eq_0_iff ram_shorts_def)
qed

lemma branch_good [good_intros]:
  "good_frame c romdc f \<Longrightarrow> unat p \<le> ram_shorts c \<Longrightarrow> good_frame c romdc (write_pc_unchecked p f)"
  by (simp add: good_frame_def good_base_def write_pc_unchecked_def)

lemma good_frame_base: "good_frame c romdc f \<Longrightarrow> good_base c romdc f"
  by (simp add: good_frame_def)

lemma good_base_wf:
  assumes "good_base c romdc f"
  shows "core_wf (fr_core f)" "core_wf c" "ram_shorts (fr_core f) = ram_shorts c"
    "unat (dc_size (ramDecodeCache c)) = ram_shorts c"
proof -
  have cfg: "same_config c (fr_core f)" and wf: "core_wf (fr_core f)"
    using assms coherentD(1) by (auto simp: good_base_def)
  show "core_wf (fr_core f)"
    by (rule wf)
  then show wf': "core_wf c"
    using config_eqs(8) [OF cfg] by simp
  show "ram_shorts (fr_core f) = ram_shorts c"
    by (rule config_eqs(3) [OF cfg])
  show "unat (dc_size (ramDecodeCache c)) = ram_shorts c"
    using wf' wf_sizes(2) [OF wf'] by (simp add: core_wf_def)
qed

lemmas good_frame_wf = good_base_wf [OF good_frame_base]

lemma toPc_valid:
  assumes "core_wf c" "in_ram c t" "isValidRamAddress c a"
  shows "unat (thread_toPc t a) < ram_shorts c"
proof -
  have "dv_base (decodeCache t) = getRamBase c"
    using assms wf_base by (simp add: in_ram_def)
  moreover have "unat (a - getRamBase c) = ram_offset c a"
    using valid_ram_iff [OF assms(1), of a] assms(3) by (simp add: ram_offset_def unat_sub word_le_nat_alt)
  ultimately have "unat (thread_toPc t a) = ram_offset c a div 2"
    by (simp add: thread_toPc_def unat_half)
  then show ?thesis
    using ram_index_valid(2) [OF assms(1,3)] by simp
qed

lemma write_pc_good [good_intros]:
  assumes f: "good_frame c romdc f" and k: "\<And>f'. good_frame c romdc f' \<Longrightarrow> outcome_good c romdc (k f')"
    and rom: "rom_ok c romdc"
  shows "outcome_good c romdc (write_pc a k f)"
proof (cases "a AND 1 = 0 \<and> \<not> CHECK_PC (fr_core f) (thread_toPc (fr_thread f) a)")
  case False
  then show ?thesis
    using f CHECK_PC_iff [OF good_frame_wf(1) [OF f]] good_frame_wf(3) [OF f]
    by (auto simp: write_pc_def Let_def intro!: good_intros k)
next
  case True
  have cfg: "same_config c (fr_core f)"
    using f by (simp add: good_frame_def good_base_def)
  have ram: "in_ram c (fr_thread f)" "in_ram (fr_core f) (fr_thread f)"
    using f in_ram_config [OF cfg, of "fr_thread f"] by (simp_all add: good_frame_def good_base_def)
  have far: "\<not> unat (thread_toPc (fr_thread f) a) < ram_shorts c"
    using True CHECK_PC_iff [OF good_frame_wf(1) [OF f]] good_frame_wf(3) [OF f] by simp
  then have "\<not> isValidRamAddress (fr_core f) a"
    using toPc_valid [OF good_frame_wf(1) [OF f] ram(2)] good_frame_wf(3) [OF f] by auto
  moreover have "\<not> dv_contains (decodeCache (fr_thread f)) a"
    using far ram good_frame_wf(4) [OF f]
    by (simp add: dv_contains_def thread_toPc_def in_ram_def word_less_nat_alt)
  ultimately have upd: "tryUpdateDecodeCache (fr_core f) (fr_romdc f) a (fr_thread f) =
      Some (if isValidRomAddress (fr_core f) a
        then (True, fr_thread f\<lparr>decodeCache := dc_copy True (fr_romdc f)\<rparr>) else (False, fr_thread f))"
    using True by (simp add: tryUpdateDecodeCache_def)
  have "thread_toPc (fr_thread f\<lparr>decodeCache := dc_copy True romdc\<rparr>) a < dc_size romdc"
    if "isValidRomAddress (fr_core f) a"
  proof -
    have "unat (a - romBase c) < unat (dc_size romdc)"
      using that rom cfg
      by (auto simp: isValidRomAddress_def rom_ok_def same_config_def word_less_nat_alt word_le_nat_alt)
    then show ?thesis
      using rom by (simp add: thread_toPc_def dc_copy_def rom_ok_def word_less_nat_alt unat_half)
  qed
  then have "isValidRomAddress (fr_core f) a \<Longrightarrow> moved_frame c romdc
      (write_pc_unchecked (thread_toPc (fr_thread f\<lparr>decodeCache := dc_copy True romdc\<rparr>) a)
        (f\<lparr>fr_thread := fr_thread f\<lparr>decodeCache := dc_copy True romdc\<rparr>\<rparr>))"
    using f by (simp add: moved_frame_def good_frame_def good_base_def write_pc_unchecked_def in_rom_def dc_copy_def thread_shape_def)
  then show ?thesis
    using True f upd by (auto simp: write_pc_def Let_def outcome_good_def raise_def good_frame_def good_base_def)
qed

subsection \<open>Bodies\<close>

lemma LDD_STD_good [good_intros]:
  "good_frame c romdc f \<Longrightarrow> outcome_good c romdc (LDD_body f)"
  "good_frame c romdc f \<Longrightarrow> outcome_good c romdc (STD_body f)"
  by (auto simp: LDD_body_def STD_body_def Let_def intro!: good_intros)

lemma stack_good [good_intros]:
  assumes "good_frame c romdc f" "rom_ok c romdc"
  shows "outcome_good c romdc (enter_body di f)" "outcome_good c romdc (RETSP_body f)"
    "outcome_good c romdc (RETSP_xs2a_body f)" "outcome_good c romdc (KRET_body f)"
  using assms
  by (auto simp: enter_body_def RETSP_body_def RETSP_xs2a_body_def KRET_body_def Let_def intro!: good_intros)

lemma bodies_good:
  assumes f: "good_frame c romdc f"
  shows "outcome_good c romdc (body_3r i1 f)" "outcome_good c romdc (body_2rus i2 f)"
    "outcome_good c romdc (body_l3r i3 f)" "outcome_good c romdc (body_l2rus i4 f)"
    "outcome_good c romdc (body_l4r i5 f)" "outcome_good c romdc (body_l3rus i6 f)"
    "outcome_good c romdc (body_l5r i7 f)" "outcome_good c romdc (body_l4rus i8 f)"
    "outcome_good c romdc (body_l6r i9 f)" "outcome_good c romdc (body_2r i10 f)"
    "outcome_good c romdc (body_rus i11 f)" "outcome_good c romdc (body_l2r i12 f)"
    "outcome_good c romdc (body_pseudo i13 f)"
  using f
  by - ((cases i1; auto simp: body_3r_def intro!: good_intros),
    (cases i2; auto simp: body_2rus_def intro!: good_intros),
    (cases i3; auto simp: body_l3r_def intro!: good_intros),
    (cases i4; auto simp: body_l2rus_def Let_def intro!: good_intros),
    (cases i5; auto simp: body_l4r_def intro!: good_intros),
    (cases i6; auto simp: body_l3rus_def intro!: good_intros),
    (cases i7; auto simp: body_l5r_def intro!: good_intros split: option.split),
    (cases i8; auto simp: body_l4rus_def intro!: good_intros split: bind_splits),
    (cases i9; auto simp: body_l6r_def intro!: good_intros),
    (cases i10; auto simp: body_2r_def intro!: good_intros),
    (cases i11; auto simp: body_rus_def intro!: good_intros),
    (cases i12; auto simp: body_l2r_def intro!: good_intros split: option.split),
    (cases i13; auto simp: body_pseudo_def intro!: good_intros))

lemma body_1r_0r_good:
  assumes "good_frame c romdc f" "rom_ok c romdc"
  shows "outcome_good c romdc (body_1r i f)" "outcome_good c romdc (body_0r j f)"
  using assms
  by - ((cases i; auto simp: body_1r_def intro!: good_intros),
    (cases j; auto simp: body_0r_def intro!: good_intros))

lemma branch_if_good:
  assumes "good_frame c romdc f" "unat (op 1 f) \<le> ram_shorts c"
    "\<And>f'. good_frame c romdc f' \<Longrightarrow> outcome_good c romdc (k f')"
  shows "outcome_good c romdc (branch_if b k f)"
  using assms by (auto simp: branch_if_def intro!: good_intros)

lemma illegal_if_good [good_intros]: "good_frame c romdc f \<Longrightarrow> outcome_good c romdc (illegal_if b f)"
  by (auto simp: illegal_if_def intro!: good_intros)

lemma body_ru6_good:
  assumes "good_frame c romdc f"
    "i \<in> {BRFT_ru6, BRBT_ru6, BRFF_ru6, BRBF_ru6} \<Longrightarrow> unat (op 1 f) \<le> ram_shorts c"
  shows "outcome_good c romdc (body_ru6 i f)"
  using assms by (cases i) (auto simp: body_ru6_def intro!: good_intros branch_if_good)

lemma body_u6_good:
  assumes "good_frame c romdc f" "rom_ok c romdc"
    "i \<in> {BRFU_u6, BRBU_u6} \<Longrightarrow> unat (op 0 f) \<le> ram_shorts c"
  shows "outcome_good c romdc (body_u6 i f)"
  using assms by (cases i) (auto simp: body_u6_def Let_def intro!: good_intros)

lemma body_u10_good:
  assumes "good_frame c romdc f" "rom_ok c romdc"
    "i \<in> {BLRF_u10, BLRB_u10} \<Longrightarrow> unat (op 0 f) \<le> ram_shorts c"
  shows "outcome_good c romdc (body_u10 i f)"
  using assms by (cases i) (auto simp: body_u10_def intro!: good_intros)

subsection \<open>Operands\<close>

lemma read_all_nth:
  assumes "read_all g xs = Some ys"
  shows "length ys = length xs" "n < length xs \<Longrightarrow> g (xs ! n) = Some (ys ! n)"
proof -
  have "length ys = length xs \<and> (\<forall>n < length xs. g (xs ! n) = Some (ys ! n))"
    using assms
    by (induction xs arbitrary: ys) (auto simp: bind_eq_Some_conv less_Suc_eq_0_disj)
  then show "length ys = length xs" "n < length xs \<Longrightarrow> g (xs ! n) = Some (ys ! n)"
    by auto
qed

lemma read_operands_imm:
  assumes "read_operands opc flds t = Some ops" "n < length (explicit_ops opc)" "n < length flds"
    "explicit_ops opc ! n = Op_imm"
  shows "ops ! n = flds ! n"
proof -
  from assms(1) obtain es ws where r:
    "read_all (\<lambda>(ty, v). read_explicit ty v t) (zip (explicit_ops opc) flds) = Some es" "ops = es @ ws"
    by (auto simp: read_operands_def bind_eq_Some_conv)
  then show ?thesis
    using read_all_nth(1) [OF r(1)] read_all_nth(2) [OF r(1), of n] assms(2-4) by (simp add: nth_append read_explicit_def)
qed

lemma short_branches:
  "short_ru6 i \<in> {BRFT_ru6, BRBT_ru6, BRFF_ru6, BRBF_ru6} \<longleftrightarrow> i \<in> {BRFT_lru6, BRBT_lru6, BRFF_lru6, BRBF_lru6}"
  "short_u6 j \<in> {BRFU_u6, BRBU_u6} \<longleftrightarrow> j \<in> {BRFU_lu6, BRBU_lu6}"
  "short_u10 k \<in> {BLRF_u10, BLRB_u10} \<longleftrightarrow> k \<in> {BLRF_lu10, BLRB_lu10}"
  by ((cases i; simp add: short_ru6_def), (cases j; simp add: short_u6_def), (cases k; simp add: short_u10_def))

lemma inst_body_good:
  assumes "good_frame c romdc f" "rom_ok c romdc" "length flds = 6"
    and ops: "read_operands opc flds t = Some (fr_op f)"
    and target: "\<And>p. branch_target (opc, flds) = Some p \<Longrightarrow> unat p \<le> ram_shorts c"
  shows "outcome_good c romdc (inst_body opc f)"
proof (cases opc)
  case (Fru6 i)
  have "unat (op 1 f) \<le> ram_shorts c" if "i \<in> {BRFT_ru6, BRBT_ru6, BRFF_ru6, BRBF_ru6}"
    using that target read_operands_imm [OF ops, of 1] assms(3) Fru6
    by (auto simp: op_def branch_target_def explicit_ops_def ops_ru6_def)
  from body_ru6_good [OF assms(1) this] Fru6 show ?thesis
    by (simp add: inst_body_def)
next
  case (Flru6 i)
  have "unat (op 1 f) \<le> ram_shorts c" if "short_ru6 i \<in> {BRFT_ru6, BRBT_ru6, BRFF_ru6, BRBF_ru6}"
    using that [unfolded short_branches] target read_operands_imm [OF ops, of 1] assms(3) Flru6
    by (auto simp: op_def branch_target_def explicit_ops_def ops_lru6_def)
  from body_ru6_good [OF assms(1) this] Flru6 show ?thesis
    by (simp add: inst_body_def)
next
  case (Fu6 i)
  have "unat (op 0 f) \<le> ram_shorts c" if "i \<in> {BRFU_u6, BRBU_u6}"
    using that target read_operands_imm [OF ops, of 0] assms(3) Fu6
    by (auto simp: op_def branch_target_def explicit_ops_def ops_u6_def)
  from body_u6_good [OF assms(1,2) this] Fu6 show ?thesis
    by (simp add: inst_body_def)
next
  case (Flu6 i)
  have "unat (op 0 f) \<le> ram_shorts c" if "short_u6 i \<in> {BRFU_u6, BRBU_u6}"
    using that [unfolded short_branches] target read_operands_imm [OF ops, of 0] assms(3) Flu6
    by (auto simp: op_def branch_target_def explicit_ops_def ops_lu6_def)
  from body_u6_good [OF assms(1,2) this] Flu6 show ?thesis
    by (simp add: inst_body_def)
next
  case (Fu10 i)
  have "unat (op 0 f) \<le> ram_shorts c" if "i \<in> {BLRF_u10, BLRB_u10}"
    using that target read_operands_imm [OF ops, of 0] assms(3) Fu10
    by (auto simp: op_def branch_target_def explicit_ops_def ops_u10_def)
  from body_u10_good [OF assms(1,2) this] Fu10 show ?thesis
    by (simp add: inst_body_def)
next
  case (Flu10 i)
  have "unat (op 0 f) \<le> ram_shorts c" if "short_u10 i \<in> {BLRF_u10, BLRB_u10}"
    using that [unfolded short_branches] target read_operands_imm [OF ops, of 0] assms(3) Flu10
    by (auto simp: op_def branch_target_def explicit_ops_def ops_lu10_def)
  from body_u10_good [OF assms(1,2) this] Flu10 show ?thesis
    by (simp add: inst_body_def)
qed (use assms in \<open>simp_all add: inst_body_def bodies_good body_1r_0r_good stack_good\<close>)

subsection \<open>The generated function\<close>

lemma instructionTransform_romdc:
  "isValidRamAddress c a \<Longrightarrow> instructionTransform c romdc' a dual d = instructionTransform c romdc a dual d"
  by (simp add: instructionTransform_def getDecodeCacheContaining_def)

lemma coherent_romdc:
  assumes "cache_coherent romdc c"
  shows "cache_coherent romdc' c"
  using assms entry_addr_valid(1) [OF coherentD(1) [OF assms]]
  by (auto simp: cache_coherent_def entry_coherent_def decode_at_def instructionTransform_romdc [of c _ romdc'  _ _ romdc])

text \<open>What holds of core and thread when an instruction has been executed.\<close>

definition state_ok :: "core \<Rightarrow> dcache \<Rightarrow> ('s, 'r) frame \<Rightarrow> bool" where
  "state_ok c romdc f \<longleftrightarrow> same_config c (fr_core f) \<and> cache_coherent romdc (fr_core f)
     \<and> dc_size (fr_romdc f) = dc_size romdc \<and> dc_base (fr_romdc f) = dc_base romdc
     \<and> thread_shape (fr_thread f)
     \<and> (in_ram c (fr_thread f) \<and> unat (pc (fr_thread f)) \<le> ram_shorts c
        \<or> in_rom romdc (fr_thread f) \<and> pc (fr_thread f) < dc_size romdc)"

lemma exception_ok:
  assumes "exception c p et ed t = Some (p', t')" "core_wf c" "in_ram c t" "thread_shape t"
  shows "unat p' < ram_shorts c" "in_ram c t'" "thread_shape t'"
proof -
  from assms(1) obtain t1 kep where e:
    "t' = t1" "decodeCache t1 = decodeCache t" "length (regs t1) = length (regs t)" "regsBuffer t1 = regsBuffer t"
    "p' = thread_toPc t1 kep" "isValidRamAddress c kep"
    unfolding exception_def Let_def
    by (auto simp: bind_eq_Some_conv set_reg_def array_set_def split: if_splits)
  then show ram: "in_ram c t'" and "thread_shape t'"
    using assms(3,4) by (simp_all add: in_ram_def thread_shape_def)
  then show "unat p' < ram_shorts c"
    using toPc_valid [OF assms(2) ram] e by simp
qed

lemma emitCycles_fields [simp]:
  "decodeCache (emitCycles opc t) = decodeCache t" "regs (emitCycles opc t) = regs t"
  "regsBuffer (emitCycles opc t) = regsBuffer t" "pc (emitCycles opc t) = pc t"
  "dualIssue (emitCycles opc t) = dualIssue t" "bufferInitialized (emitCycles opc t) = bufferInitialized t"
  "sr (emitCycles opc t) = sr t"
  by (simp_all add: emitCycles_def)

lemma mark_scheduled_fields [simp]:
  "decodeCache (mark_scheduled t) = decodeCache t" "regs (mark_scheduled t) = regs t"
  "regsBuffer (mark_scheduled t) = regsBuffer t" "pc (mark_scheduled t) = pc t"
  "dualIssue (mark_scheduled t) = dualIssue t" "bufferInitialized (mark_scheduled t) = bufferInitialized t"
  "time (mark_scheduled t) = time t"
  by (simp_all add: mark_scheduled_def)

lemma in_ram_cong: "decodeCache t' = decodeCache t \<Longrightarrow> in_ram c t' = in_ram c t"
  by (simp add: in_ram_def)

lemma in_rom_cong: "decodeCache t' = decodeCache t \<Longrightarrow> in_rom romdc t' = in_rom romdc t"
  by (simp add: in_rom_def)

lemma write_operand_ok:
  assumes "write_operand opc r v t = Some t'"
  shows "decodeCache t' = decodeCache t" "thread_shape t \<Longrightarrow> thread_shape t'"
  using assms
  by (auto simp: write_operand_def writeRegister_def set_reg_def array_set_def bind_eq_Some_conv Let_def
      thread_shape_def split: if_splits)

lemma write_operands_ok:
  assumes "write_operands opc flds n vs t = Some t'"
  shows "decodeCache t' = decodeCache t \<and> (thread_shape t \<longrightarrow> thread_shape t')"
  using assms
proof (induction vs arbitrary: n t)
  case (Cons v vs)
  then obtain t1 where t1: "write_operands opc flds (n + 1) vs t1 = Some t'"
    "decodeCache t1 = decodeCache t" "thread_shape t \<Longrightarrow> thread_shape t1"
    using write_operand_ok [of opc _ v t]
    by (auto simp: bind_eq_Some_conv simp del: One_nat_def split: option.splits)
  then show ?case
    using Cons.IH [OF t1(1)] by simp
qed simp

lemma finish_exception_ok:
  assumes "finish_exception tslice opc et ed f = Some r" "good_base c romdc f"
  shows "state_ok c romdc (frame_of r)"
proof -
  from assms(1) obtain p' t' where x: "exception (fr_core f) (pc (fr_thread f)) et ed (fr_thread f) = Some (p', t')"
    by (auto simp: finish_exception_def bind_eq_Some_conv)
  have g: "same_config c (fr_core f)" "in_ram (fr_core f) (fr_thread f)" "thread_shape (fr_thread f)"
    using assms(2) in_ram_config by (auto simp: good_base_def)
  note e = exception_ok [OF x good_base_wf(1) [OF assms(2)] g(2,3)]
  have "in_ram c t'" "unat p' \<le> ram_shorts c"
    using e g(1) good_base_wf(3) [OF assms(2)] in_ram_config [OF g(1), of t'] by simp_all
  then have "state_ok c romdc (f\<lparr>fr_thread := emitCycles opc (t'\<lparr>pc := p'\<rparr>)\<rparr>)"
    "state_ok c romdc (f\<lparr>fr_thread := mark_scheduled (emitCycles opc (t'\<lparr>pc := p'\<rparr>))\<rparr>)"
    using assms(2) e(3) by (simp_all add: state_ok_def good_base_def thread_shape_def in_ram_def)
  then show ?thesis
    using assms(1) x by (auto simp: finish_exception_def reschedule_def Let_def split: if_splits)
qed

lemma bump_frequency_ok:
  assumes "bump_frequency p dc = Some (hot, dc')"
  shows "\<exists>fs. dc' = dc\<lparr>dc_executionFrequency := fs\<rparr> \<and> length fs = length (dc_executionFrequency dc)"
  using assms by (auto simp: bump_frequency_def bind_eq_Some_conv array_set_def split: if_splits)

lemma frequency_coherent:
  assumes "cache_coherent romdc c" "length fs = length (dc_executionFrequency (ramDecodeCache c))"
  shows "cache_coherent romdc (c\<lparr>ramDecodeCache := (ramDecodeCache c)\<lparr>dc_executionFrequency := fs\<rparr>\<rparr>)"
  by (rule coherent_cong [OF assms(1)]) (simp_all add: same_config_def assms(2))

lemma runJIT_config:
  assumes "runJIT p c = Some c'"
  shows "same_config c c'"
  using assms by (auto simp: runJIT_def same_config_def bind_eq_Some_conv split: if_splits)

lemma updateExecutionFrequency_ok:
  assumes "updateExecutionFrequency p f = Some f'" "state_ok c romdc f"
  shows "state_ok c romdc f'" "fr_watch f' = fr_watch f" "fr_retval f' = fr_retval f"
proof -
  have c: "same_config c (fr_core f)" "cache_coherent romdc (fr_core f)"
    using assms(2) by (simp_all add: state_ok_def)
  show "fr_watch f' = fr_watch f" "fr_retval f' = fr_retval f"
    using assms(1)
    by (auto simp: updateExecutionFrequency_def bind_eq_Some_conv Let_def split: if_splits)
  have "\<exists>dc c'. f' = f\<lparr>fr_romdc := dc, fr_core := c'\<rparr> \<and> dc_size dc = dc_size (fr_romdc f)
      \<and> dc_base dc = dc_base (fr_romdc f) \<and> same_config (fr_core f) c' \<and> cache_coherent romdc c'"
  proof (cases "dv_rom (decodeCache (fr_thread f))")
    case True
    with assms(1) obtain hot dc c' where r: "bump_frequency p (fr_romdc f) = Some (hot, dc)"
      "f' = f\<lparr>fr_romdc := dc, fr_core := c'\<rparr>"
      "(if hot \<and> \<not> dualIssue (fr_thread f) \<and> isInRam (fr_core f) (fr_thread f) then runJIT p (fr_core f)
        else Some (fr_core f)) = Some c'"
      by (auto simp: updateExecutionFrequency_def bind_eq_Some_conv Let_def split del: if_split)
    then have "c' = fr_core f \<or> runJIT p (fr_core f) = Some c'"
      by (auto split: if_splits)
    with r(1,2) show ?thesis
      using bump_frequency_ok [of p "fr_romdc f" hot dc] runJIT_config [of p "fr_core f" c'] runJIT_coherent [OF c(2), of p] c(2)
      by (intro exI [of _ dc] exI [of _ c']) auto
  next
    case False
    with assms(1) obtain hot dc c' where b: "bump_frequency p (ramDecodeCache (fr_core f)) = Some (hot, dc)"
      and f': "f' = f\<lparr>fr_core := c'\<rparr>"
      "(if hot \<and> \<not> dualIssue (fr_thread f) \<and> isInRam (fr_core f\<lparr>ramDecodeCache := dc\<rparr>) (fr_thread f) then runJIT p (fr_core f\<lparr>ramDecodeCache := dc\<rparr>)
        else Some (fr_core f\<lparr>ramDecodeCache := dc\<rparr>)) = Some c'"
      by (auto simp: updateExecutionFrequency_def bind_eq_Some_conv Let_def split del: if_split)
    define c1 where "c1 = fr_core f\<lparr>ramDecodeCache := dc\<rparr>"
    from bump_frequency_ok [OF b] have c1: "cache_coherent romdc c1" "same_config (fr_core f) c1"
      using frequency_coherent [OF c(2)] by (auto simp: c1_def same_config_def)
    have "c' = c1 \<or> runJIT p (c1) = Some c'"
      using f'(2) by (auto simp: c1_def split: if_splits)
    then have "cache_coherent romdc c'" "same_config (fr_core f) c'"
      using c1 runJIT_config [of p "c1" c'] runJIT_coherent [OF c1(1), of p] same_config_trans [OF c1(2)]
      by auto
    with f'(1) show ?thesis
      by (intro exI [of _ "fr_romdc f"] exI [of _ c']) simp
  qed
  with assms(2) show "state_ok c romdc f'"
    by (auto simp: state_ok_def intro: same_config_trans)
qed

lemma transform_lengths:
  "length (snd (transform_2rus dc p w a ops)) = length ops"
  "length (snd (transform_l2rus dc p w b ops)) = length ops"
  "length (snd (transform_ru6 dc p w e ops)) = length ops"
  "length (snd (transform_lru6 dc p w f ops)) = length ops"
  "length (snd (transform_u6 dc p w g ops)) = length ops"
  "length (snd (transform_lu6 dc p w h ops)) = length ops"
  "length (snd (transform_u10 dc p w i ops)) = length ops"
  "length (snd (transform_lu10 dc p w j ops)) = length ops"
  "length (snd (transform_rus dc p w k ops)) = length ops"
  by (cases a, auto simp: transform_2rus_def)
    (cases b, auto simp: transform_l2rus_def,
     cases e, auto simp: transform_ru6_def Let_def,
     cases f, auto simp: transform_lru6_def Let_def,
     cases g, auto simp: transform_u6_def Let_def,
     cases h, auto simp: transform_lu6_def Let_def,
     cases i, auto simp: transform_u10_def Let_def,
     cases j, auto simp: transform_lu10_def Let_def,
     cases k, auto simp: transform_rus_def Let_def)

lemma transform_length:
  assumes "instructionTransform c romdc address dual d = Some d'"
  shows "length (snd d') = length (snd d)"
  using assms
  by (cases d; cases "fst d")
    (auto simp: instructionTransform_def Let_def transform_lengths bind_eq_Some_conv)

lemma decoded_entry:
  assumes coh: "cache_coherent romdc c" and j: "j < ram_shorts c"
    and e: "fst (ram_opcode c ! j) = opc" "opc \<noteq> Fpseudo DECODE" "dc_operands (ramDecodeCache c) ! j = flds"
  shows "length flds = 6"
    and "branch_target (opc, flds) = Some p \<Longrightarrow> unat p < ram_shorts c"
    and "j + inst_size opc div 2 \<le> ram_shorts c"
proof -
  from coh j e obtain dual ops0 where d: "decode_at c romdc (entry_addr c j) dual ops0 = Some (opc, flds)"
    and ops0: "length ops0 = 6"
    by (auto simp: cache_coherent_def entry_coherent_def undecoded_def)
  then obtain d0 where d0: "instructionTransform c romdc (entry_addr c j) dual d0 = Some (opc, flds)"
    and len: "length (snd d0) = 6"
    using decode_at_length by (auto simp: decode_at_eq_Some)
  show "length flds = 6"
    using transform_length [OF d0] len by simp
  note wf = coherentD(1) [OF coh]
  show "unat p < ram_shorts c" if "branch_target (opc, flds) = Some p"
  proof -
    have "isValidPc (ramDecodeCache c) p"
      using instructionTransform_target [OF d0 len that] entry_addr_valid(1) [OF wf j]
      by (auto simp: getDecodeCacheContaining_def)
    then show ?thesis
      using wf wf_sizes(2) [OF wf] by (simp add: isValidPc_def core_wf_def word_less_nat_alt)
  qed
  show "j + inst_size opc div 2 \<le> ram_shorts c"
    using inst_size_cases [of opc] decode_at_long [OF wf j ops0 d] j by auto
qed

lemmas exec_defs =
  exec_local_def start_frame_def emitRegWritePending_def yieldBefore_def read_operands_def read_explicit_def
  explicit_ops_def ops_3r_def implicit_ops_def inst_body_def body_3r_def assign_def finish_def op_def set_op_def
  do_yield_def emitRegWriteBack_def emitCycles_def write_target_def all_ops_def write_operand_def writeRegister_def
  set_reg_def finish_normal_def mayBranch_def inst_size_def hasTimeSliceExpired_def

lemma emitRegWritePending_ok:
  "decodeCache (emitRegWritePending opc t) = decodeCache t" "pc (emitRegWritePending opc t) = pc t"
  "thread_shape t \<Longrightarrow> thread_shape (emitRegWritePending opc t)"
  by (auto simp: emitRegWritePending_def swap_buffers_def thread_shape_def)

lemma emitRegWriteBack_ok:
  assumes "emitRegWriteBack opc f = Some f'" "good_frame c romdc f \<or> moved_frame c romdc f"
  shows "state_ok c romdc f'"
proof -
  from assms(1) obtain t where t: "write_operands opc (fr_fields f) 0 (fr_op f) (fr_thread f) = Some t"
    and f': "f' = f\<lparr>fr_thread := t\<lparr>pc := fr_nextPc f\<rparr>\<rparr>"
    by (auto simp: emitRegWriteBack_def bind_eq_Some_conv)
  from write_operands_ok [OF t] assms(2) show ?thesis
    by (auto simp: f' state_ok_def good_frame_def good_base_def moved_frame_def thread_shape_def in_ram_def in_rom_def)
qed

lemma frame_thread_good:
  assumes "good_frame c romdc f \<or> moved_frame c romdc f"
    and "decodeCache t' = decodeCache (fr_thread f)" "thread_shape (fr_thread f) \<Longrightarrow> thread_shape t'"
  shows "good_frame c romdc (f\<lparr>fr_thread := t'\<rparr>) \<or> moved_frame c romdc (f\<lparr>fr_thread := t'\<rparr>)"
  using assms by (auto simp: good_frame_def good_base_def moved_frame_def in_ram_def in_rom_def)

lemma do_yield_good:
  assumes "do_yield tslice y f = (rs, f')" "good_frame c romdc f \<or> moved_frame c romdc f"
  shows "good_frame c romdc f' \<or> moved_frame c romdc f'"
proof -
  have "f' = f \<or> f' = f\<lparr>fr_thread := mark_scheduled (fr_thread f), fr_retval := END_THREAD_EXECUTION\<rparr>"
    using assms(1) by (auto simp: do_yield_def reschedule_def split: if_splits)
  moreover have "thread_shape (mark_scheduled (fr_thread f)) = thread_shape (fr_thread f)"
    by (simp add: thread_shape_def)
  ultimately show ?thesis
    using assms(2) by (auto simp: good_frame_def good_base_def moved_frame_def in_ram_def in_rom_def)
qed

lemma finish_normal_ok:
  assumes "finish_normal tracing opc rs f = Some r" "state_ok c romdc f"
  shows "state_ok c romdc (frame_of r)"
proof -
  from assms(1) obtain f' where f': "(if \<not> tracing \<and> mayBranch opc
      then updateExecutionFrequency (pc (fr_thread f)) f else Some f) = Some f'" "frame_of r = f'"
    unfolding finish_normal_def by (auto simp: bind_eq_Some_conv split: option.splits simp del: not_None_eq split del: if_split)
  then show ?thesis
    using updateExecutionFrequency_ok(1) [of "pc (fr_thread f)" f f' c romdc] assms(2)
    by (cases "\<not> tracing \<and> mayBranch opc") simp_all
qed

lemma outcome_ok:
  assumes fin: "(case out of Raise et ed f \<Rightarrow> finish_exception tslice opc et ed f
        | Back y f \<Rightarrow> (case do_yield tslice y f of (rs, f) \<Rightarrow>
            emitRegWriteBack opc (f\<lparr>fr_thread := emitCycles opc (fr_thread f)\<rparr>) \<bind>
            finish_normal tracing opc rs)) = Some r"
    and good: "outcome_good c romdc (Some out)"
  shows "state_ok c romdc (frame_of r)"
proof (cases out)
  case (Raise et ed g)
  then show ?thesis
    using fin good finish_exception_ok [of tslice opc et ed g r c romdc] good_frame_base [of c romdc g]
    by (simp add: outcome_good_def)
next
  case (Back y g)
  obtain rs g1 where y: "do_yield tslice y g = (rs, g1)"
    by (cases "do_yield tslice y g")
  from fin Back y obtain g2 where
    g2: "emitRegWriteBack opc (g1\<lparr>fr_thread := emitCycles opc (fr_thread g1)\<rparr>) = Some g2"
    and r: "finish_normal tracing opc rs g2 = Some r"
    by (auto simp: bind_eq_Some_conv)
  have "good_frame c romdc g \<or> moved_frame c romdc g"
    using good Back by (auto simp: outcome_good_def)
  from do_yield_good [OF y this] have g1: "good_frame c romdc g1 \<or> moved_frame c romdc g1" .
  have "good_frame c romdc (g1\<lparr>fr_thread := emitCycles opc (fr_thread g1)\<rparr>)
      \<or> moved_frame c romdc (g1\<lparr>fr_thread := emitCycles opc (fr_thread g1)\<rparr>)"
    by (rule frame_thread_good [OF g1]) (simp_all add: thread_shape_def)
  from finish_normal_ok [OF r emitRegWriteBack_ok [OF g2 this]] show ?thesis .
qed

lemma exec_local_ok:
  assumes coh: "cache_coherent romdc c" and rom: "rom_ok c romdc" and t: "thread_shape t" "in_ram c t"
    and j: "unat (pc t) < ram_shorts c"
    and e: "fst (ram_opcode c ! unat (pc t)) = opc" "opc \<noteq> Fpseudo DECODE"
      "dc_operands (ramDecodeCache c) ! unat (pc t) = flds"
    and r: "exec_local tslice tracing opc flds t c romdc = Some r"
  shows "state_ok c romdc (frame_of r)"
proof -
  define t1 where "t1 = emitRegWritePending opc t"
  note t1 = emitRegWritePending_ok [where opc = opc and t = t, folded t1_def]
  note entry = decoded_entry [OF coh j e]
  define f where "f = start_frame opc flds t1 c romdc"
  have "unat (pc t) + inst_size opc div 2 < 2 ^ 32"
    using entry(3) wf_sizes(2) [OF coherentD(1) [OF coh]] unat_less_32 [of "getRamSizeShorts c"] by linarith
  then have nxt: "unat (fr_nextPc f) \<le> ram_shorts c"
    using entry(3) inst_size_cases [of opc]
    by (auto simp: f_def start_frame_def t1(2) unat_word_ariths)
  have f: "good_frame c romdc f"
    using nxt coh t t1 by (simp add: f_def start_frame_def good_frame_def good_base_def in_ram_def)
  then have f_ops: "good_frame c romdc (f\<lparr>fr_op := ops\<rparr>)" for ops
    by (simp add: good_frame_def good_base_def)
  show ?thesis
  proof (cases "yieldBefore opc \<and> hasTimeSliceExpired tslice t1")
    case True
    with r have "frame_of r = f\<lparr>fr_thread := mark_scheduled t1\<rparr>"
      by (auto simp: exec_local_def reschedule_def t1_def f_def start_frame_def Let_def)
    then show ?thesis
      using f j t1 by (simp add: state_ok_def f_def start_frame_def good_frame_def good_base_def in_ram_def thread_shape_def)
  next
    case False
    with r obtain ops out where ops: "read_operands opc flds t1 = Some ops"
      and out: "inst_body opc (f\<lparr>fr_op := ops\<rparr>) = Some out"
      and fin: "(case out of Raise et ed f \<Rightarrow> finish_exception tslice opc et ed f
        | Back y f \<Rightarrow> (case do_yield tslice y f of (rs, f) \<Rightarrow>
            emitRegWriteBack opc (f\<lparr>fr_thread := emitCycles opc (fr_thread f)\<rparr>) \<bind>
            finish_normal tracing opc rs)) = Some r"
      by (auto simp: exec_local_def t1_def [symmetric] f_def [symmetric] bind_eq_Some_conv Let_def)
    have good: "outcome_good c romdc (Some out)"
      using inst_body_good [OF f_ops rom entry(1), of opc t1 ops] entry(2) ops by (simp add: out less_imp_le)
    show ?thesis
      by (rule outcome_ok [OF fin good])
  qed
qed



text \<open>The demonstration core after its first instruction was decoded, and a thread on it.\<close>

lemma demo_decoded:
  obtains c where "Instruction_DECODE False 0 False [0, 0, 0, 0, 0, 0] demo_rom (demo_core_of demo_add) = Some c"
    "cache_coherent demo_rom c" "same_config (demo_core_of demo_add) c"
    "ram_opcode c ! 0 = (F3r ADD_3r, False)" "dc_operands (ramDecodeCache c) ! 0 = [1, 2, 3, 0, 0, 0]"
proof -
  note f = demo_core_facts [where h = demo_add]
  have pc: "isValidRamPc (demo_core_of demo_add) 0"
    by (simp add: isValidRamPc_def isValidPc_def f(8))
  have ops: "length [0, 0, 0, 0, 0, 0 :: u32] = 6"
    by simp
  have d: "decode_at (demo_core_of demo_add) demo_rom (fromRamPc (demo_core_of demo_add) 0) False [0, 0, 0, 0, 0, 0] =
      Some (F3r ADD_3r, [1, 2, 3, 0, 0, 0])"
    by (rule demo_decode_add)
  note D = Instruction_DECODE_eq(1) [OF f(1) pc ops d, of False]
  note coh = Instruction_DECODE_coherent [OF f(1) pc ops d D]
  have len: "length (ram_opcode (demo_core_of demo_add)) = 2 + 4" "length (dc_operands (ramDecodeCache (demo_core_of demo_add))) = 2"
    using coherentD(2) [OF f(1)] by (simp_all add: marks_ok_def cache_shape_def f(3))
  show ?thesis
    by (rule that [OF D coh]) (use len in \<open>simp_all add: same_config_def\<close>)
qed

definition demo_thread :: "core \<Rightarrow> (unit, unit) thread" where
  "demo_thread c = (Thread_new c 0 False None 0 None)
     \<lparr>bufferInitialized := False, regs := [0, 0, 20, 22] @ replicate 19 0\<rparr>"


end
