(* ===== verification/ResourceID.thy ===== *)
theory ResourceID
  imports Prelude
begin

text \<open>
  Resource identifiers (\<open>Resource.h\<close>) and the tokens of channel packets
  (\<open>Token.h\<close>).  An identifier is a word: the type in the low byte, the number
  in the next byte, and above them the node of a channel end or the width of a
  port.
\<close>

subsection \<open>Types of resources\<close>

abbreviation (input) RES_TYPE_PORT :: u32 where "RES_TYPE_PORT \<equiv> 0"
abbreviation (input) RES_TYPE_TIMER :: u32 where "RES_TYPE_TIMER \<equiv> 1"
abbreviation (input) RES_TYPE_CHANEND :: u32 where "RES_TYPE_CHANEND \<equiv> 2"
abbreviation (input) RES_TYPE_SYNC :: u32 where "RES_TYPE_SYNC \<equiv> 3"
abbreviation (input) RES_TYPE_THREAD :: u32 where "RES_TYPE_THREAD \<equiv> 4"
abbreviation (input) RES_TYPE_LOCK :: u32 where "RES_TYPE_LOCK \<equiv> 5"
abbreviation (input) RES_TYPE_CLKBLK :: u32 where "RES_TYPE_CLKBLK \<equiv> 6"
abbreviation (input) RES_TYPE_CONFIG :: u32 where "RES_TYPE_CONFIG \<equiv> 12"

abbreviation (input) RES_CONFIG_PSCTRL :: u32 where "RES_CONFIG_PSCTRL \<equiv> 0xc2"
abbreviation (input) RES_CONFIG_SSCTRL :: u32 where "RES_CONFIG_SSCTRL \<equiv> 0xc3"

definition LAST_STD_RES_TYPE :: u32 where
  "LAST_STD_RES_TYPE = RES_TYPE_CLKBLK"

subsection \<open>Fields\<close>

definition res_type :: "u32 \<Rightarrow> u32" where
  "res_type i = i AND 0xff"

definition isChanend :: "u32 \<Rightarrow> bool" where
  "isChanend i \<longleftrightarrow> res_type i = RES_TYPE_CHANEND"

definition isConfig :: "u32 \<Rightarrow> bool" where
  "isConfig i \<longleftrightarrow> res_type i = RES_TYPE_CONFIG"

definition isChanendOrConfig :: "u32 \<Rightarrow> bool" where
  "isChanendOrConfig i \<longleftrightarrow> isChanend i \<or> isConfig i"

definition res_num :: "u32 \<Rightarrow> u32" where
  "res_num i = drop_bit 8 i AND 0xff"

definition res_setNum :: "u32 \<Rightarrow> u32 \<Rightarrow> u32" where
  "res_setNum v i = (i AND NOT (push_bit 8 0xff)) OR push_bit 8 (v AND 0xff)"

definition res_setNode :: "u32 \<Rightarrow> u32 \<Rightarrow> u32 option" where
  "res_setNode v i = do {
     assert_that (isChanendOrConfig i);
     Some ((i AND NOT (push_bit 16 0xffff)) OR push_bit 16 (v AND 0xffff))
   }"

definition res_node :: "u32 \<Rightarrow> u32 option" where
  "res_node i = do {
     assert_that (isChanendOrConfig i);
     Some (drop_bit 16 i AND 0xffff)
   }"

text \<open>The mask of the width is \<open>(1 << RES_PORT_WIDTH_SHIFT) - 1\<close>.\<close>

definition res_setWidth :: "u32 \<Rightarrow> u32 \<Rightarrow> u32 option" where
  "res_setWidth v i = do {
     assert_that (res_type i = RES_TYPE_PORT);
     Some ((i AND NOT (push_bit 16 0xffff)) OR push_bit 16 (v AND 0xffff))
   }"

definition res_width :: "u32 \<Rightarrow> u32 option" where
  "res_width i = do {
     assert_that (res_type i = RES_TYPE_PORT);
     Some (drop_bit 16 i AND 0xffff)
   }"

text \<open>The constructors \<open>timerID\<close>, \<open>syncID\<close>, \<open>threadID\<close>, \<open>lockID\<close> and \<open>clockBlockID\<close>, by type.\<close>

definition resID :: "u32 \<Rightarrow> u32 \<Rightarrow> u32" where
  "resID ty num = ty OR push_bit 8 num"

definition chanendID :: "u32 \<Rightarrow> u16 \<Rightarrow> u32" where
  "chanendID num node = RES_TYPE_CHANEND OR push_bit 8 num OR push_bit 16 (ucast node)"

subsection \<open>Tokens\<close>

abbreviation (input) CT_END :: u8 where "CT_END \<equiv> 1"
abbreviation (input) CT_PAUSE :: u8 where "CT_PAUSE \<equiv> 2"
abbreviation (input) CT_ACK :: u8 where "CT_ACK \<equiv> 3"
abbreviation (input) CT_NACK :: u8 where "CT_NACK \<equiv> 4"
abbreviation (input) CT_WRITEC :: u8 where "CT_WRITEC \<equiv> 0xc0"
abbreviation (input) CT_READC :: u8 where "CT_READC \<equiv> 0xc1"

datatype token = Token (getValue: u8) (isControl: bool)

definition isCtEnd :: "token \<Rightarrow> bool" where
  "isCtEnd t \<longleftrightarrow> isControl t \<and> getValue t = CT_END"

definition isCtPause :: "token \<Rightarrow> bool" where
  "isCtPause t \<longleftrightarrow> isControl t \<and> getValue t = CT_PAUSE"

subsection \<open>Facts\<close>

lemma res_masks:
  "0xff = (mask 8 :: u32)" "0xffff = (mask 16 :: u32)"
  by (simp_all add: mask_eq_exp_minus_1)

lemma small_bits: "x < 256 \<Longrightarrow> bit (x :: u32) n \<Longrightarrow> n < 8"
proof -
  assume "x < 256" "bit x n"
  moreover from \<open>x < 256\<close> have "x AND mask 8 = x"
    by (intro less_mask_eq) simp
  ultimately show "n < 8"
    by (metis bit_and_iff bit_mask_iff)
qed

lemma resID_fields:
  assumes "ty < 256" "num < 256"
  shows "res_type (resID ty num) = ty" "res_num (resID ty num) = num"
proof -
  show "res_type (resID ty num) = ty"
    unfolding resID_def res_type_def res_masks
    by (rule word32_eqI) (auto simp: bit_simps not_less dest: small_bits [OF assms(1)])
  show "res_num (resID ty num) = num"
    unfolding resID_def res_num_def res_masks
    by (rule word32_eqI) (auto simp: bit_simps dest: small_bits [OF assms(1)] small_bits [OF assms(2)])
qed

lemma chanendID_fields:
  assumes "num < 256"
  shows "res_type (chanendID num node) = RES_TYPE_CHANEND" "res_num (chanendID num node) = num"
    "res_node (chanendID num node) = Some (ucast node)"
proof -
  have two: "bit (2 :: u32) n \<Longrightarrow> n < 8" for n
    using small_bits [of 2 n] by simp
  show ty: "res_type (chanendID num node) = RES_TYPE_CHANEND"
    unfolding chanendID_def res_type_def res_masks
    by (rule word32_eqI) (auto simp: bit_simps dest: two)
  show "res_num (chanendID num node) = num"
    unfolding chanendID_def res_num_def res_masks
    by (rule word32_eqI) (auto simp: bit_simps dest: two small_bits [OF assms])
  have "bit node n \<Longrightarrow> n < 16" for n
    using not_bit16 [of n node] by (meson not_le)
  then have "drop_bit 16 (chanendID num node) AND mask 16 = ucast node"
    unfolding chanendID_def
    by (intro word32_eqI) (auto simp: bit_simps dest: two small_bits [OF assms])
  then show "res_node (chanendID num node) = Some (ucast node)"
    using ty by (simp add: res_node_def isChanendOrConfig_def isChanend_def res_masks)
qed

lemma setNum_fields:
  "res_type (res_setNum v i) = res_type i" "res_num (res_setNum v i) = v AND 0xff"
proof -
  show "res_type (res_setNum v i) = res_type i"
    unfolding res_setNum_def res_type_def res_masks
    by (rule word32_eqI) (auto simp: bit_simps)
  show "res_num (res_setNum v i) = v AND 0xff"
    unfolding res_setNum_def res_num_def res_masks
    by (rule word32_eqI) (auto simp: bit_simps)
qed

lemma setNode_fields:
  assumes "res_setNode v i = Some j"
  shows "res_type j = res_type i" "res_num j = res_num i"
proof -
  have j: "j = (i AND NOT (push_bit 16 0xffff)) OR push_bit 16 (v AND 0xffff)"
    using assms unfolding res_setNode_def bind_eq_Some_conv by blast
  show "res_type j = res_type i"
    unfolding j res_type_def res_masks by (rule word32_eqI) (auto simp: bit_simps)
  show "res_num j = res_num i"
    unfolding j res_num_def res_masks by (rule word32_eqI) (auto simp: bit_simps)
qed

end
