(* ===== verification/Node.thy ===== *)
theory Node
  imports ResourceID BitManip InstructionOpcode
begin

text \<open>
  The nodes of a network and the routing of packets between them
  (\<open>Node.cpp\<close>, \<open>ProcessorNode.cpp\<close>, \<open>PeripheralNode.cpp\<close>, and from
  \<open>Core.cpp\<close> the lookup of the destination of a channel end).  Nodes and cores
  are named by numbers; a network gives the node of a number, and for a core
  its parent node and its number within the node.

  The routing loop follows the links until the node number matches, and uses
  Brent's algorithm to notice that it runs in a circle.  It is shown to return
  on every finite network, with the answer that following the links forever
  would give.
\<close>

type_synonym addr = "nat \<times> nat"

text \<open>A \<open>ChanEndpoint\<close>: a channel end of a core, or the switch of a node.\<close>

datatype endpoint = Ep_chanend addr | Ep_switch nat

record xlink =
  xl_destNode :: "nat option"
  xl_destXLinkNum :: nat
  xl_enabled :: bool
  xl_fiveWire :: bool
  xl_network :: u8
  xl_direction :: u8
  xl_interTokenDelay :: u16
  xl_interSymbolDelay :: u16

definition XLink_new :: xlink where
  "XLink_new = \<lparr>xl_destNode = None, xl_destXLinkNum = 0, xl_enabled = False, xl_fiveWire = False,
     xl_network = 0, xl_direction = 0, xl_interTokenDelay = 0, xl_interSymbolDelay = 0\<rparr>"

text \<open>\<open>nd_cores\<close> is \<open>None\<close> for a node that is not a processor node.\<close>

record node =
  nd_type :: NodeType
  nd_xLinks :: "xlink list"
  nd_directions :: "u8 list"
  nd_nodeID :: u32
  nd_nodeNumberBits :: nat
  nd_cores :: "nat list option"

record network =
  net_node :: "nat \<Rightarrow> node"
  net_parent :: "nat \<Rightarrow> nat"
  net_coreNumber :: "nat \<Rightarrow> u32"

definition Node_new :: "NodeType \<Rightarrow> nat \<Rightarrow> nat list option \<Rightarrow> node" where
  "Node_new t numXLinks cores =
     \<lparr>nd_type = t, nd_xLinks = replicate numXLinks XLink_new, nd_directions = [], nd_nodeID = 0,
      nd_nodeNumberBits = 16, nd_cores = cores\<rparr>"

text \<open>\<open>resize\<close> of the vector keeps its prefix and fills with zero.\<close>

definition setNodeNumberBits :: "nat \<Rightarrow> node \<Rightarrow> node" where
  "setNodeNumberBits v n = n\<lparr>nd_nodeNumberBits := v,
     nd_directions := take v (nd_directions n) @ replicate (v - length (nd_directions n)) 0\<rparr>"

definition getNonNodeNumberBits :: "node \<Rightarrow> nat" where
  "getNonNodeNumberBits n = 16 - nd_nodeNumberBits n"

definition getMinimumBits :: "u32 \<Rightarrow> nat" where
  "getMinimumBits v = (if v = 0 then 0 else 32 - countLeadingZeros (v - 1))"

definition computeCoreNumberBits :: "node \<Rightarrow> node" where
  "computeCoreNumberBits n = (
     let b = getMinimumBits (of_nat (case nd_cores n of None \<Rightarrow> 0 | Some cs \<Rightarrow> length cs));
         b = (if nd_type n = XS1_G \<and> b < 8 then 8 else b) in
     setNodeNumberBits (16 - b) n)"

text \<open>\<open>ProcessorNode::finalize\<close> up to its cores and the registers of the switch.\<close>

definition ProcessorNode_finalize :: "node \<Rightarrow> node" where
  "ProcessorNode_finalize n = (
     let n = computeCoreNumberBits n in
     if nd_type n = XS1_G
     then n\<lparr>nd_directions := map of_nat [0 ..< nd_nodeNumberBits n]\<rparr> else n)"

definition PeripheralNode_new :: node where
  "PeripheralNode_new = setNodeNumberBits 0 (Node_new XS1_L 1 None)"

definition PeripheralNode_finalize :: "node \<Rightarrow> node option" where
  "PeripheralNode_finalize n = do {
     x \<leftarrow> array_get (nd_xLinks n) 0;
     xs \<leftarrow> array_set (nd_xLinks n) 0 (x\<lparr>xl_fiveWire := True, xl_enabled := True\<rparr>);
     Some (n\<lparr>nd_xLinks := xs\<rparr>)
   }"

definition connectXLink :: "nat \<Rightarrow> nat \<Rightarrow> nat \<Rightarrow> node \<Rightarrow> node option" where
  "connectXLink num destNode destNum n = do {
     x \<leftarrow> array_get (nd_xLinks n) num;
     xs \<leftarrow> array_set (nd_xLinks n) num (x\<lparr>xl_destNode := Some destNode, xl_destXLinkNum := destNum\<rparr>);
     Some (n\<lparr>nd_xLinks := xs\<rparr>)
   }"

definition getDestXLink :: "network \<Rightarrow> xlink \<Rightarrow> xlink option option" where
  "getDestXLink net x = (case xl_destNode x of
      None \<Rightarrow> Some None
    | Some n \<Rightarrow> do {
        y \<leftarrow> array_get (nd_xLinks (net_node net n)) (xl_destXLinkNum x);
        Some (Some y)
      })"

definition isConnected :: "network \<Rightarrow> xlink \<Rightarrow> bool option" where
  "isConnected net x =
     (if \<not> xl_enabled x then Some False
      else do {
        otherEnd \<leftarrow> getDestXLink net x;
        Some (case otherEnd of
            None \<Rightarrow> False
          | Some y \<Rightarrow> xl_enabled y \<and> xl_fiveWire x = xl_fiveWire y)
      })"

definition getXLinkForDirection :: "node \<Rightarrow> u8 \<Rightarrow> xlink option" where
  "getXLinkForDirection n direction = find (\<lambda>x. xl_enabled x \<and> xl_direction x = direction) (nd_xLinks n)"

definition hasMatchingNodeID :: "node \<Rightarrow> u32 \<Rightarrow> bool option" where
  "hasMatchingNodeID n i = do {
     d \<leftarrow> res_node i;
     Some (drop_bit (getNonNodeNumberBits n) d = nd_nodeID n)
   }"

subsection \<open>Routing\<close>

text \<open>One iteration of the loop of \<open>getIncomingChanendDest\<close>, up to the cycle detection.\<close>

datatype hop = Arrived | No_route | Hop nat

definition route_step :: "network \<Rightarrow> u32 \<Rightarrow> nat \<Rightarrow> hop option" where
  "route_step net i k = do {
     let n = net_node net k;
     d \<leftarrow> res_node i;
     let destNode = drop_bit (getNonNodeNumberBits n) d;
     let nodeId = drop_bit (getNonNodeNumberBits n) (nd_nodeID n);
     let diff = push_bit (getNonNodeNumberBits n) (destNode XOR nodeId);
     if diff = 0 then Some Arrived
     else do {
       direction \<leftarrow> array_get (nd_directions n) (31 - countLeadingZeros diff);
       (case getXLinkForDirection n direction of
          None \<Rightarrow> Some No_route
        | Some x \<Rightarrow> do {
            conn \<leftarrow> isConnected net x;
            Some (case xl_destNode x of
                Some m \<Rightarrow> if conn then Hop m else No_route
              | None \<Rightarrow> No_route)
          })
     }
   }"

partial_function (option) route_loop ::
  "network \<Rightarrow> u32 \<Rightarrow> nat \<Rightarrow> nat \<Rightarrow> u32 \<Rightarrow> u32 \<Rightarrow> nat option option" where
  "route_loop net i node tortoise hops leapCount = do {
     h \<leftarrow> route_step net i node;
     (case h of
        Arrived \<Rightarrow> Some (Some node)
      | No_route \<Rightarrow> Some None
      | Hop n \<Rightarrow>
          if n = tortoise then Some None
          else if hops + 1 = leapCount then route_loop net i n n (hops + 1) (push_bit 1 leapCount)
          else route_loop net i n tortoise (hops + 1) leapCount)
   }"

declare route_loop.simps [code]

text \<open>\<open>Core::getCoreID\<close> and \<open>ProcessorNode::getCoreID\<close>.\<close>

definition getCoreID :: "network \<Rightarrow> nat \<Rightarrow> u32 option" where
  "getCoreID net c = do {
     let n = net_node net (net_parent net c);
     assert_that (net_coreNumber net c \<le> makeMask (of_nat (getNonNodeNumberBits n)));
     Some (nd_nodeID n OR net_coreNumber net c)
   }"

abbreviation (input) NUM_CHANENDS :: u32 where "NUM_CHANENDS \<equiv> 32"

text \<open>
  \<open>Core::getLocalChanendDest\<close>: \<open>None\<close> in the result means that the lookup is
  not local, otherwise it is the destination or the null pointer.
\<close>

definition Core_getLocalChanendDest :: "network \<Rightarrow> nat \<Rightarrow> u32 \<Rightarrow> endpoint option option option" where
  "Core_getLocalChanendDest net c i = do {
     assert_that (isChanendOrConfig i);
     if isConfig i then
       (if res_num i = RES_CONFIG_SSCTRL then Some None
        else if res_num i = RES_CONFIG_PSCTRL then None
        else Some None)
     else do {
       d \<leftarrow> res_node i;
       coreID \<leftarrow> getCoreID net c;
       Some (if d = coreID
         then Some (if res_num i < NUM_CHANENDS then Some (Ep_chanend (c, unat (res_num i))) else None)
         else None)
     }
   }"

text \<open>The virtual \<open>getLocalChanendDest\<close> of processor and peripheral nodes.\<close>

definition Node_getLocalChanendDest :: "network \<Rightarrow> nat \<Rightarrow> u32 \<Rightarrow> endpoint option option" where
  "Node_getLocalChanendDest net k i = (
     let n = net_node net k in
     case nd_cores n of
       None \<Rightarrow> Some None
     | Some cs \<Rightarrow> do {
         d \<leftarrow> res_node i;
         let destCore = d AND makeMask (of_nat (getNonNodeNumberBits n));
         if unat destCore \<ge> length cs then Some None
         else do {
           r \<leftarrow> Core_getLocalChanendDest net (cs ! unat destCore) i;
           Some (case r of None \<Rightarrow> None | Some dest \<Rightarrow> dest)
         }
       })"

definition getIncomingChanendDest :: "network \<Rightarrow> nat \<Rightarrow> u32 \<Rightarrow> endpoint option option" where
  "getIncomingChanendDest net k i = do {
     r \<leftarrow> route_loop net i k k 0 8;
     (case r of
        None \<Rightarrow> Some None
      | Some n \<Rightarrow>
          if isConfig i \<and> res_num i = RES_CONFIG_SSCTRL then Some (Some (Ep_switch n))
          else Node_getLocalChanendDest net n i)
   }"

text \<open>
  The virtual \<open>getOutgoingChanendDest\<close>: a peripheral node hands everything
  over its link, so two of them that are connected to each other never return.
\<close>

partial_function (option) getOutgoingChanendDest :: "network \<Rightarrow> nat \<Rightarrow> u32 \<Rightarrow> endpoint option option" where
  "getOutgoingChanendDest net k i = (case nd_cores (net_node net k) of
      Some cs \<Rightarrow> getIncomingChanendDest net k i
    | None \<Rightarrow> do {
        x \<leftarrow> array_get (nd_xLinks (net_node net k)) 0;
        conn \<leftarrow> isConnected net x;
        (case xl_destNode x of
           Some m \<Rightarrow> if conn then getOutgoingChanendDest net m i else Some None
         | None \<Rightarrow> Some None)
      })"

declare getOutgoingChanendDest.simps [code]

definition getChanendDest :: "network \<Rightarrow> nat \<Rightarrow> u32 \<Rightarrow> endpoint option option" where
  "getChanendDest net c i =
     (if \<not> isChanendOrConfig i then Some None
      else do {
        r \<leftarrow> Core_getLocalChanendDest net c i;
        (case r of
           Some dest \<Rightarrow> Some dest
         | None \<Rightarrow> getOutgoingChanendDest net (net_parent net c) i)
      })"

subsection \<open>The routing loop returns\<close>

definition follows :: "network \<Rightarrow> u32 \<Rightarrow> nat \<Rightarrow> nat \<Rightarrow> bool" where
  "follows net i a b \<longleftrightarrow> route_step net i a = Some (Hop b)"

text \<open>The node after a number of hops.\<close>

fun hop_path :: "network \<Rightarrow> u32 \<Rightarrow> nat \<Rightarrow> nat \<Rightarrow> nat option" where
  "hop_path net i k 0 = Some k"
| "hop_path net i k (Suc h) = (case hop_path net i k h of
      None \<Rightarrow> None
    | Some a \<Rightarrow> (case route_step net i a of Some (Hop b) \<Rightarrow> Some b | _ \<Rightarrow> None))"

lemma hop_path_step:
  "hop_path net i k h = Some a \<Longrightarrow> follows net i a b \<Longrightarrow> hop_path net i k (Suc h) = Some b"
  by (simp add: follows_def)

lemma hop_path_prefix: "hop_path net i k (p + d) = Some b \<Longrightarrow> \<exists>a. hop_path net i k p = Some a"
  by (induction d arbitrary: b) (auto split: option.splits)

lemma hop_path_follows:
  assumes "hop_path net i k p = Some a" "hop_path net i k (p + d) = Some b"
  shows "(follows net i)\<^sup>*\<^sup>* a b" "0 < d \<Longrightarrow> (follows net i)\<^sup>+\<^sup>+ a b"
proof -
  have "(follows net i)\<^sup>*\<^sup>* a b \<and> (0 < d \<longrightarrow> (follows net i)\<^sup>+\<^sup>+ a b)"
    using assms(2)
  proof (induction d arbitrary: b)
    case (Suc d)
    then obtain c where c: "hop_path net i k (p + d) = Some c" "follows net i c b"
      by (auto simp: follows_def split: option.splits hop.splits)
    with Suc.IH [OF c(1)] show ?case
      by (auto intro: rtranclp.intros rtranclp_into_tranclp1)
  qed (use assms(1) in simp)
  then show "(follows net i)\<^sup>*\<^sup>* a b" "0 < d \<Longrightarrow> (follows net i)\<^sup>+\<^sup>+ a b"
    by simp_all
qed

lemma hop_path_repeat:
  assumes "hop_path net i k a = hop_path net i k b"
  shows "hop_path net i k (a + d) = hop_path net i k (b + d)"
  using assms by (induction d) simp_all

lemma hop_path_closed:
  assumes "k \<in> S" "\<forall>a \<in> S. \<forall>b. follows net i a b \<longrightarrow> b \<in> S" "hop_path net i k h = Some a"
  shows "a \<in> S"
  using assms(3)
proof (induction h arbitrary: a)
  case (Suc h)
  then obtain b where "hop_path net i k h = Some b" "follows net i b a"
    by (auto simp: follows_def split: option.splits hop.splits)
  with Suc.IH assms(2) show ?case
    by blast
qed (use assms(1) in simp)

text \<open>
  On a finite network a path that goes on for long enough runs in a circle: from
  any point on that is as far out as there are nodes, it comes back after at
  most as many hops.
\<close>

lemma hop_path_circle:
  assumes S: "finite S" "k \<in> S" "\<forall>a \<in> S. \<forall>b. follows net i a b \<longrightarrow> b \<in> S"
    and p: "card S \<le> p" "hop_path net i k p \<noteq> None"
  shows "\<exists>d. 0 < d \<and> d \<le> card S \<and> hop_path net i k (p + d) = hop_path net i k p"
proof -
  define x where "x h = the (hop_path net i k h)" for h
  have x: "hop_path net i k h = Some (x h)" if "h \<le> p" for h
    using hop_path_prefix [of net i k h "p - h"] p(2) that by (auto simp: x_def)
  have "x h \<in> S" if "h \<le> card S" for h
  proof (rule hop_path_closed [OF S(2,3), where h = h])
    show "hop_path net i k h = Some (x h)"
      using that p(1) by (intro x) simp
  qed
  then have "x ` {..card S} \<subseteq> S"
    by auto
  then have "\<not> inj_on x {..card S}"
    using card_inj_on_le [of x "{..card S}" S] S(1) by auto
  then obtain a b where ab: "a < b" "b \<le> card S" "x a = x b"
    by (auto simp: inj_on_def) (metis nat_neq_iff)
  then have "hop_path net i k a = hop_path net i k b"
    using p(1) by (simp add: x)
  from hop_path_repeat [OF this, of "p - a"] have "hop_path net i k p = hop_path net i k (p + (b - a))"
    using ab p(1) by (simp add: add.commute)
  with ab show ?thesis
    by (intro exI [of _ "b - a"]) auto
qed

text \<open>The state of the loop after \<open>h\<close> hops: the tortoise stands where the path was after \<open>p\<close> hops.\<close>

definition brent_inv :: "network \<Rightarrow> u32 \<Rightarrow> nat \<Rightarrow> nat \<Rightarrow> nat \<Rightarrow> nat \<Rightarrow> nat \<Rightarrow> nat \<Rightarrow> bool" where
  "brent_inv net i k N node tortoise h l \<longleftrightarrow> (\<exists>p.
     hop_path net i k h = Some node \<and> hop_path net i k p = Some tortoise \<and> p \<le> h \<and> h < l
     \<and> (p = 0 \<and> l = 8 \<or> 8 \<le> p \<and> p \<le> max 8 (2 * N) \<and> l = 2 * p)
     \<and> (\<forall>q. p < q \<and> q \<le> h \<longrightarrow> hop_path net i k q \<noteq> Some tortoise))"

definition route_answer :: "network \<Rightarrow> u32 \<Rightarrow> nat \<Rightarrow> nat option \<Rightarrow> bool" where
  "route_answer net i k r = (case r of
      Some n \<Rightarrow> (follows net i)\<^sup>*\<^sup>* k n \<and> route_step net i n = Some Arrived
    | None \<Rightarrow> (\<exists>n. (follows net i)\<^sup>*\<^sup>* k n \<and>
        (route_step net i n = Some No_route \<or> (follows net i)\<^sup>+\<^sup>+ n n)))"

lemma brent_leap:
  assumes S: "finite S" "k \<in> S" "\<forall>a \<in> S. \<forall>b. follows net i a b \<longrightarrow> b \<in> S"
    and inv: "brent_inv net i k (card S) node tortoise h l"
    and n: "follows net i node n" "n \<noteq> tortoise"
  shows "Suc h = l \<Longrightarrow> brent_inv net i k (card S) n n (Suc h) (2 * l)"
    and "Suc h \<noteq> l \<Longrightarrow> brent_inv net i k (card S) n tortoise (Suc h) l"
proof -
  from inv obtain p where p: "hop_path net i k h = Some node" "hop_path net i k p = Some tortoise"
    "p \<le> h" "h < l" "p = 0 \<and> l = 8 \<or> 8 \<le> p \<and> p \<le> max 8 (2 * card S) \<and> l = 2 * p"
    "\<And>q. p < q \<Longrightarrow> q \<le> h \<Longrightarrow> hop_path net i k q \<noteq> Some tortoise"
    unfolding brent_inv_def by auto
  have hn: "hop_path net i k (Suc h) = Some n"
    using hop_path_step [OF p(1) n(1)] .
  have apart: "hop_path net i k q \<noteq> Some tortoise" if "p < q" "q \<le> Suc h" for q
    using p(6) [of q] that hn n(2) by (cases "q = Suc h") (auto simp del: hop_path.simps)
  show "brent_inv net i k (card S) n tortoise (Suc h) l" if "Suc h \<noteq> l"
    unfolding brent_inv_def using p hn apart that by (intro exI [of _ p]) (auto simp del: hop_path.simps)
  show "brent_inv net i k (card S) n n (Suc h) (2 * l)" if l: "Suc h = l"
  proof -
    have "p < card S" if "8 \<le> p" "l = 2 * p"
    proof (rule ccontr)
      assume "\<not> p < card S"
      then obtain d where "0 < d" "d \<le> card S" "hop_path net i k (p + d) = Some tortoise"
        using hop_path_circle [OF S, where p = p] p(2) by auto
      with apart [of "p + d"] that l \<open>\<not> p < card S\<close> show False
        by simp
    qed
    then show ?thesis
      unfolding brent_inv_def using p(5) hn l
      by (intro exI [of _ "Suc h"]) (auto simp del: hop_path.simps)
  qed
qed

lemma route_loop_returns:
  assumes S: "finite S" "k \<in> S" "\<forall>a \<in> S. \<forall>b. follows net i a b \<longrightarrow> b \<in> S"
    "\<forall>a \<in> S. route_step net i a \<noteq> None" and N: "card S < 2 ^ 29"
    and inv: "brent_inv net i k (card S) node tortoise h l"
  shows "\<exists>r. route_loop net i node tortoise (of_nat h) (of_nat l) = Some r \<and> route_answer net i k r"
  using inv
proof (induction "max 16 (4 * card S) - h" arbitrary: node tortoise h l rule: less_induct)
  case less
  from less.prems obtain p where p: "hop_path net i k h = Some node" "hop_path net i k p = Some tortoise"
    "p \<le> h" "h < l" "p = 0 \<and> l = 8 \<or> 8 \<le> p \<and> p \<le> max 8 (2 * card S) \<and> l = 2 * p"
    unfolding brent_inv_def by metis
  from p(5) have l: "l \<le> max 16 (4 * card S)"
    by linarith
  have at: "node \<in> S" "(follows net i)\<^sup>*\<^sup>* k node"
    using hop_path_closed [OF S(2,3) p(1)] hop_path_follows(1) [of net i k 0 k h node] p(1) by simp_all
  then obtain r where r: "route_step net i node = Some r"
    using S(4) by blast
  show ?case
  proof (cases r)
    case (Hop n)
    then have n: "follows net i node n"
      by (simp add: follows_def r)
    have hn: "hop_path net i k (p + (Suc h - p)) = Some n"
      using hop_path_step [OF p(1) n] p(3) by (simp del: hop_path.simps)
    have words: "(of_nat h + 1 :: u32) = of_nat (Suc h)" "push_bit 1 (of_nat l :: u32) = of_nat (2 * l)"
      by (simp_all add: push_bit_eq_mult)
    have eq: "(of_nat (Suc h) :: u32) = of_nat l \<longleftrightarrow> Suc h = l"
      using p(4) l N by (auto simp: word_of_nat_eq_iff take_bit_nat_eq_self simp del: of_nat_Suc)
    show ?thesis
    proof (cases "n = tortoise")
      case True
      then have "(follows net i)\<^sup>+\<^sup>+ tortoise tortoise" "(follows net i)\<^sup>*\<^sup>* k tortoise"
        using hop_path_follows(2) [OF p(2) hn] hop_path_follows(1) [of net i k 0 k p tortoise] p(2,3) by simp_all
      with True show ?thesis
        by (subst route_loop.simps) (auto simp: r Hop route_answer_def)
    next
      case False
      note leap = brent_leap [OF S(1-3) less.prems n False]
      have dec: "max 16 (4 * card S) - Suc h < max 16 (4 * card S) - h"
        using p(4) l by linarith
      have step: "route_loop net i node tortoise (of_nat h) (of_nat l) =
          (if Suc h = l then route_loop net i n n (of_nat (Suc h)) (of_nat (2 * l))
           else route_loop net i n tortoise (of_nat (Suc h)) (of_nat l))"
        using False unfolding words(2) [symmetric] eq [symmetric] words(1) [symmetric]
        by (subst route_loop.simps) (simp add: r Hop)
      show ?thesis
        using less.hyps [OF dec leap(1)] less.hyps [OF dec leap(2)]
        unfolding step by (cases "Suc h = l") simp_all
    qed
  qed (use at r in \<open>subst route_loop.simps; auto simp: route_answer_def\<close>)+
qed

lemma follows_unique: "follows net i a b \<Longrightarrow> follows net i a c \<Longrightarrow> b = c"
  by (simp add: follows_def)

lemma follows_confluent:
  assumes "(follows net i)\<^sup>*\<^sup>* k m" "(follows net i)\<^sup>*\<^sup>* k n" "\<nexists>b. follows net i n b"
  shows "(follows net i)\<^sup>*\<^sup>* m n"
  using assms(1)
proof (induction rule: rtranclp_induct)
  case (step a b)
  then have "a \<noteq> n"
    using assms(3) by blast
  with step.IH obtain c where "follows net i a c" "(follows net i)\<^sup>*\<^sup>* c n"
    by (metis converse_rtranclpE)
  with step.hyps follows_unique show ?case
    by blast
qed (rule assms(2))

lemma follows_circle:
  assumes "(follows net i)\<^sup>+\<^sup>+ m m" "(follows net i)\<^sup>*\<^sup>* m n"
  shows "(follows net i)\<^sup>+\<^sup>+ n m"
  using assms(2)
proof (induction rule: rtranclp_induct)
  case (step a b)
  obtain c where c: "follows net i a c" "(follows net i)\<^sup>*\<^sup>* c m"
    using step.IH by (meson tranclpD)
  then have "(follows net i)\<^sup>*\<^sup>* b m"
    using follows_unique step.hyps(2) by blast
  then show ?case
    using assms(1) by simp
qed (rule assms(1))

lemma route_answer_arrived:
  assumes "route_answer net i k r"
  shows "r = Some n \<longleftrightarrow> (follows net i)\<^sup>*\<^sup>* k n \<and> route_step net i n = Some Arrived"
proof
  show "(follows net i)\<^sup>*\<^sup>* k n \<and> route_step net i n = Some Arrived" if "r = Some n"
    using assms that by (simp add: route_answer_def)
  assume n: "(follows net i)\<^sup>*\<^sup>* k n \<and> route_step net i n = Some Arrived"
  then have last: "\<nexists>b. follows net i n b"
    by (simp add: follows_def)
  show "r = Some n"
  proof (cases r)
    case None
    then obtain m where m: "(follows net i)\<^sup>*\<^sup>* k m" "route_step net i m = Some No_route \<or> (follows net i)\<^sup>+\<^sup>+ m m"
      using assms by (auto simp: route_answer_def)
    then have mn: "(follows net i)\<^sup>*\<^sup>* m n"
      using follows_confluent n last by blast
    have "\<not> (follows net i)\<^sup>+\<^sup>+ m m"
      using follows_circle [OF _ mn] last by (meson tranclpD)
    moreover have "route_step net i m \<noteq> Some No_route"
      using mn n by (cases rule: converse_rtranclpE) (auto simp: follows_def)
    ultimately show ?thesis
      using m(2) by blast
  next
    case (Some m)
    then have m: "(follows net i)\<^sup>*\<^sup>* k m" "route_step net i m = Some Arrived"
      using assms by (simp_all add: route_answer_def)
    then have "(follows net i)\<^sup>*\<^sup>* m n"
      using follows_confluent n last by blast
    then have "m = n"
      using m(2) by (cases rule: converse_rtranclpE) (auto simp: follows_def)
    with Some show ?thesis
      by simp
  qed
qed


text \<open>Two nodes that are linked in both directions.\<close>

definition demo_node :: "u32 \<Rightarrow> nat \<Rightarrow> node" where
  "demo_node ident other = (setNodeNumberBits 16 (Node_new XS1_L 1 (Some [])))
     \<lparr>nd_nodeID := ident, nd_xLinks := [XLink_new\<lparr>xl_destNode := Some other, xl_enabled := True\<rparr>]\<rparr>"

definition demo_net :: network where
  "demo_net = \<lparr>net_node = (\<lambda>k. if k = 0 then demo_node 0 1 else demo_node 5 0),
     net_parent = id, net_coreNumber = (\<lambda>_. 0)\<rparr>"

lemma demo_net_steps:
  "route_step demo_net (chanendID 0 5) 0 = Some (Hop 1)"
  "route_step demo_net (chanendID 0 5) (Suc 0) = Some Arrived"
  "route_step demo_net (chanendID 0 6) 0 = Some (Hop 1)"
  "route_step demo_net (chanendID 0 6) (Suc 0) = Some (Hop 0)"
  by code_simp+




end
