(* ===== verification/SSwitch.thy ===== *)
theory SSwitch
  imports Node
begin

text \<open>
  The switch of a node: its control registers (\<open>SSwitchCtrlRegs.cpp\<close>) and
  the collection and parsing of the requests it receives as packets of tokens
  (\<open>SSwitch.cpp\<close>).  Answering a request involves the channel end it goes to
  and is part of the model of channel ends.
\<close>

subsection \<open>Control registers\<close>

abbreviation (input) REG_DEVICE_ID3 :: nat where "REG_DEVICE_ID3 \<equiv> 0x3"
abbreviation (input) REG_NODE_ID :: nat where "REG_NODE_ID \<equiv> 0x5"
abbreviation (input) REG_CLK_DIVIDER :: nat where "REG_CLK_DIVIDER \<equiv> 0x7"
abbreviation (input) REG_DIMENSION_DIRECTION_0 :: nat where "REG_DIMENSION_DIRECTION_0 \<equiv> 0xc"
abbreviation (input) REG_DIMENSION_DIRECTION_1 :: nat where "REG_DIMENSION_DIRECTION_1 \<equiv> 0xd"
abbreviation (input) REG_SLINK_0 :: nat where "REG_SLINK_0 \<equiv> 0x20"
abbreviation (input) REG_PLINK_0 :: nat where "REG_PLINK_0 \<equiv> 0x40"
abbreviation (input) REG_XLINK_0 :: nat where "REG_XLINK_0 \<equiv> 0x80"
abbreviation (input) REG_XSTATIC_0 :: nat where "REG_XSTATIC_0 \<equiv> 0xa0"

text \<open>\<open>REG_READ\<close> and \<open>REG_WRITE\<close> of an entry of \<open>regFlags\<close>.\<close>

record ctrl_regs =
  cr_scratchReg :: u32
  cr_clkDividerReg :: u32
  cr_regFlags :: "(bool \<times> bool) list"

text \<open>The constructor leaves the clock divider uninitialised.\<close>

definition SSwitchCtrlRegs_new :: "u32 \<Rightarrow> ctrl_regs" where
  "SSwitchCtrlRegs_new clk0 = \<lparr>cr_scratchReg = 0, cr_clkDividerReg = clk0, cr_regFlags = []\<rparr>"

definition initReg :: "nat \<Rightarrow> (bool \<times> bool) list \<Rightarrow> (bool \<times> bool) list option" where
  "initReg num flags = array_set flags num (True, True)"

fun initRegs :: "nat list \<Rightarrow> (bool \<times> bool) list \<Rightarrow> (bool \<times> bool) list option" where
  "initRegs [] flags = Some flags"
| "initRegs (r # rs) flags = do {
     flags \<leftarrow> initReg r flags;
     initRegs rs flags
   }"

definition initRegisters :: "node \<Rightarrow> ctrl_regs \<Rightarrow> ctrl_regs option" where
  "initRegisters n r = do {
     let numXLinks = min (length (nd_xLinks n)) (REG_PLINK_0 - REG_SLINK_0);
     let numRegs = REG_XSTATIC_0 + length (nd_xLinks n);
     let flags = take numRegs (cr_regFlags r) @ replicate (numRegs - length (cr_regFlags r)) (False, False);
     flags \<leftarrow> initReg REG_NODE_ID flags;
     flags \<leftarrow> (if nd_type n = XS1_G then initReg REG_DEVICE_ID3 flags else Some flags);
     let numDirectionRegisters = (nd_nodeNumberBits n + 7) div 8;
     flags \<leftarrow> (if nd_type n \<noteq> XS1_G
       then initRegs (map (\<lambda>i. REG_DIMENSION_DIRECTION_0 + i) [0 ..< numDirectionRegisters]) flags else Some flags);
     flags \<leftarrow> initRegs (concat (map (\<lambda>i. [REG_SLINK_0 + i, REG_XLINK_0 + i]) [0 ..< numXLinks])) flags;
     flags \<leftarrow> initReg REG_CLK_DIVIDER flags;
     Some (r\<lparr>cr_regFlags := flags\<rparr>)
   }"

text \<open>The mask is not shifted to the field before it clears the old bits.\<close>

definition setBitRange :: "u32 \<Rightarrow> u32 \<Rightarrow> nat \<Rightarrow> nat \<Rightarrow> u32" where
  "setBitRange x v high low = (
     let msk = makeMask (of_nat (high - low + 1)) in
     (x AND NOT msk) OR push_bit low (v AND msk))"

definition setBit_reg :: "u32 \<Rightarrow> bool \<Rightarrow> nat \<Rightarrow> u32" where
  "setBit_reg x v b = setBitRange x (of_bool v) b b"

definition getBits :: "u32 \<Rightarrow> nat \<Rightarrow> nat \<Rightarrow> u32" where
  "getBits v shift size0 = drop_bit shift v AND (push_bit size0 1 - 1)"

definition getBitRange :: "u32 \<Rightarrow> nat \<Rightarrow> nat \<Rightarrow> u32" where
  "getBitRange v high low = getBits v low (1 + high - low)"

definition getBit :: "u32 \<Rightarrow> nat \<Rightarrow> u32" where
  "getBit v shift = getBits v shift 1"

definition readXLinkStateReg :: "network \<Rightarrow> node \<Rightarrow> xlink \<Rightarrow> u32 option" where
  "readXLinkStateReg net n x = do {
     let v = 0;
     let v = (if nd_type n = XS1_G
       then setBitRange (setBitRange v (ucast (xl_interTokenDelay x)) 3 0) (ucast (xl_interSymbolDelay x)) 11 8
       else setBitRange (setBitRange v (ucast (xl_interTokenDelay x)) 10 0) (ucast (xl_interSymbolDelay x)) 21 11);
     connected \<leftarrow> isConnected net x;
     let v = (if nd_type n \<noteq> XS1_G then setBit_reg (setBit_reg v connected 25) connected 26 else v);
     let v = setBit_reg v (xl_fiveWire x) 30;
     Some (setBit_reg v (xl_enabled x) 31)
   }"

definition writeXLinkStateReg :: "node \<Rightarrow> u32 \<Rightarrow> xlink \<Rightarrow> xlink" where
  "writeXLinkStateReg n v x = (
     let x = (if nd_type n = XS1_G
       then x\<lparr>xl_interTokenDelay := ucast (getBitRange v 3 0), xl_interSymbolDelay := ucast (getBitRange v 11 8)\<rparr>
       else x\<lparr>xl_interTokenDelay := ucast (getBitRange v 10 0), xl_interSymbolDelay := ucast (getBitRange v 21 11)\<rparr>)
     in x\<lparr>xl_fiveWire := getBit v 30 \<noteq> 0, xl_enabled := getBit v 31 \<noteq> 0\<rparr>)"

definition getDirectionBits :: "node \<Rightarrow> nat" where
  "getDirectionBits n = (if nd_nodeNumberBits n = 0 then 0
     else 32 - countLeadingZeros (of_nat (nd_nodeNumberBits n) - 1))"

definition readXLinkDirectionAndNetworkReg :: "node \<Rightarrow> xlink \<Rightarrow> u32" where
  "readXLinkDirectionAndNetworkReg n x =
     setBitRange (setBitRange 0 (ucast (xl_network x)) 5 4) (ucast (xl_direction x)) (8 + getDirectionBits n + 1) 8"

definition writeXLinkDirectionAndNetworkReg :: "node \<Rightarrow> u32 \<Rightarrow> xlink \<Rightarrow> xlink" where
  "writeXLinkDirectionAndNetworkReg n v x =
     x\<lparr>xl_network := ucast (getBitRange v 5 4),
       xl_direction := ucast (getBitRange v (8 + getDirectionBits n + 1) 8)\<rparr>"

text \<open>The loops over the direction table; \<open>i\<close> counts up to \<open>last\<close>.\<close>

fun readDirections :: "u8 list \<Rightarrow> nat \<Rightarrow> nat list \<Rightarrow> u32 \<Rightarrow> u32 option" where
  "readDirections ds offset [] v = Some v"
| "readDirections ds offset (i # is) v = do {
     d \<leftarrow> array_get ds i;
     readDirections ds offset is (v OR push_bit ((i - offset) * 4) (ucast d))
   }"

definition readDirectionReg :: "node \<Rightarrow> nat \<Rightarrow> u32 option" where
  "readDirectionReg n offset =
     readDirections (nd_directions n) offset [offset ..< min (offset + 8) (nd_nodeNumberBits n)] 0"

fun writeDirections :: "nat \<Rightarrow> u32 \<Rightarrow> nat list \<Rightarrow> u8 list \<Rightarrow> u8 list option" where
  "writeDirections offset v [] ds = Some ds"
| "writeDirections offset v (i # is) ds = do {
     ds \<leftarrow> array_set ds i (ucast (drop_bit ((i - offset) * 4) v AND 0xf));
     writeDirections offset v is ds
   }"

definition writeDirectionReg :: "nat \<Rightarrow> u32 \<Rightarrow> node \<Rightarrow> node option" where
  "writeDirectionReg offset v n = do {
     ds \<leftarrow> writeDirections offset v [offset ..< min (offset + 8) (nd_nodeNumberBits n)] (nd_directions n);
     Some (n\<lparr>nd_directions := ds\<rparr>)
   }"

text \<open>
  \<open>read\<close>: the inner result is \<open>None\<close> where the method returns \<open>false\<close>.  The
  first test lets the number of registers itself pass; a \<open>SLINK\<close> register
  falls through to the failing assertion at the end.
\<close>

definition ctrl_read :: "network \<Rightarrow> node \<Rightarrow> ctrl_regs \<Rightarrow> nat \<Rightarrow> u32 option option" where
  "ctrl_read net n r num =
     (if num > length (cr_regFlags r) then Some None
      else do {
        flags \<leftarrow> array_get (cr_regFlags r) num;
        if \<not> fst flags then Some None
        else if REG_XLINK_0 \<le> num \<and> num < REG_XSTATIC_0 then do {
          x \<leftarrow> array_get (nd_xLinks n) (num - REG_XLINK_0);
          v \<leftarrow> readXLinkStateReg net n x;
          Some (Some v)
        }
        else if num = REG_DIMENSION_DIRECTION_0 \<or> num = REG_DIMENSION_DIRECTION_1 then do {
          v \<leftarrow> readDirectionReg n ((num - REG_DIMENSION_DIRECTION_0) * 8);
          Some (Some v)
        }
        else if num = REG_NODE_ID then Some (Some (nd_nodeID n))
        else if num = REG_DEVICE_ID3 then Some (Some (cr_scratchReg r))
        else None
      })"

definition writeNodeId :: "u32 \<Rightarrow> node \<Rightarrow> node" where
  "writeNodeId v n = (
     let b = getNonNodeNumberBits n in n\<lparr>nd_nodeID := push_bit b (drop_bit b v)\<rparr>)"

definition update_xlink :: "nat \<Rightarrow> (xlink \<Rightarrow> xlink) \<Rightarrow> node \<Rightarrow> node option" where
  "update_xlink k g n = do {
     x \<leftarrow> array_get (nd_xLinks n) k;
     xs \<leftarrow> array_set (nd_xLinks n) k (g x);
     Some (n\<lparr>nd_xLinks := xs\<rparr>)
   }"

definition ctrl_write :: "nat \<Rightarrow> u32 \<Rightarrow> node \<Rightarrow> ctrl_regs \<Rightarrow> (bool \<times> node \<times> ctrl_regs) option" where
  "ctrl_write num v n r =
     (if num > length (cr_regFlags r) then Some (False, n, r)
      else do {
        flags \<leftarrow> array_get (cr_regFlags r) num;
        if \<not> snd flags then Some (False, n, r)
        else if REG_SLINK_0 \<le> num \<and> num < REG_PLINK_0 then do {
          n' \<leftarrow> update_xlink (num - REG_SLINK_0) (writeXLinkDirectionAndNetworkReg n v) n;
          Some (True, n', r)
        }
        else if REG_XLINK_0 \<le> num \<and> num < REG_XSTATIC_0 then do {
          n' \<leftarrow> update_xlink (num - REG_XLINK_0) (writeXLinkStateReg n v) n;
          Some (True, n', r)
        }
        else if num = REG_DIMENSION_DIRECTION_0 \<or> num = REG_DIMENSION_DIRECTION_1 then do {
          n' \<leftarrow> writeDirectionReg ((num - REG_DIMENSION_DIRECTION_0) * 8) v n;
          Some (True, n', r)
        }
        else if num = REG_NODE_ID then Some (True, writeNodeId v n, r)
        else if num = REG_DEVICE_ID3 then Some (True, n, r\<lparr>cr_scratchReg := v\<rparr>)
        else if num = REG_CLK_DIVIDER then Some (True, n, r\<lparr>cr_clkDividerReg := v\<rparr>)
        else None
      })"

subsection \<open>Requests\<close>

record request =
  rq_write :: bool
  rq_returnNode :: u16
  rq_returnNum :: u8
  rq_regNum :: u32
  rq_data :: u32

record sswitch =
  sw_regs :: ctrl_regs
  sw_recievedTokens :: nat
  sw_buf :: "token list"
  sw_junkIncomingTokens :: bool
  sw_sendingResponse :: bool

definition writeRequestLength :: nat where "writeRequestLength = 1 + 3 + 2 + 4"
definition readRequestLength :: nat where "readRequestLength = 1 + 3 + 2"

definition SSwitch_new :: "u32 \<Rightarrow> sswitch" where
  "SSwitch_new clk0 = \<lparr>sw_regs = SSwitchCtrlRegs_new clk0, sw_recievedTokens = 0,
     sw_buf = replicate writeRequestLength (Token 0 False), sw_junkIncomingTokens = False,
     sw_sendingResponse = False\<rparr>"

definition be16 :: "u8 \<Rightarrow> u8 \<Rightarrow> u16" where
  "be16 a b = push_bit 8 (ucast a) OR ucast b"

definition be32 :: "u8 \<Rightarrow> u8 \<Rightarrow> u8 \<Rightarrow> u8 \<Rightarrow> u32" where
  "be32 a b c d = push_bit 24 (ucast a) OR push_bit 16 (ucast b) OR push_bit 8 (ucast c) OR ucast d"

definition read16_be :: "token list \<Rightarrow> nat \<Rightarrow> u16" where
  "read16_be b p = be16 (getValue (b ! p)) (getValue (b ! (p + 1)))"

definition read32_be :: "token list \<Rightarrow> nat \<Rightarrow> u32" where
  "read32_be b p =
     be32 (getValue (b ! p)) (getValue (b ! (p + 1))) (getValue (b ! (p + 2))) (getValue (b ! (p + 3)))"

definition write32_be :: "u32 \<Rightarrow> token list" where
  "write32_be v = [Token (ucast (drop_bit 24 v)) False, Token (ucast (drop_bit 16 v AND 0xff)) False,
     Token (ucast (drop_bit 8 v AND 0xff)) False, Token (ucast (v AND 0xff)) False]"

definition containsControlToken :: "token list \<Rightarrow> bool" where
  "containsControlToken ts \<longleftrightarrow> list_ex isControl ts"

definition parseRequest :: "sswitch \<Rightarrow> request option" where
  "parseRequest sw = (
     let n = sw_recievedTokens sw; b = sw_buf sw;
         parse = (\<lambda>wr expectedLength.
           if n \<noteq> expectedLength then None
           else if containsControlToken (take (expectedLength - 1) (drop 1 b)) then None
           else Some \<lparr>rq_write = wr, rq_returnNode = read16_be b 1, rq_returnNum = getValue (b ! 3),
             rq_regNum = ucast (read16_be b 4), rq_data = (if wr then read32_be b 6 else 0)\<rparr>) in
     if n = 0 then None
     else if \<not> isControl (b ! 0) then None
     else if getValue (b ! 0) = CT_READC then parse False readRequestLength
     else if getValue (b ! 0) = CT_WRITEC then parse True writeRequestLength
     else None)"

text \<open>\<open>receiveDataToken\<close>, and \<open>receiveCtrlToken\<close> of a token that does not end the packet.\<close>

definition switch_token :: "token \<Rightarrow> sswitch \<Rightarrow> sswitch option" where
  "switch_token t sw =
     (if sw_junkIncomingTokens sw then Some sw
      else if sw_recievedTokens sw = writeRequestLength then Some (sw\<lparr>sw_junkIncomingTokens := True\<rparr>)
      else do {
        b \<leftarrow> array_set (sw_buf sw) (sw_recievedTokens sw) t;
        Some (sw\<lparr>sw_buf := b, sw_recievedTokens := sw_recievedTokens sw + 1\<rparr>)
      })"

fun switch_put :: "token list \<Rightarrow> sswitch \<Rightarrow> sswitch option" where
  "switch_put [] sw = Some sw"
| "switch_put (t # ts) sw = do {
     b \<leftarrow> array_set (sw_buf sw) (sw_recievedTokens sw) t;
     switch_put ts (sw\<lparr>sw_buf := b, sw_recievedTokens := sw_recievedTokens sw + 1\<rparr>)
   }"

definition switch_tokens :: "u8 list \<Rightarrow> sswitch \<Rightarrow> sswitch option" where
  "switch_tokens vs sw =
     (if sw_junkIncomingTokens sw then Some sw
      else if sw_recievedTokens sw + length vs > writeRequestLength
      then Some (sw\<lparr>sw_junkIncomingTokens := True\<rparr>)
      else switch_put (map (\<lambda>v. Token v False) vs) sw)"

text \<open>The tokens of the response to a request.\<close>

definition response_tokens :: "bool \<Rightarrow> bool \<Rightarrow> u32 \<Rightarrow> token list" where
  "response_tokens ack wr v =
     (if ack then Token CT_ACK True # (if \<not> wr then write32_be v else []) else [Token CT_NACK True])
     @ [Token CT_END True]"

subsection \<open>Properties\<close>

lemma bit_makeMask: "k < 32 \<Longrightarrow> bit (makeMask (of_nat k)) m \<longleftrightarrow> m < k"
proof -
  assume k: "k < 32"
  then have "makeMask (of_nat k) = push_bit k 1 - 1"
    by (simp add: makeMask_def unat_of_nat word_less_nat_alt take_bit_nat_eq_self)
  then show ?thesis
    unfolding push_one_minus_one using k by (auto simp: bit_simps)
qed

lemma bit_setBitRange:
  assumes "low \<le> high" "high < 31 + low"
  shows "bit (setBitRange x v high low) m \<longleftrightarrow>
    (bit x m \<and> Suc (high - low) \<le> m) \<or> (low \<le> m \<and> m \<le> high \<and> m < 32 \<and> bit v (m - low))"
proof -
  define w where "w = makeMask (of_nat (high - low + 1))"
  have w: "bit w j \<longleftrightarrow> j \<le> high - low" for j
    using bit_makeMask [of "high - low + 1" j] assms unfolding w_def by auto
  show ?thesis
    unfolding setBitRange_def Let_def w_def [symmetric]
    using assms bit32_lessD [of x m] by (auto simp: bit_simps w)
qed

lemma bit_setBit_reg: "b < 32 \<Longrightarrow> bit (setBit_reg x v b) m \<longleftrightarrow> (bit x m \<and> 0 < m) \<or> (m = b \<and> v)"
  unfolding setBit_reg_def by (auto simp: bit_setBitRange bit_simps)

lemma bit_getBitRange:
  assumes "low \<le> high" "high < 31 + low"
  shows "bit (getBitRange v high low) m \<longleftrightarrow> m \<le> high - low \<and> m < 32 \<and> bit v (low + m)"
  unfolding getBitRange_def getBits_def push_one_minus_one
  using assms by (auto simp: bit_simps)



text \<open>The packet of a request, without the closing control token.\<close>

definition encode_request :: "request \<Rightarrow> token list" where
  "encode_request r =
     [Token (if rq_write r then CT_WRITEC else CT_READC) True,
      Token (ucast (drop_bit 8 (rq_returnNode r))) False, Token (ucast (rq_returnNode r)) False,
      Token (rq_returnNum r) False,
      Token (ucast (drop_bit 8 (rq_regNum r))) False, Token (ucast (rq_regNum r)) False]
     @ (if rq_write r then write32_be (rq_data r) else [])"

fun switch_receive :: "token list \<Rightarrow> sswitch \<Rightarrow> sswitch option" where
  "switch_receive [] sw = Some sw"
| "switch_receive (t # ts) sw = do {
     sw \<leftarrow> switch_token t sw;
     switch_receive ts sw
   }"

lemma switch_receive_junk: "sw_junkIncomingTokens sw \<Longrightarrow> switch_receive ts sw = Some sw"
  by (induction ts) (simp_all add: switch_token_def)

lemma switch_receive_eq:
  assumes "length (sw_buf sw) = writeRequestLength" "\<not> sw_junkIncomingTokens sw"
    "sw_recievedTokens sw \<le> writeRequestLength"
  shows "\<exists>sw'. switch_receive ts sw = Some sw' \<and>
    (if sw_recievedTokens sw + length ts \<le> writeRequestLength
     then \<not> sw_junkIncomingTokens sw' \<and> sw_recievedTokens sw' = sw_recievedTokens sw + length ts
       \<and> sw_buf sw' = take (sw_recievedTokens sw) (sw_buf sw) @ ts @ drop (sw_recievedTokens sw + length ts) (sw_buf sw)
     else sw_junkIncomingTokens sw')"
  using assms
proof (induction ts arbitrary: sw)
  case (Cons t ts)
  show ?case
  proof (cases "sw_recievedTokens sw = writeRequestLength")
    case True
    with Cons.prems show ?thesis
      by (simp add: switch_token_def switch_receive_junk)
  next
    case False
    define sw1 where "sw1 = sw\<lparr>sw_buf := (sw_buf sw)[sw_recievedTokens sw := t], sw_recievedTokens := sw_recievedTokens sw + 1\<rparr>"
    have "switch_token t sw = Some sw1"
      using False Cons.prems by (simp add: switch_token_def sw1_def)
    moreover have "take (Suc (sw_recievedTokens sw)) ((sw_buf sw)[sw_recievedTokens sw := t]) = take (sw_recievedTokens sw) (sw_buf sw) @ [t]"
      using False Cons.prems by (simp add: take_Suc_conv_app_nth)
    ultimately show ?thesis
      using Cons.IH [of sw1] False Cons.prems by (auto simp: sw1_def)
  qed
qed simp

lemma be16_bytes:
  "ucast (drop_bit 8 (be16 a b)) = a" "ucast (be16 a b) = b"
  "ucast (drop_bit 8 (ucast (be16 a b) :: u32)) = a" "ucast (ucast (be16 a b) :: u32) = b"
  by (rule word8_eqI; auto simp: be16_def bit_simps)+

lemma be16_less: "ucast (be16 a b) < (65536 :: u32)"
  using unsigned_less [where 'a = nat and w = "be16 a b"]
  by (simp add: word_less_nat_alt unsigned_ucast_eq take_bit_nat_eq_self)

lemma be16_join: "be16 (ucast (drop_bit 8 w)) (ucast w) = w"
  unfolding be16_def by (rule word16_eqI) (auto simp: bit_simps)

lemma be16_join32:
  assumes "v < (65536 :: u32)"
  shows "ucast (be16 (ucast (drop_bit 8 v)) (ucast v)) = v"
proof -
  have "v AND mask 16 = v"
    using assms by (intro less_mask_eq) simp
  then have v: "bit v n \<Longrightarrow> n < 16" for n
    by (metis bit_and_iff bit_mask_iff)
  show ?thesis
    unfolding be16_def by (rule word32_eqI) (auto simp: bit_simps dest: v)
qed

lemma be32_bytes: "write32_be (be32 a b c d) = [Token a False, Token b False, Token c False, Token d False]"
  unfolding write32_be_def res_masks token.inject list.inject be32_def
  by (intro conjI refl; rule word8_eqI; auto simp: bit_simps)

lemma be32_join:
  "be32 (ucast (drop_bit 24 v)) (ucast (drop_bit 16 v AND 0xff)) (ucast (drop_bit 8 v AND 0xff)) (ucast (v AND 0xff)) = v"
proof (rule word32_eqI)
  fix n :: nat
  assume "n < 32"
  then show "bit (be32 (ucast (drop_bit 24 v)) (ucast (drop_bit 16 v AND 0xff)) (ucast (drop_bit 8 v AND 0xff))
      (ucast (v AND 0xff))) n = bit v n"
    unfolding res_masks be32_def by (rule all_less_32 [rotated]) (simp add: bit_simps)
qed

lemma list_6: "length xs = 6 \<Longrightarrow> [xs ! 0, xs ! 1, xs ! 2, xs ! 3, xs ! 4, xs ! 5] = xs"
  using map_nth [of xs] by (simp add: upt_rec eval_nat_numeral)

lemma list_10:
  "length xs = 10 \<Longrightarrow>
    [xs ! 0, xs ! 1, xs ! 2, xs ! 3, xs ! 4, xs ! 5, xs ! 6, xs ! 7, xs ! 8, xs ! 9] = xs"
  using map_nth [of xs] by (simp add: upt_rec eval_nat_numeral)

definition request_ok :: "request \<Rightarrow> bool" where
  "request_ok r \<longleftrightarrow> rq_regNum r < 2 ^ 16 \<and> (rq_write r \<or> rq_data r = 0)"

lemma token_eq: "t = Token v c \<longleftrightarrow> getValue t = v \<and> isControl t = c"
  by (cases t) auto

lemma parse_read:
  assumes "sw_buf sw = ts @ rest" "sw_recievedTokens sw = length ts" "ts = [t0, t1, t2, t3, t4, t5]"
    "t0 = Token CT_READC True"
  shows "parseRequest sw = Some r \<longleftrightarrow> ts = encode_request r \<and> request_ok r"
proof -
  have "parseRequest sw = (if isControl t1 \<or> isControl t2 \<or> isControl t3 \<or> isControl t4 \<or> isControl t5 then None else
      Some \<lparr>rq_write = False, rq_returnNode = be16 (getValue t1) (getValue t2), rq_returnNum = getValue t3,
        rq_regNum = ucast (be16 (getValue t4) (getValue t5)), rq_data = 0\<rparr>)"
    unfolding parseRequest_def Let_def assms
    by (simp add: readRequestLength_def containsControlToken_def read16_be_def)
  then show ?thesis
    unfolding assms request_ok_def encode_request_def
    by (cases r) (auto simp: token_eq be16_bytes be16_join be16_join32 be16_less)
qed

lemma parse_write:
  assumes "sw_buf sw = ts @ rest" "sw_recievedTokens sw = length ts" "ts = [t0, t1, t2, t3, t4, t5, t6, t7, t8, t9]"
    "t0 = Token CT_WRITEC True"
  shows "parseRequest sw = Some r \<longleftrightarrow> ts = encode_request r \<and> request_ok r"
proof -
  have "parseRequest sw = (if isControl t1 \<or> isControl t2 \<or> isControl t3 \<or> isControl t4 \<or> isControl t5
        \<or> isControl t6 \<or> isControl t7 \<or> isControl t8 \<or> isControl t9 then None else
      Some \<lparr>rq_write = True, rq_returnNode = be16 (getValue t1) (getValue t2), rq_returnNum = getValue t3,
        rq_regNum = ucast (be16 (getValue t4) (getValue t5)),
        rq_data = be32 (getValue t6) (getValue t7) (getValue t8) (getValue t9)\<rparr>)"
    unfolding parseRequest_def Let_def assms
    by (simp add: writeRequestLength_def containsControlToken_def read16_be_def read32_be_def)
  moreover have "[t6, t7, t8, t9] = write32_be v \<longleftrightarrow> \<not> isControl t6 \<and> \<not> isControl t7 \<and> \<not> isControl t8 \<and> \<not> isControl t9
      \<and> v = be32 (getValue t6) (getValue t7) (getValue t8) (getValue t9)" for v
    using be32_bytes [of "getValue t6" "getValue t7" "getValue t8" "getValue t9"] be32_join [of v]
    by (auto simp: token_eq write32_be_def)
  ultimately show ?thesis
    unfolding assms request_ok_def encode_request_def
    by (cases r) (auto simp: token_eq be16_bytes be16_join be16_join32 be16_less)
qed

lemma encode_request_shape:
  "length (encode_request r) = (if rq_write r then writeRequestLength else readRequestLength)"
  "encode_request r ! 0 = Token (if rq_write r then CT_WRITEC else CT_READC) True"
  by (simp_all add: encode_request_def write32_be_def writeRequestLength_def readRequestLength_def)

lemma parse_accepts:
  assumes "sw_buf sw = ts @ rest" "sw_recievedTokens sw = length ts"
  shows "parseRequest sw = Some r \<longleftrightarrow> ts = encode_request r \<and> request_ok r"
proof -
  consider (rd) "ts \<noteq> []" "ts ! 0 = Token CT_READC True" "length ts = 6"
    | (wr) "ts \<noteq> []" "ts ! 0 = Token CT_WRITEC True" "length ts = 10"
    | (none) "\<not> (ts \<noteq> [] \<and> ts ! 0 = Token CT_READC True \<and> length ts = 6)"
      "\<not> (ts \<noteq> [] \<and> ts ! 0 = Token CT_WRITEC True \<and> length ts = 10)"
    by blast
  then show ?thesis
  proof cases
    case rd
    show ?thesis
      by (rule parse_read [OF assms list_6 [OF rd(3), symmetric] rd(2)])
  next
    case wr
    show ?thesis
      by (rule parse_write [OF assms list_10 [OF wr(3), symmetric] wr(2)])
  next
    case none
    have "ts \<noteq> encode_request r"
      using none encode_request_shape [of r]
      by (cases "rq_write r") (auto simp: writeRequestLength_def readRequestLength_def)
    moreover have "ts \<noteq> [] \<Longrightarrow> (ts @ rest) ! 0 = ts ! 0"
      by (cases ts) simp_all
    ultimately show ?thesis
      using none unfolding parseRequest_def Let_def assms
      by (cases "ts = []") (auto simp: token_eq writeRequestLength_def readRequestLength_def)
  qed
qed

text \<open>
  C20. A packet received by an idle system switch is taken as the request \<open>r\<close>
  exactly if it is the encoding of \<open>r\<close>, with a register number of two bytes:
  packets that are too short, too long, contain another control token or are
  of another kind are all dropped, and no request is lost or misread.
\<close>

theorem switch_request_accepted:
  assumes "length (sw_buf sw) = writeRequestLength" "\<not> sw_junkIncomingTokens sw" "sw_recievedTokens sw = 0"
  shows "\<exists>sw'. switch_receive ts sw = Some sw' \<and>
    (\<forall>r. \<not> sw_junkIncomingTokens sw' \<and> parseRequest sw' = Some r \<longleftrightarrow> ts = encode_request r \<and> request_ok r)"
proof -
  obtain sw' where sw': "switch_receive ts sw = Some sw'"
    and eff: "if length ts \<le> writeRequestLength
     then \<not> sw_junkIncomingTokens sw' \<and> sw_recievedTokens sw' = length ts
       \<and> sw_buf sw' = ts @ drop (length ts) (sw_buf sw)
     else sw_junkIncomingTokens sw'"
    using switch_receive_eq [of sw ts] assms by auto
  have "\<not> sw_junkIncomingTokens sw' \<and> parseRequest sw' = Some r \<longleftrightarrow> ts = encode_request r \<and> request_ok r" for r
  proof (cases "length ts \<le> writeRequestLength")
    case True
    with eff show ?thesis
      using parse_accepts [of sw' ts "drop (length ts) (sw_buf sw)" r] by simp
  next
    case False
    then have "ts \<noteq> encode_request r"
      using encode_request_shape(1) [of r]
      by (auto simp: writeRequestLength_def readRequestLength_def split: if_splits)
    with False eff show ?thesis
      by simp
  qed
  with sw' show ?thesis
    by blast
qed

definition demo_request :: request where
  "demo_request = \<lparr>rq_write = True, rq_returnNode = 3, rq_returnNum = 2, rq_regNum = 5, rq_data = 7\<rparr>"

theorem switch_request_accepted_witness:
  "\<exists>sw'. switch_receive (encode_request demo_request) (SSwitch_new 0) = Some sw' \<and> parseRequest sw' = Some demo_request"
proof -
  have "request_ok demo_request"
    by (simp add: request_ok_def demo_request_def)
  then show ?thesis
    using switch_request_accepted [of "SSwitch_new 0" "encode_request demo_request"]
    by (auto simp: SSwitch_new_def writeRequestLength_def)
qed

end
