(* ===== verification/SysState.thy ===== *)
theory SysState
  imports RunnableQueue RingBuffer Exec SSwitch
begin

text \<open>
  The objects of a running system (\<open>SystemState.h\<close>, \<open>SystemState.cpp\<close>,
  \<open>Resource.h\<close>, \<open>Resource.cpp\<close>): the threads, channel ends, timers, locks and
  synchronisers of all cores, the scheduler, the pending event, and the
  operations that schedule threads and deliver events and interrupts.

  The heap of the C++ program is one record.  An object is named by the core
  it belongs to and its number there; a member function is a function of that
  name.  The lists of event enabled resources of a thread are HOL lists here;
  the theory EventList shows that the linked lists of \<open>Thread.h\<close> implement
  them.  Ports and clock blocks are not modelled: an operation that reaches
  one has no result.
\<close>

subsection \<open>Objects\<close>

datatype res =
  Res_thread addr | Res_chanend addr | Res_timer addr | Res_lock addr | Res_sync addr
| Res_other u32

datatype runnable = Run_res res | Run_timeout

type_synonym cpu_thread = "(addr, res) thread"

text \<open>The members of \<open>EventableResource\<close>, with those of its base \<open>Resource\<close>.\<close>

record evres =
  er_inUse :: bool
  er_ID :: u32
  er_vector :: u32
  er_EV :: u32
  er_eventsEnabled :: bool
  er_interruptMode :: bool
  er_owner :: "addr option"

record chan_endpoint =
  ep_junkIncoming :: bool
  ep_queue :: "endpoint list"
  ep_source :: "endpoint option"

record chanend =
  ce_destID :: u32
  ce_dest :: "endpoint option"
  ce_buf :: "token ring_buffer"
  ce_pausedOut :: "addr option"
  ce_pausedIn :: "addr option"
  ce_waitForWord :: bool
  ce_inPacket :: bool
  ce_junkPacket :: bool

record timer =
  tm_after :: bool
  tm_data :: u32
  tm_pausedIn :: "addr option"

record lock =
  lk_inUse :: bool
  lk_held :: bool
  lk_threads :: "addr list"

text \<open>\<open>sn_threads\<close> are the first \<open>NumThreads\<close> entries of the array \<open>threads\<close>.\<close>

record synchroniser =
  sn_inUse :: bool
  sn_threads :: "addr list"
  sn_NumPaused :: u32
  sn_join :: bool

record pending_event =
  pe_res :: res
  pe_interrupt :: bool
  pe_time :: ticks_t

text \<open>
  \<open>sy_coreList\<close> are the cores of all processor nodes, in their order.
  \<open>sy_pendingEvent\<close> is \<open>None\<close> when the member \<open>set\<close> is false.  \<open>sy_events\<close> and
  \<open>sy_interrupts\<close> are the event and interrupt enabled resources of a thread.
\<close>

record sys =
  sy_scheduler :: "runnable runnable_queue"
  sy_currentRunnable :: "runnable option"
  sy_pendingEvent :: "pending_event option"
  sy_coreList :: "nat list"
  sy_cores :: "nat \<Rightarrow> core"
  sy_romdc :: dcache
  sy_net :: network
  sy_switches :: "nat \<Rightarrow> sswitch"
  sy_threads :: "addr \<Rightarrow> cpu_thread"
  sy_events :: "addr \<Rightarrow> res list"
  sy_interrupts :: "addr \<Rightarrow> res list"
  sy_ev :: "res \<Rightarrow> evres"
  sy_endpoints :: "endpoint \<Rightarrow> chan_endpoint"
  sy_chanends :: "addr \<Rightarrow> chanend"
  sy_timers :: "addr \<Rightarrow> timer"
  sy_locks :: "addr \<Rightarrow> lock"
  sy_syncs :: "addr \<Rightarrow> synchroniser"

definition set_thread :: "addr \<Rightarrow> cpu_thread \<Rightarrow> sys \<Rightarrow> sys" where
  "set_thread a t s = s\<lparr>sy_threads := (sy_threads s)(a := t)\<rparr>"

definition set_ev :: "res \<Rightarrow> evres \<Rightarrow> sys \<Rightarrow> sys" where
  "set_ev r e s = s\<lparr>sy_ev := (sy_ev s)(r := e)\<rparr>"

definition set_chanend :: "addr \<Rightarrow> chanend \<Rightarrow> sys \<Rightarrow> sys" where
  "set_chanend a c s = s\<lparr>sy_chanends := (sy_chanends s)(a := c)\<rparr>"

definition set_endpoint :: "endpoint \<Rightarrow> chan_endpoint \<Rightarrow> sys \<Rightarrow> sys" where
  "set_endpoint d e s = s\<lparr>sy_endpoints := (sy_endpoints s)(d := e)\<rparr>"

definition set_timer :: "addr \<Rightarrow> timer \<Rightarrow> sys \<Rightarrow> sys" where
  "set_timer a x s = s\<lparr>sy_timers := (sy_timers s)(a := x)\<rparr>"

definition set_lock :: "addr \<Rightarrow> lock \<Rightarrow> sys \<Rightarrow> sys" where
  "set_lock a x s = s\<lparr>sy_locks := (sy_locks s)(a := x)\<rparr>"

definition set_sync :: "addr \<Rightarrow> synchroniser \<Rightarrow> sys \<Rightarrow> sys" where
  "set_sync a x s = s\<lparr>sy_syncs := (sy_syncs s)(a := x)\<rparr>"

lemmas set_defs = set_thread_def set_ev_def set_chanend_def set_endpoint_def set_timer_def
  set_lock_def set_sync_def

lemma set_selects [simp]:
  "sy_scheduler (set_thread a t s) = sy_scheduler s"
  "sy_currentRunnable (set_thread a t s) = sy_currentRunnable s"
  "sy_pendingEvent (set_thread a t s) = sy_pendingEvent s"
  "sy_coreList (set_thread a t s) = sy_coreList s"
  "sy_cores (set_thread a t s) = sy_cores s"
  "sy_romdc (set_thread a t s) = sy_romdc s"
  "sy_net (set_thread a t s) = sy_net s"
  "sy_switches (set_thread a t s) = sy_switches s"
  "sy_threads (set_thread a t s) = (sy_threads s)(a := t)"
  "sy_events (set_thread a t s) = sy_events s"
  "sy_interrupts (set_thread a t s) = sy_interrupts s"
  "sy_ev (set_thread a t s) = sy_ev s"
  "sy_endpoints (set_thread a t s) = sy_endpoints s"
  "sy_chanends (set_thread a t s) = sy_chanends s"
  "sy_timers (set_thread a t s) = sy_timers s"
  "sy_locks (set_thread a t s) = sy_locks s"
  "sy_syncs (set_thread a t s) = sy_syncs s"
  "sy_scheduler (set_ev r e s) = sy_scheduler s"
  "sy_currentRunnable (set_ev r e s) = sy_currentRunnable s"
  "sy_pendingEvent (set_ev r e s) = sy_pendingEvent s"
  "sy_coreList (set_ev r e s) = sy_coreList s"
  "sy_cores (set_ev r e s) = sy_cores s"
  "sy_romdc (set_ev r e s) = sy_romdc s"
  "sy_net (set_ev r e s) = sy_net s"
  "sy_switches (set_ev r e s) = sy_switches s"
  "sy_threads (set_ev r e s) = sy_threads s"
  "sy_events (set_ev r e s) = sy_events s"
  "sy_interrupts (set_ev r e s) = sy_interrupts s"
  "sy_ev (set_ev r e s) = (sy_ev s)(r := e)"
  "sy_endpoints (set_ev r e s) = sy_endpoints s"
  "sy_chanends (set_ev r e s) = sy_chanends s"
  "sy_timers (set_ev r e s) = sy_timers s"
  "sy_locks (set_ev r e s) = sy_locks s"
  "sy_syncs (set_ev r e s) = sy_syncs s"
  "sy_scheduler (set_chanend c x s) = sy_scheduler s"
  "sy_currentRunnable (set_chanend c x s) = sy_currentRunnable s"
  "sy_pendingEvent (set_chanend c x s) = sy_pendingEvent s"
  "sy_coreList (set_chanend c x s) = sy_coreList s"
  "sy_cores (set_chanend c x s) = sy_cores s"
  "sy_romdc (set_chanend c x s) = sy_romdc s"
  "sy_net (set_chanend c x s) = sy_net s"
  "sy_switches (set_chanend c x s) = sy_switches s"
  "sy_threads (set_chanend c x s) = sy_threads s"
  "sy_events (set_chanend c x s) = sy_events s"
  "sy_interrupts (set_chanend c x s) = sy_interrupts s"
  "sy_ev (set_chanend c x s) = sy_ev s"
  "sy_endpoints (set_chanend c x s) = sy_endpoints s"
  "sy_chanends (set_chanend c x s) = (sy_chanends s)(c := x)"
  "sy_timers (set_chanend c x s) = sy_timers s"
  "sy_locks (set_chanend c x s) = sy_locks s"
  "sy_syncs (set_chanend c x s) = sy_syncs s"
  "sy_scheduler (set_endpoint d ep s) = sy_scheduler s"
  "sy_currentRunnable (set_endpoint d ep s) = sy_currentRunnable s"
  "sy_pendingEvent (set_endpoint d ep s) = sy_pendingEvent s"
  "sy_coreList (set_endpoint d ep s) = sy_coreList s"
  "sy_cores (set_endpoint d ep s) = sy_cores s"
  "sy_romdc (set_endpoint d ep s) = sy_romdc s"
  "sy_net (set_endpoint d ep s) = sy_net s"
  "sy_switches (set_endpoint d ep s) = sy_switches s"
  "sy_threads (set_endpoint d ep s) = sy_threads s"
  "sy_events (set_endpoint d ep s) = sy_events s"
  "sy_interrupts (set_endpoint d ep s) = sy_interrupts s"
  "sy_ev (set_endpoint d ep s) = sy_ev s"
  "sy_endpoints (set_endpoint d ep s) = (sy_endpoints s)(d := ep)"
  "sy_chanends (set_endpoint d ep s) = sy_chanends s"
  "sy_timers (set_endpoint d ep s) = sy_timers s"
  "sy_locks (set_endpoint d ep s) = sy_locks s"
  "sy_syncs (set_endpoint d ep s) = sy_syncs s"
  "sy_scheduler (set_timer k ti s) = sy_scheduler s"
  "sy_currentRunnable (set_timer k ti s) = sy_currentRunnable s"
  "sy_pendingEvent (set_timer k ti s) = sy_pendingEvent s"
  "sy_coreList (set_timer k ti s) = sy_coreList s"
  "sy_cores (set_timer k ti s) = sy_cores s"
  "sy_romdc (set_timer k ti s) = sy_romdc s"
  "sy_net (set_timer k ti s) = sy_net s"
  "sy_switches (set_timer k ti s) = sy_switches s"
  "sy_threads (set_timer k ti s) = sy_threads s"
  "sy_events (set_timer k ti s) = sy_events s"
  "sy_interrupts (set_timer k ti s) = sy_interrupts s"
  "sy_ev (set_timer k ti s) = sy_ev s"
  "sy_endpoints (set_timer k ti s) = sy_endpoints s"
  "sy_chanends (set_timer k ti s) = sy_chanends s"
  "sy_timers (set_timer k ti s) = (sy_timers s)(k := ti)"
  "sy_locks (set_timer k ti s) = sy_locks s"
  "sy_syncs (set_timer k ti s) = sy_syncs s"
  "sy_scheduler (set_lock k lk s) = sy_scheduler s"
  "sy_currentRunnable (set_lock k lk s) = sy_currentRunnable s"
  "sy_pendingEvent (set_lock k lk s) = sy_pendingEvent s"
  "sy_coreList (set_lock k lk s) = sy_coreList s"
  "sy_cores (set_lock k lk s) = sy_cores s"
  "sy_romdc (set_lock k lk s) = sy_romdc s"
  "sy_net (set_lock k lk s) = sy_net s"
  "sy_switches (set_lock k lk s) = sy_switches s"
  "sy_threads (set_lock k lk s) = sy_threads s"
  "sy_events (set_lock k lk s) = sy_events s"
  "sy_interrupts (set_lock k lk s) = sy_interrupts s"
  "sy_ev (set_lock k lk s) = sy_ev s"
  "sy_endpoints (set_lock k lk s) = sy_endpoints s"
  "sy_chanends (set_lock k lk s) = sy_chanends s"
  "sy_timers (set_lock k lk s) = sy_timers s"
  "sy_locks (set_lock k lk s) = (sy_locks s)(k := lk)"
  "sy_syncs (set_lock k lk s) = sy_syncs s"
  "sy_scheduler (set_sync y sn s) = sy_scheduler s"
  "sy_currentRunnable (set_sync y sn s) = sy_currentRunnable s"
  "sy_pendingEvent (set_sync y sn s) = sy_pendingEvent s"
  "sy_coreList (set_sync y sn s) = sy_coreList s"
  "sy_cores (set_sync y sn s) = sy_cores s"
  "sy_romdc (set_sync y sn s) = sy_romdc s"
  "sy_net (set_sync y sn s) = sy_net s"
  "sy_switches (set_sync y sn s) = sy_switches s"
  "sy_threads (set_sync y sn s) = sy_threads s"
  "sy_events (set_sync y sn s) = sy_events s"
  "sy_interrupts (set_sync y sn s) = sy_interrupts s"
  "sy_ev (set_sync y sn s) = sy_ev s"
  "sy_endpoints (set_sync y sn s) = sy_endpoints s"
  "sy_chanends (set_sync y sn s) = sy_chanends s"
  "sy_timers (set_sync y sn s) = sy_timers s"
  "sy_locks (set_sync y sn s) = sy_locks s"
  "sy_syncs (set_sync y sn s) = (sy_syncs s)(y := sn)"
  by (simp_all add: set_defs)

subsection \<open>Scheduling\<close>

definition schedule :: "addr \<Rightarrow> sys \<Rightarrow> sys option" where
  "schedule a s = do {
     let t = mark_scheduled (sy_threads s a);
     q \<leftarrow> rq_push (Run_res (Res_thread a)) (time t) (sy_scheduler s);
     Some ((set_thread a t s)\<lparr>sy_scheduler := q\<rparr>)
   }"

definition deschedule :: "addr \<Rightarrow> sys \<Rightarrow> sys option" where
  "deschedule a s =
     (if rq_contains (sy_scheduler s) (Run_res (Res_thread a)) then do {
        q \<leftarrow> rq_remove (Run_res (Res_thread a)) (sy_scheduler s);
        Some (s\<lparr>sy_scheduler := q\<rparr>)
      }
      else Some s)"

definition scheduleOther :: "runnable \<Rightarrow> ticks_t \<Rightarrow> sys \<Rightarrow> sys option" where
  "scheduleOther r tm s = do {
     q \<leftarrow> rq_push r tm (sy_scheduler s);
     Some (s\<lparr>sy_scheduler := q\<rparr>)
   }"

definition clearTimeout :: "sys \<Rightarrow> sys option" where
  "clearTimeout s = do {
     q \<leftarrow> rq_push Run_timeout 0 (sy_scheduler s);
     q \<leftarrow> rq_remove Run_timeout q;
     Some (s\<lparr>sy_scheduler := q\<rparr>)
   }"

text \<open>The wake up time of the front of the queue, on which the end of a time slice depends.\<close>

definition tslice :: "sys \<Rightarrow> ticks_t option" where
  "tslice s = map_option (rq_wakeUpTime (sy_scheduler s)) (rq_front (sy_scheduler s))"

definition isExecuting :: "addr \<Rightarrow> sys \<Rightarrow> bool" where
  "isExecuting a s \<longleftrightarrow> sy_currentRunnable s = Some (Run_res (Res_thread a))"

subsection \<open>Taking an event\<close>

definition getTruncatedEV :: "res \<Rightarrow> addr \<Rightarrow> sys \<Rightarrow> u32" where
  "getTruncatedEV r a s = (
     let e = sy_ev s r; c = sy_cores s (fst a) in
     if er_EV e = er_ID e then er_EV e
     else if nodeType c = XS2_A then er_EV e
     else (er_EV e AND 0xffff) OR getRamBase c)"

definition res_completeEvent :: "res \<Rightarrow> sys \<Rightarrow> sys option" where
  "res_completeEvent r s = do {
     a \<leftarrow> er_owner (sy_ev s r);
     t \<leftarrow> writeRegister ED (getTruncatedEV r a s) (sy_threads s a);
     Some (set_thread a (t\<lparr>pc := er_vector (sy_ev s r)\<rparr>) s)
   }"

text \<open>Saving of the state of the thread by an interrupt.\<close>

definition save_interrupted :: "cpu_thread \<Rightarrow> cpu_thread option" where
  "save_interrupted t = do {
     t \<leftarrow> set_reg SSR (ucast (sr t)) t;
     t \<leftarrow> set_reg SPC (thread_fromPc t (pc t)) t;
     ed \<leftarrow> array_get (regs t) ED;
     t \<leftarrow> set_reg SED ed t;
     Some (t\<lparr>sr := sr_set INK True (sr_set ININT True (sr_set IEBLE False (sr t)))\<rparr>)
   }"

definition completeEvent :: "addr \<Rightarrow> res \<Rightarrow> bool \<Rightarrow> sys \<Rightarrow> sys option" where
  "completeEvent a r interrupt s = do {
     let t = sy_threads s a;
     t \<leftarrow> (if interrupt then save_interrupted t else Some (t\<lparr>sr := sr_set INENB False (sr t)\<rparr>));
     res_completeEvent r (set_thread a (t\<lparr>sr := sr_set EEBLE False (sr t)\<rparr>) s)
   }"

text \<open>\<open>cancel\<close> does nothing unless the thread is paused on a synchroniser.\<close>

definition cancel :: "res option \<Rightarrow> sys \<Rightarrow> sys" where
  "cancel p s = (case p of
      Some (Res_sync y) \<Rightarrow>
        set_sync y ((sy_syncs s y)\<lparr>sn_NumPaused := sn_NumPaused (sy_syncs s y) - 1\<rparr>) s
    | _ \<Rightarrow> s)"

definition takeEvent_other :: "addr \<Rightarrow> res \<Rightarrow> bool \<Rightarrow> sys \<Rightarrow> sys option" where
  "takeEvent_other a r interrupt s = do {
     s \<leftarrow> (if bit (sr (sy_threads s a)) WAITING
            then schedule a (cancel (pausedOn (sy_threads s a)) s)
            else Some s);
     completeEvent a r interrupt s
   }"

text \<open>The event taken is the pending one, so there has to be one.\<close>

definition takeEvent_current :: "addr \<Rightarrow> sys \<Rightarrow> sys option" where
  "takeEvent_current a s = do {
     p \<leftarrow> sy_pendingEvent s;
     let t = sy_threads s a;
     let t = t\<lparr>time := max (time t) (pe_time p), sr := sr_set WAITING False (sr t)\<rparr>;
     s \<leftarrow> completeEvent a (pe_res p) (pe_interrupt p) (set_thread a t s);
     Some (s\<lparr>sy_pendingEvent := None\<rparr>)
   }"

definition setPendingEvent :: "res \<Rightarrow> ticks_t \<Rightarrow> bool \<Rightarrow> sys \<Rightarrow> sys" where
  "setPendingEvent r tm interrupt s = (
     let new = s\<lparr>sy_pendingEvent := Some \<lparr>pe_res = r, pe_interrupt = interrupt, pe_time = tm\<rparr>\<rparr> in
     case sy_pendingEvent s of
       None \<Rightarrow> new
     | Some p \<Rightarrow> if pe_time p \<le> tm then s else new)"

definition eventsPermitted :: "res \<Rightarrow> sys \<Rightarrow> bool" where
  "eventsPermitted r s = (
     let e = sy_ev s r in
     case er_owner e of
       None \<Rightarrow> False
     | Some a \<Rightarrow> er_eventsEnabled e \<and>
         (if er_interruptMode e then bit (sr (sy_threads s a)) IEBLE else bit (sr (sy_threads s a)) EEBLE))"

definition event :: "res \<Rightarrow> ticks_t \<Rightarrow> sys \<Rightarrow> sys option" where
  "event r tm s = do {
     assert_that (eventsPermitted r s);
     a \<leftarrow> er_owner (sy_ev s r);
     let interrupt = er_interruptMode (sy_ev s r);
     if isExecuting a s then Some (setPendingEvent r tm interrupt s)
     else takeEvent_other a r interrupt (set_thread a ((sy_threads s a)\<lparr>time := tm\<rparr>) s)
   }"

subsection \<open>The timer\<close>

abbreviation (input) CYCLES_PER_TICK :: u64 where "CYCLES_PER_TICK \<equiv> 4"

text \<open>A value of type \<open>int32_t\<close>; arithmetic that leaves its range is undefined.\<close>

definition int32 :: "int \<Rightarrow> int option" where
  "int32 i = (if - (2 ^ 31) \<le> i \<and> i < 2 ^ 31 then Some i else None)"

definition conditionMet :: "timer \<Rightarrow> ticks_t \<Rightarrow> bool option" where
  "conditionMet x tm =
     (if \<not> tm_after x then Some True
      else do {
        d \<leftarrow> int32 (sint (ucast (tm div CYCLES_PER_TICK) :: u32) - sint (tm_data x));
        Some (d > 0)
      })"

definition getEarliestReadyTime :: "timer \<Rightarrow> ticks_t \<Rightarrow> ticks_t option" where
  "getEarliestReadyTime x tm = do {
     met \<leftarrow> conditionMet x tm;
     if met then Some tm
     else do {
       wait \<leftarrow> int32 (sint (tm_data x + 1) - sint (ucast (tm div CYCLES_PER_TICK) :: u32));
       cycles \<leftarrow> int32 (wait * 4);
       Some (tm + word_of_int cycles)
     }
   }"

definition scheduleUpdate :: "res \<Rightarrow> ticks_t \<Rightarrow> sys \<Rightarrow> sys option" where
  "scheduleUpdate r tm s = do {
     assert_that (er_owner (sy_ev s r) \<noteq> None);
     scheduleOther (Run_res r) tm s
   }"

definition Timer_seeEventEnable :: "addr \<Rightarrow> ticks_t \<Rightarrow> sys \<Rightarrow> (bool \<times> sys) option" where
  "Timer_seeEventEnable a tm s = do {
     met \<leftarrow> conditionMet (sy_timers s a) tm;
     if met then do {
       s \<leftarrow> event (Res_timer a) tm s;
       Some (True, s)
     }
     else do {
       ready \<leftarrow> getEarliestReadyTime (sy_timers s a) tm;
       s \<leftarrow> scheduleUpdate (Res_timer a) ready s;
       Some (False, s)
     }
   }"

definition Chanend_seeEventEnable :: "addr \<Rightarrow> ticks_t \<Rightarrow> sys \<Rightarrow> (bool \<times> sys) option" where
  "Chanend_seeEventEnable a tm s =
     (if rb_empty (ce_buf (sy_chanends s a)) then Some (False, s)
      else do {
        s \<leftarrow> event (Res_chanend a) tm s;
        Some (True, s)
      })"

definition seeEventEnable :: "res \<Rightarrow> ticks_t \<Rightarrow> sys \<Rightarrow> (bool \<times> sys) option" where
  "seeEventEnable r tm s = (case r of
      Res_timer a \<Rightarrow> Timer_seeEventEnable a tm s
    | Res_chanend a \<Rightarrow> Chanend_seeEventEnable a tm s
    | _ \<Rightarrow> None)"

subsection \<open>Eventable resources\<close>

definition addEnabled :: "bool \<Rightarrow> addr \<Rightarrow> res \<Rightarrow> sys \<Rightarrow> sys" where
  "addEnabled interrupt a r s =
     (if interrupt then s\<lparr>sy_interrupts := (sy_interrupts s)(a := r # sy_interrupts s a)\<rparr>
      else s\<lparr>sy_events := (sy_events s)(a := r # sy_events s a)\<rparr>)"

definition removeEnabled :: "bool \<Rightarrow> addr \<Rightarrow> res \<Rightarrow> sys \<Rightarrow> sys" where
  "removeEnabled interrupt a r s =
     (if interrupt then s\<lparr>sy_interrupts := (sy_interrupts s)(a := remove1 r (sy_interrupts s a))\<rparr>
      else s\<lparr>sy_events := (sy_events s)(a := remove1 r (sy_events s a))\<rparr>)"

lemma enabled_selects [simp]:
  "sy_scheduler (addEnabled i a r s) = sy_scheduler s"
  "sy_currentRunnable (addEnabled i a r s) = sy_currentRunnable s"
  "sy_pendingEvent (addEnabled i a r s) = sy_pendingEvent s"
  "sy_coreList (addEnabled i a r s) = sy_coreList s"
  "sy_cores (addEnabled i a r s) = sy_cores s"
  "sy_romdc (addEnabled i a r s) = sy_romdc s"
  "sy_net (addEnabled i a r s) = sy_net s"
  "sy_switches (addEnabled i a r s) = sy_switches s"
  "sy_threads (addEnabled i a r s) = sy_threads s"
  "sy_ev (addEnabled i a r s) = sy_ev s"
  "sy_endpoints (addEnabled i a r s) = sy_endpoints s"
  "sy_chanends (addEnabled i a r s) = sy_chanends s"
  "sy_timers (addEnabled i a r s) = sy_timers s"
  "sy_locks (addEnabled i a r s) = sy_locks s"
  "sy_syncs (addEnabled i a r s) = sy_syncs s"
  "sy_scheduler (removeEnabled i a r s) = sy_scheduler s"
  "sy_currentRunnable (removeEnabled i a r s) = sy_currentRunnable s"
  "sy_pendingEvent (removeEnabled i a r s) = sy_pendingEvent s"
  "sy_coreList (removeEnabled i a r s) = sy_coreList s"
  "sy_cores (removeEnabled i a r s) = sy_cores s"
  "sy_romdc (removeEnabled i a r s) = sy_romdc s"
  "sy_net (removeEnabled i a r s) = sy_net s"
  "sy_switches (removeEnabled i a r s) = sy_switches s"
  "sy_threads (removeEnabled i a r s) = sy_threads s"
  "sy_ev (removeEnabled i a r s) = sy_ev s"
  "sy_endpoints (removeEnabled i a r s) = sy_endpoints s"
  "sy_chanends (removeEnabled i a r s) = sy_chanends s"
  "sy_timers (removeEnabled i a r s) = sy_timers s"
  "sy_locks (removeEnabled i a r s) = sy_locks s"
  "sy_syncs (removeEnabled i a r s) = sy_syncs s"
  by (simp_all add: addEnabled_def removeEnabled_def)

definition updateOwner :: "res \<Rightarrow> addr \<Rightarrow> sys \<Rightarrow> sys option" where
  "updateOwner r a s = (
     let e = sy_ev s r in
     if er_owner e = Some a then Some s
     else do {
       s \<leftarrow> (if er_eventsEnabled e then do {
               owner \<leftarrow> er_owner e;
               Some (addEnabled (er_interruptMode e) a r (removeEnabled (er_interruptMode e) owner r s))
             }
             else Some s);
       Some (set_ev r (e\<lparr>er_owner := Some a\<rparr>) s)
     })"

definition clearOwner :: "res \<Rightarrow> sys \<Rightarrow> sys option" where
  "clearOwner r s = do {
     let e = sy_ev s r;
     s \<leftarrow> (if er_eventsEnabled e then do {
             owner \<leftarrow> er_owner e;
             Some (removeEnabled (er_interruptMode e) owner r s)
           }
           else Some s);
     Some (set_ev r (e\<lparr>er_owner := None\<rparr>) s)
   }"

definition setVector :: "res \<Rightarrow> addr \<Rightarrow> u32 \<Rightarrow> sys \<Rightarrow> sys option" where
  "setVector r a v s = do {
     s \<leftarrow> updateOwner r a s;
     Some (set_ev r ((sy_ev s r)\<lparr>er_vector := v\<rparr>) s)
   }"

definition setEV :: "res \<Rightarrow> addr \<Rightarrow> u32 \<Rightarrow> sys \<Rightarrow> sys option" where
  "setEV r a v s = do {
     s \<leftarrow> updateOwner r a s;
     Some (set_ev r ((sy_ev s r)\<lparr>er_EV := v\<rparr>) s)
   }"

text \<open>\<open>if (eventsPermitted() && seeEventEnable(time)) event(time)\<close>, with its condition.\<close>

definition event_if_ready :: "res \<Rightarrow> ticks_t \<Rightarrow> sys \<Rightarrow> (bool \<times> sys) option" where
  "event_if_ready r tm s =
     (if eventsPermitted r s then do {
        (ready, s) \<leftarrow> seeEventEnable r tm s;
        if ready then do {
          s \<leftarrow> event r tm s;
          Some (True, s)
        }
        else Some (False, s)
      }
      else Some (False, s))"

definition switch_mode :: "res \<Rightarrow> addr \<Rightarrow> bool \<Rightarrow> sys \<Rightarrow> sys" where
  "switch_mode r a enable s = (
     let e = sy_ev s r;
         s = (if er_eventsEnabled e
              then addEnabled (\<not> er_interruptMode e) a r (removeEnabled (er_interruptMode e) a r s)
              else s) in
     set_ev r (e\<lparr>er_interruptMode := enable\<rparr>) s)"

definition setInterruptMode :: "res \<Rightarrow> addr \<Rightarrow> bool \<Rightarrow> sys \<Rightarrow> sys option" where
  "setInterruptMode r a enable s = do {
     s \<leftarrow> updateOwner r a s;
     if enable = er_interruptMode (sy_ev s r) then Some s
     else do {
       let s = switch_mode r a enable s;
       (_, s) \<leftarrow> event_if_ready r (time (sy_threads s a)) s;
       Some s
     }
   }"

definition eventDisable :: "res \<Rightarrow> addr \<Rightarrow> sys \<Rightarrow> sys option" where
  "eventDisable r a s = do {
     let e = sy_ev s r;
     s \<leftarrow> (if er_eventsEnabled e then do {
             owner \<leftarrow> er_owner e;
             Some (removeEnabled (er_interruptMode e) owner r s)
           }
           else Some s);
     updateOwner r a (set_ev r (e\<lparr>er_eventsEnabled := False\<rparr>) s)
   }"

definition mark_enabled :: "res \<Rightarrow> addr \<Rightarrow> sys \<Rightarrow> sys" where
  "mark_enabled r a s = (
     let e = sy_ev s r;
         s = (if \<not> er_eventsEnabled e then addEnabled (er_interruptMode e) a r s else s) in
     set_ev r (e\<lparr>er_eventsEnabled := True\<rparr>) s)"

definition eventEnable :: "res \<Rightarrow> addr \<Rightarrow> sys \<Rightarrow> sys option" where
  "eventEnable r a s = do {
     s \<leftarrow> updateOwner r a s;
     let s = mark_enabled r a s;
     (_, s) \<leftarrow> event_if_ready r (time (sy_threads s a)) s;
     Some s
   }"

definition eventableSetInUseOn :: "res \<Rightarrow> addr \<Rightarrow> sys \<Rightarrow> sys option" where
  "eventableSetInUseOn r a s = do {
     s \<leftarrow> (if er_inUse (sy_ev s r) then clearOwner r s else Some s);
     let e = sy_ev s r;
     Some (set_ev r (e\<lparr>er_vector := 0, er_EV := er_ID e, er_eventsEnabled := False,
       er_interruptMode := False, er_owner := Some a, er_inUse := True\<rparr>) s)
   }"

definition eventableSetInUseOff :: "res \<Rightarrow> sys \<Rightarrow> sys option" where
  "eventableSetInUseOff r s =
     (if \<not> er_inUse (sy_ev s r) then Some s
      else do {
        s \<leftarrow> clearOwner r s;
        Some (set_ev r ((sy_ev s r)\<lparr>er_inUse := False\<rparr>) s)
      })"

subsection \<open>The status register of the current thread\<close>

fun seeOwnerEventEnables :: "res list \<Rightarrow> ticks_t \<Rightarrow> sys \<Rightarrow> (bool \<times> sys) option" where
  "seeOwnerEventEnables [] tm s = Some (False, s)"
| "seeOwnerEventEnables (r # rs) tm s = do {
     (ready, s) \<leftarrow> seeEventEnable r tm s;
     if ready then Some (True, s) else seeOwnerEventEnables rs tm s
   }"

definition setSRSlowPath :: "addr \<Rightarrow> sr_t \<Rightarrow> sys \<Rightarrow> (bool \<times> sys) option" where
  "setSRSlowPath a enabled s = do {
     (ready, s) \<leftarrow> (if bit enabled EEBLE
                      then seeOwnerEventEnables (sy_events s a) (time (sy_threads s a)) s
                      else Some (False, s));
     if ready then Some (True, s)
     else if bit enabled IEBLE
     then seeOwnerEventEnables (sy_interrupts s a) (time (sy_threads s a)) s
     else Some (False, s)
   }"

definition setSR :: "addr \<Rightarrow> sr_t \<Rightarrow> sys \<Rightarrow> (bool \<times> sys) option" where
  "setSR a v s = (
     let t = sy_threads s a;
         enabled = v AND (sr t XOR v);
         s = set_thread a (t\<lparr>sr := v\<rparr>) s in
     if \<not> bit enabled EEBLE \<and> \<not> bit enabled IEBLE then Some (False, s)
     else setSRSlowPath a enabled s)"

definition enableEvents :: "addr \<Rightarrow> sys \<Rightarrow> (bool \<times> sys) option" where
  "enableEvents a s = setSR a (sr_set EEBLE True (sr (sy_threads s a))) s"

fun eventDisable_all :: "res list \<Rightarrow> addr \<Rightarrow> sys \<Rightarrow> sys option" where
  "eventDisable_all [] a s = Some s"
| "eventDisable_all (r # rs) a s = do {
     s \<leftarrow> eventDisable r a s;
     eventDisable_all rs a s
   }"

text \<open>Disabling unlinks a resource but leaves its own link, so the loop visits the whole list.\<close>

definition clre :: "addr \<Rightarrow> sys \<Rightarrow> sys option" where
  "clre a s = (
     let t = sy_threads s a;
         s = set_thread a (t\<lparr>sr := sr_set INENB False (sr_set EEBLE False (sr t))\<rparr>) s in
     eventDisable_all (sy_events s a) a s)"

end
