(* ===== verification/Chan.thy ===== *)
theory Chan
  imports SysState
begin

text \<open>
  Channel communication: the classes \<open>ChanEndpoint\<close>, \<open>Chanend\<close> and the
  receiving side of \<open>SSwitch\<close>.  A packet from one endpoint to another opens a
  route by claiming the destination, sends tokens, and releases the
  destination with an \<open>END\<close> or \<open>PAUSE\<close> token, which hands the route to the
  next endpoint in the queue of the destination.
\<close>

subsection \<open>Waking a paused thread\<close>

definition wake :: "addr \<Rightarrow> ticks_t \<Rightarrow> sys \<Rightarrow> sys option" where
  "wake a tm s = schedule a (set_thread a ((sy_threads s a)\<lparr>time := tm\<rparr>) s)"

text \<open>\<open>notifyDestClaimed\<close> and \<open>notifyDestCanAcceptTokens\<close>, which do the same for a channel end.\<close>

definition Chanend_notify :: "addr \<Rightarrow> ticks_t \<Rightarrow> sys \<Rightarrow> sys option" where
  "Chanend_notify c tm s = (case ce_pausedOut (sy_chanends s c) of
      None \<Rightarrow> Some s
    | Some a \<Rightarrow> do {
        s \<leftarrow> wake a tm s;
        Some (set_chanend c ((sy_chanends s c)\<lparr>ce_pausedOut := None\<rparr>) s)
      })"

definition notify :: "endpoint \<Rightarrow> ticks_t \<Rightarrow> sys \<Rightarrow> sys option" where
  "notify d tm s = (case d of
      Ep_chanend c \<Rightarrow> Chanend_notify c tm s
    | Ep_switch n \<Rightarrow> None)"

subsection \<open>Routes\<close>

text \<open>\<open>claim\<close> returns whether the route is open and the value of its reference parameter.\<close>

definition claim :: "endpoint \<Rightarrow> endpoint \<Rightarrow> bool \<Rightarrow> sys \<Rightarrow> bool \<times> bool \<times> sys" where
  "claim d newSource junkPacket s = (
     let e = sy_endpoints s d in
     if ep_junkIncoming e then (True, True, s)
     else if ep_source e = Some newSource then (True, junkPacket, s)
     else if ep_source e \<noteq> None
     then (False, junkPacket, set_endpoint d (e\<lparr>ep_queue := ep_queue e @ [newSource]\<rparr>) s)
     else (True, junkPacket, set_endpoint d (e\<lparr>ep_source := Some newSource\<rparr>) s))"

definition release :: "endpoint \<Rightarrow> ticks_t \<Rightarrow> sys \<Rightarrow> sys option" where
  "release d tm s = (
     let e = sy_endpoints s d in
     case ep_queue e of
       [] \<Rightarrow> Some (set_endpoint d (e\<lparr>ep_source := None\<rparr>) s)
     | x # xs \<Rightarrow> notify x tm (set_endpoint d (e\<lparr>ep_source := Some x, ep_queue := xs\<rparr>) s))"

subsection \<open>Receiving tokens at a channel end\<close>

definition Chanend_push :: "addr \<Rightarrow> token \<Rightarrow> sys \<Rightarrow> sys" where
  "Chanend_push c t s =
     set_chanend c ((sy_chanends s c)\<lparr>ce_buf := rb_push_back t (ce_buf (sy_chanends s c))\<rparr>) s"

definition Chanend_update :: "addr \<Rightarrow> ticks_t \<Rightarrow> sys \<Rightarrow> sys option" where
  "Chanend_update c tm s = do {
     let x = sy_chanends s c;
     assert_that (\<not> rb_empty (ce_buf x));
     if eventsPermitted (Res_chanend c) s then event (Res_chanend c) tm s
     else (case ce_pausedIn x of
         None \<Rightarrow> Some s
       | Some a \<Rightarrow>
           if ce_waitForWord x \<and> rb_size (ce_buf x) < 4 then Some s
           else do {
             s \<leftarrow> wake a tm s;
             Some (set_chanend c ((sy_chanends s c)\<lparr>ce_pausedIn := None\<rparr>) s)
           })
   }"

definition Chanend_receiveDataToken :: "addr \<Rightarrow> ticks_t \<Rightarrow> u8 \<Rightarrow> sys \<Rightarrow> sys option" where
  "Chanend_receiveDataToken c tm v s = Chanend_update c tm (Chanend_push c (Token v False) s)"

definition Chanend_receiveDataTokens :: "addr \<Rightarrow> ticks_t \<Rightarrow> u8 list \<Rightarrow> sys \<Rightarrow> sys option" where
  "Chanend_receiveDataTokens c tm vs s =
     Chanend_update c tm (fold (\<lambda>v. Chanend_push c (Token v False)) vs s)"

definition Chanend_receiveCtrlToken :: "addr \<Rightarrow> ticks_t \<Rightarrow> u8 \<Rightarrow> sys \<Rightarrow> sys option" where
  "Chanend_receiveCtrlToken c tm v s =
     (if v = CT_END then do {
        s \<leftarrow> release (Ep_chanend c) tm (Chanend_push c (Token v True) s);
        Chanend_update c tm s
      }
      else if v = CT_PAUSE then release (Ep_chanend c) tm s
      else Chanend_update c tm (Chanend_push c (Token v True) s))"

subsection \<open>The system switch as an endpoint\<close>

definition set_switch :: "nat \<Rightarrow> sswitch \<Rightarrow> sys \<Rightarrow> sys" where
  "set_switch n sw s = s\<lparr>sy_switches := (sy_switches s)(n := sw)\<rparr>"

definition set_node :: "nat \<Rightarrow> node \<Rightarrow> sys \<Rightarrow> sys" where
  "set_node n nd s = s\<lparr>sy_net := (sy_net s)\<lparr>net_node := (net_node (sy_net s))(n := nd)\<rparr>\<rparr>"

lemma switch_selects [simp]:
  "sy_scheduler (set_switch n sw s) = sy_scheduler s"
  "sy_currentRunnable (set_switch n sw s) = sy_currentRunnable s"
  "sy_pendingEvent (set_switch n sw s) = sy_pendingEvent s"
  "sy_coreList (set_switch n sw s) = sy_coreList s"
  "sy_cores (set_switch n sw s) = sy_cores s"
  "sy_romdc (set_switch n sw s) = sy_romdc s"
  "sy_net (set_switch n sw s) = sy_net s"
  "sy_threads (set_switch n sw s) = sy_threads s"
  "sy_events (set_switch n sw s) = sy_events s"
  "sy_interrupts (set_switch n sw s) = sy_interrupts s"
  "sy_ev (set_switch n sw s) = sy_ev s"
  "sy_endpoints (set_switch n sw s) = sy_endpoints s"
  "sy_chanends (set_switch n sw s) = sy_chanends s"
  "sy_timers (set_switch n sw s) = sy_timers s"
  "sy_locks (set_switch n sw s) = sy_locks s"
  "sy_syncs (set_switch n sw s) = sy_syncs s"
  "sy_scheduler (set_node n nd s) = sy_scheduler s"
  "sy_currentRunnable (set_node n nd s) = sy_currentRunnable s"
  "sy_pendingEvent (set_node n nd s) = sy_pendingEvent s"
  "sy_coreList (set_node n nd s) = sy_coreList s"
  "sy_cores (set_node n nd s) = sy_cores s"
  "sy_romdc (set_node n nd s) = sy_romdc s"
  "sy_switches (set_node n nd s) = sy_switches s"
  "sy_threads (set_node n nd s) = sy_threads s"
  "sy_events (set_node n nd s) = sy_events s"
  "sy_interrupts (set_node n nd s) = sy_interrupts s"
  "sy_ev (set_node n nd s) = sy_ev s"
  "sy_endpoints (set_node n nd s) = sy_endpoints s"
  "sy_chanends (set_node n nd s) = sy_chanends s"
  "sy_timers (set_node n nd s) = sy_timers s"
  "sy_locks (set_node n nd s) = sy_locks s"
  "sy_syncs (set_node n nd s) = sy_syncs s"
  "sy_switches (set_switch n sw s) = (sy_switches s)(n := sw)"
  by (simp_all add: set_switch_def set_node_def)

fun setNode_chanends :: "nat \<Rightarrow> u32 \<Rightarrow> nat list \<Rightarrow> sys \<Rightarrow> sys option" where
  "setNode_chanends core coreID [] s = Some s"
| "setNode_chanends core coreID (i # is) s = do {
     let e = sy_ev s (Res_chanend (core, i));
     newID \<leftarrow> res_setNode coreID (er_ID e);
     setNode_chanends core coreID is (set_ev (Res_chanend (core, i)) (e\<lparr>er_ID := newID\<rparr>) s)
   }"

definition updateIDs :: "nat \<Rightarrow> sys \<Rightarrow> sys option" where
  "updateIDs core s = do {
     coreID \<leftarrow> getCoreID (sy_net s) core;
     setNode_chanends core coreID [0 ..< unat NUM_CHANENDS] s
   }"

fun updateIDs_all :: "nat list \<Rightarrow> sys \<Rightarrow> sys option" where
  "updateIDs_all [] s = Some s"
| "updateIDs_all (c # cs) s = do {
     s \<leftarrow> updateIDs c s;
     updateIDs_all cs s
   }"

text \<open>
  \<open>regs.write\<close> on the node of the switch.  Writing the identifier of a node
  goes through \<open>ProcessorNode::setNodeID\<close>, which also updates its cores.
\<close>

definition switch_write :: "nat \<Rightarrow> u32 \<Rightarrow> u32 \<Rightarrow> sys \<Rightarrow> (bool \<times> sys) option" where
  "switch_write n regNum data s = do {
     let sw = sy_switches s n;
     (ack, nd, regs') \<leftarrow> ctrl_write (unat regNum) data (net_node (sy_net s) n) (sw_regs sw);
     let s = set_node n nd (set_switch n (sw\<lparr>sw_regs := regs'\<rparr>) s);
     s \<leftarrow> (case nd_cores nd of
           None \<Rightarrow> Some s
         | Some cs \<Rightarrow> if ack \<and> unat regNum = REG_NODE_ID then updateIDs_all cs s else Some s);
     Some (ack, s)
   }"

fun send_tokens :: "addr \<Rightarrow> ticks_t \<Rightarrow> token list \<Rightarrow> sys \<Rightarrow> sys option" where
  "send_tokens c tm [] s = Some s"
| "send_tokens c tm (t # ts) s = do {
     s \<leftarrow> (if isControl t then Chanend_receiveCtrlToken c tm (getValue t) s
            else Chanend_receiveDataToken c tm (getValue t) s);
     send_tokens c tm ts s
   }"

text \<open>
  The response is sent to the channel end the request names; a channel end
  identifier never leads to another system switch.
\<close>

definition send_response :: "nat \<Rightarrow> ticks_t \<Rightarrow> addr \<Rightarrow> token list \<Rightarrow> sys \<Rightarrow> sys option" where
  "send_response n tm c ts s = do {
     let (opened, junk, s) = claim (Ep_chanend c) (Ep_switch n) False s;
     assert_that opened;
     if junk then Some s
     else do {
       let sw = sy_switches s n;
       let s = set_switch n (sw\<lparr>sw_sendingResponse := True,
                 sw_buf := ts @ drop (length ts) (sw_buf sw)\<rparr>) s;
       assert_that (of_nat (length ts) \<le> rb_remaining (ce_buf (sy_chanends s c)));
       s \<leftarrow> send_tokens c tm ts s;
       Some (set_switch n ((sy_switches s n)\<lparr>sw_sendingResponse := False\<rparr>) s)
     }
   }"

definition handleRequest :: "nat \<Rightarrow> ticks_t \<Rightarrow> request \<Rightarrow> sys \<Rightarrow> sys option" where
  "handleRequest n tm r s = do {
     let destID = chanendID (ucast (rq_returnNum r)) (rq_returnNode r);
     (ack, v, s) \<leftarrow>
       (if nd_nodeID (net_node (sy_net s) n) \<noteq> ucast (rq_returnNode r) then Some (True, 0, s)
        else if rq_write r then do {
          (ack, s) \<leftarrow> switch_write n (rq_regNum r) (rq_data r) s;
          Some (ack, 0, s)
        }
        else do {
          result \<leftarrow> ctrl_read (sy_net s) (net_node (sy_net s) n) (sw_regs (sy_switches s n))
            (unat (rq_regNum r));
          Some (result \<noteq> None, (case result of None \<Rightarrow> 0 | Some v \<Rightarrow> v), s)
        });
     dest \<leftarrow> getOutgoingChanendDest (sy_net s) n destID;
     (case dest of
        None \<Rightarrow> Some s
      | Some (Ep_chanend c) \<Rightarrow> send_response n tm c (response_tokens ack (rq_write r) v) s
      | Some (Ep_switch m) \<Rightarrow> None)
   }"

definition SSwitch_receiveCtrlToken :: "nat \<Rightarrow> ticks_t \<Rightarrow> u8 \<Rightarrow> sys \<Rightarrow> sys option" where
  "SSwitch_receiveCtrlToken n tm v s =
     (if v = CT_END then do {
        let sw = sy_switches s n;
        s \<leftarrow> (if sw_junkIncomingTokens sw then Some s
               else (case parseRequest sw of
                   None \<Rightarrow> Some s
                 | Some r \<Rightarrow> handleRequest n tm r s));
        release (Ep_switch n) tm (set_switch n
          ((sy_switches s n)\<lparr>sw_recievedTokens := 0, sw_junkIncomingTokens := False\<rparr>) s)
      }
      else if v = CT_PAUSE then release (Ep_switch n) tm s
      else do {
        sw \<leftarrow> switch_token (Token v True) (sy_switches s n);
        Some (set_switch n sw s)
      })"

subsection \<open>Endpoints\<close>

definition canAcceptToken :: "endpoint \<Rightarrow> sys \<Rightarrow> bool" where
  "canAcceptToken d s = (case d of
      Ep_chanend c \<Rightarrow> \<not> rb_full (ce_buf (sy_chanends s c))
    | Ep_switch n \<Rightarrow> \<not> sw_sendingResponse (sy_switches s n))"

definition canAcceptTokens :: "endpoint \<Rightarrow> u32 \<Rightarrow> sys \<Rightarrow> bool" where
  "canAcceptTokens d n s = (case d of
      Ep_chanend c \<Rightarrow> n \<le> rb_remaining (ce_buf (sy_chanends s c))
    | Ep_switch m \<Rightarrow> \<not> sw_sendingResponse (sy_switches s m))"

definition receiveDataToken :: "endpoint \<Rightarrow> ticks_t \<Rightarrow> u8 \<Rightarrow> sys \<Rightarrow> sys option" where
  "receiveDataToken d tm v s = (case d of
      Ep_chanend c \<Rightarrow> Chanend_receiveDataToken c tm v s
    | Ep_switch n \<Rightarrow> do {
        sw \<leftarrow> switch_token (Token v False) (sy_switches s n);
        Some (set_switch n sw s)
      })"

definition receiveDataTokens :: "endpoint \<Rightarrow> ticks_t \<Rightarrow> u8 list \<Rightarrow> sys \<Rightarrow> sys option" where
  "receiveDataTokens d tm vs s = (case d of
      Ep_chanend c \<Rightarrow> Chanend_receiveDataTokens c tm vs s
    | Ep_switch n \<Rightarrow> do {
        sw \<leftarrow> switch_tokens vs (sy_switches s n);
        Some (set_switch n sw s)
      })"

definition receiveCtrlToken :: "endpoint \<Rightarrow> ticks_t \<Rightarrow> u8 \<Rightarrow> sys \<Rightarrow> sys option" where
  "receiveCtrlToken d tm v s = (case d of
      Ep_chanend c \<Rightarrow> Chanend_receiveCtrlToken c tm v s
    | Ep_switch n \<Rightarrow> SSwitch_receiveCtrlToken n tm v s)"

subsection \<open>Allocation\<close>

definition Chanend_alloc :: "addr \<Rightarrow> addr \<Rightarrow> sys \<Rightarrow> sys option" where
  "Chanend_alloc c a s = do {
     assert_that (\<not> er_inUse (sy_ev s (Res_chanend c)));
     let s = set_chanend c ((sy_chanends s c)\<lparr>ce_dest := None, ce_pausedOut := None,
               ce_pausedIn := None, ce_inPacket := False, ce_junkPacket := False\<rparr>) s;
     s \<leftarrow> eventableSetInUseOn (Res_chanend c) a s;
     Some (set_endpoint (Ep_chanend c)
       ((sy_endpoints s (Ep_chanend c))\<lparr>ep_junkIncoming := False\<rparr>) s)
   }"

definition Chanend_free :: "addr \<Rightarrow> sys \<Rightarrow> (bool \<times> sys) option" where
  "Chanend_free c s = (
     let x = sy_chanends s c in
     if \<not> rb_empty (ce_buf x) \<or> ep_source (sy_endpoints s (Ep_chanend c)) \<noteq> None \<or> ce_inPacket x
     then Some (False, s)
     else do {
       s \<leftarrow> eventableSetInUseOff (Res_chanend c) s;
       Some (True, set_endpoint (Ep_chanend c)
         ((sy_endpoints s (Ep_chanend c))\<lparr>ep_junkIncoming := True\<rparr>) s)
     })"

subsection \<open>Output\<close>

datatype ResOpResult = Op_continue | Op_deschedule | Op_illegal

definition openRoute :: "addr \<Rightarrow> sys \<Rightarrow> (bool \<times> sys) option" where
  "openRoute c s = (
     let x = sy_chanends s c in
     if ce_inPacket x then Some (True, s)
     else do {
       owner \<leftarrow> er_owner (sy_ev s (Res_chanend c));
       dest \<leftarrow> getChanendDest (sy_net s) (fst owner) (ce_destID x);
       (case dest of
          None \<Rightarrow> Some (True, set_chanend c
            (x\<lparr>ce_dest := None, ce_junkPacket := True, ce_inPacket := True\<rparr>) s)
        | Some d \<Rightarrow>
            let (opened, junk, s) = claim d (Ep_chanend c) (ce_junkPacket x) s in
            Some (opened, set_chanend c
              (x\<lparr>ce_dest := dest, ce_junkPacket := junk, ce_inPacket := opened\<rparr>) s))
     })"

definition pause_out :: "addr \<Rightarrow> addr \<Rightarrow> sys \<Rightarrow> (ResOpResult \<times> sys) option" where
  "pause_out c a s = Some (Op_deschedule,
     set_chanend c ((sy_chanends s c)\<lparr>ce_pausedOut := Some a\<rparr>) s)"

definition Chanend_outt :: "addr \<Rightarrow> addr \<Rightarrow> u8 \<Rightarrow> ticks_t \<Rightarrow> sys \<Rightarrow> (ResOpResult \<times> sys) option" where
  "Chanend_outt c a v tm s = do {
     (opened, s) \<leftarrow> openRoute c s;
     if \<not> opened then pause_out c a s
     else if ce_junkPacket (sy_chanends s c) then Some (Op_continue, s)
     else do {
       d \<leftarrow> ce_dest (sy_chanends s c);
       if \<not> canAcceptToken d s then pause_out c a s
       else do {
         s \<leftarrow> receiveDataToken d tm v s;
         Some (Op_continue, s)
       }
     }
   }"

definition Chanend_out :: "addr \<Rightarrow> addr \<Rightarrow> u32 \<Rightarrow> ticks_t \<Rightarrow> sys \<Rightarrow> (ResOpResult \<times> sys) option" where
  "Chanend_out c a v tm s = do {
     (opened, s) \<leftarrow> openRoute c s;
     if \<not> opened then pause_out c a s
     else if ce_junkPacket (sy_chanends s c) then Some (Op_continue, s)
     else do {
       d \<leftarrow> ce_dest (sy_chanends s c);
       if \<not> canAcceptTokens d 4 s then pause_out c a s
       else do {
         s \<leftarrow> receiveDataTokens d tm
           [ucast (drop_bit 24 v), ucast (drop_bit 16 v), ucast (drop_bit 8 v), ucast v] s;
         Some (Op_continue, s)
       }
     }
   }"

definition Chanend_outct :: "addr \<Rightarrow> addr \<Rightarrow> u8 \<Rightarrow> ticks_t \<Rightarrow> sys \<Rightarrow> (ResOpResult \<times> sys) option" where
  "Chanend_outct c a v tm s = do {
     let last = (v = CT_END \<or> v = CT_PAUSE);
     (opened, s) \<leftarrow> openRoute c s;
     if \<not> opened then pause_out c a s
     else if ce_junkPacket (sy_chanends s c)
     then Some (Op_continue, if last
       then set_chanend c ((sy_chanends s c)\<lparr>ce_inPacket := False, ce_junkPacket := False\<rparr>) s else s)
     else do {
       d \<leftarrow> ce_dest (sy_chanends s c);
       if \<not> canAcceptToken d s then pause_out c a s
       else do {
         s \<leftarrow> receiveCtrlToken d tm v s;
         Some (Op_continue, if last
           then set_chanend c ((sy_chanends s c)\<lparr>ce_inPacket := False, ce_dest := None\<rparr>) s else s)
       }
     }
   }"

definition Chanend_setData :: "addr \<Rightarrow> u32 \<Rightarrow> sys \<Rightarrow> bool \<times> sys" where
  "Chanend_setData c v s = (
     let x = sy_chanends s c in
     if ce_inPacket x then (False, s)
     else if res_type v \<noteq> RES_TYPE_CHANEND \<and> res_type v \<noteq> RES_TYPE_CONFIG then (False, s)
     else (True, set_chanend c (x\<lparr>ce_destID := v\<rparr>) s))"

subsection \<open>Input\<close>

definition setPausedIn :: "addr \<Rightarrow> addr \<Rightarrow> bool \<Rightarrow> sys \<Rightarrow> sys" where
  "setPausedIn c a wordInput s =
     set_chanend c ((sy_chanends s c)\<lparr>ce_pausedIn := Some a, ce_waitForWord := wordInput\<rparr>) s"

text \<open>\<open>None\<close> inside the result: there is no token, and the thread is to be paused.\<close>

definition Chanend_testct :: "addr \<Rightarrow> addr \<Rightarrow> sys \<Rightarrow> (bool option \<times> sys) option" where
  "Chanend_testct c a s = do {
     s \<leftarrow> updateOwner (Res_chanend c) a s;
     let b = ce_buf (sy_chanends s c);
     if rb_empty b then Some (None, setPausedIn c a False s)
     else Some (Some (isControl (rb_front b)), s)
   }"

fun first_control :: "token ring_buffer \<Rightarrow> u32 \<Rightarrow> nat \<Rightarrow> u32 option" where
  "first_control b i 0 = None"
| "first_control b i (Suc n) =
     (if isControl (rb_at b i) then Some (i + 1) else first_control b (i + 1) n)"

definition Chanend_testwct :: "addr \<Rightarrow> addr \<Rightarrow> sys \<Rightarrow> (u32 option \<times> sys) option" where
  "Chanend_testwct c a s = do {
     s \<leftarrow> updateOwner (Res_chanend c) a s;
     let b = ce_buf (sy_chanends s c);
     (case first_control b 0 (unat (min (rb_size b) 4)) of
        Some position \<Rightarrow> Some (Some position, s)
      | None \<Rightarrow> if rb_size b < 4 then Some (None, setPausedIn c a True s) else Some (Some 0, s))
   }"

text \<open>The notification of the source after tokens have been taken from the buffer.\<close>

definition notify_source :: "addr \<Rightarrow> ticks_t \<Rightarrow> sys \<Rightarrow> sys option" where
  "notify_source c tm s = (case ep_source (sy_endpoints s (Ep_chanend c)) of
      None \<Rightarrow> Some s
    | Some d \<Rightarrow> notify d tm s)"

definition poptoken :: "addr \<Rightarrow> ticks_t \<Rightarrow> sys \<Rightarrow> (u8 \<times> sys) option" where
  "poptoken c tm s = do {
     let x = sy_chanends s c;
     assert_that (\<not> rb_empty (ce_buf x));
     let v = getValue (rb_front (ce_buf x));
     s \<leftarrow> notify_source c tm (set_chanend c (x\<lparr>ce_buf := rb_pop_front (ce_buf x)\<rparr>) s);
     Some (v, s)
   }"

type_synonym input_result = "(ResOpResult \<times> u32 \<times> sys) option"

definition Chanend_intoken :: "addr \<Rightarrow> addr \<Rightarrow> ticks_t \<Rightarrow> sys \<Rightarrow> input_result" where
  "Chanend_intoken c a tm s = do {
     (r, s) \<leftarrow> Chanend_testct c a s;
     (case r of
        None \<Rightarrow> Some (Op_deschedule, 0, s)
      | Some True \<Rightarrow> Some (Op_illegal, 0, s)
      | Some False \<Rightarrow> do {
          (v, s) \<leftarrow> poptoken c tm s;
          Some (Op_continue, ucast v, s)
        })
   }"

definition Chanend_inct :: "addr \<Rightarrow> addr \<Rightarrow> ticks_t \<Rightarrow> sys \<Rightarrow> input_result" where
  "Chanend_inct c a tm s = do {
     (r, s) \<leftarrow> Chanend_testct c a s;
     (case r of
        None \<Rightarrow> Some (Op_deschedule, 0, s)
      | Some False \<Rightarrow> Some (Op_illegal, 0, s)
      | Some True \<Rightarrow> do {
          (v, s) \<leftarrow> poptoken c tm s;
          Some (Op_continue, ucast v, s)
        })
   }"

definition Chanend_chkct :: "addr \<Rightarrow> addr \<Rightarrow> ticks_t \<Rightarrow> u32 \<Rightarrow> sys \<Rightarrow> (ResOpResult \<times> sys) option" where
  "Chanend_chkct c a tm v s = do {
     (r, s) \<leftarrow> Chanend_testct c a s;
     (case r of
        None \<Rightarrow> Some (Op_deschedule, s)
      | Some isCt \<Rightarrow>
          if \<not> isCt \<or> ucast (getValue (rb_front (ce_buf (sy_chanends s c)))) \<noteq> v
          then Some (Op_illegal, s)
          else do {
            (_, s) \<leftarrow> poptoken c tm s;
            Some (Op_continue, s)
          })
   }"

definition Chanend_in :: "addr \<Rightarrow> addr \<Rightarrow> ticks_t \<Rightarrow> sys \<Rightarrow> input_result" where
  "Chanend_in c a tm s = do {
     (r, s) \<leftarrow> Chanend_testwct c a s;
     (case r of
        None \<Rightarrow> Some (Op_deschedule, 0, s)
      | Some position \<Rightarrow>
          if position \<noteq> 0 then Some (Op_illegal, 0, s)
          else do {
            let x = sy_chanends s c;
            let b = ce_buf x;
            let v = be32 (getValue (rb_at b 0)) (getValue (rb_at b 1)) (getValue (rb_at b 2))
                      (getValue (rb_at b 3));
            s \<leftarrow> notify_source c tm (set_chanend c (x\<lparr>ce_buf := rb_pop_front_num 4 b\<rparr>) s);
            Some (Op_continue, v, s)
          })
   }"

end
