(* ===== verification/ResourceOps.thy ===== *)
theory ResourceOps
  imports Chan
begin

text \<open>
  The other resources of a core, \<open>Lock\<close>, \<open>Timer\<close> and \<open>Synchroniser\<close>, and the
  operations on resources in general: allocation (\<open>Core::allocResource\<close>),
  lookup by identifier, the virtual member functions of \<open>Resource\<close>, and
  \<open>Thread::setC\<close>.
\<close>

subsection \<open>Locks\<close>

definition Lock_alloc :: "addr \<Rightarrow> sys \<Rightarrow> sys option" where
  "Lock_alloc k s = do {
     assert_that (\<not> lk_inUse (sy_locks s k));
     Some (set_lock k \<lparr>lk_inUse = True, lk_held = False, lk_threads = []\<rparr> s)
   }"

definition Lock_out :: "addr \<Rightarrow> ticks_t \<Rightarrow> sys \<Rightarrow> (ResOpResult \<times> sys) option" where
  "Lock_out k tm s = (
     let x = sy_locks s k in
     case lk_threads x of
       n # ns \<Rightarrow> do {
         let s = set_lock k (x\<lparr>lk_threads := ns\<rparr>) s;
         let t = sy_threads s n;
         let t = (if time t < tm then t\<lparr>time := tm\<rparr> else t);
         s \<leftarrow> schedule n (set_thread n (getNextPC (sy_cores s (fst n)) t) s);
         Some (Op_continue, s)
       }
     | [] \<Rightarrow> Some (Op_continue, set_lock k (x\<lparr>lk_held := False\<rparr>) s))"

definition Lock_in :: "addr \<Rightarrow> addr \<Rightarrow> sys \<Rightarrow> input_result" where
  "Lock_in k a s = (
     let x = sy_locks s k in
     if \<not> lk_held x
     then Some (Op_continue, resID RES_TYPE_LOCK (of_nat (snd k)), set_lock k (x\<lparr>lk_held := True\<rparr>) s)
     else Some (Op_deschedule, 0, set_lock k (x\<lparr>lk_threads := lk_threads x @ [a]\<rparr>) s))"

subsection \<open>Timers\<close>

definition Timer_alloc :: "addr \<Rightarrow> addr \<Rightarrow> sys \<Rightarrow> sys option" where
  "Timer_alloc k a s = do {
     assert_that (\<not> er_inUse (sy_ev s (Res_timer k)));
     eventableSetInUseOn (Res_timer k) a
       (set_timer k ((sy_timers s k)\<lparr>tm_after := False, tm_data := 0\<rparr>) s)
   }"

datatype Condition = COND_FULL | COND_AFTER | COND_EQ | COND_NEQ

definition Timer_setCondition :: "addr \<Rightarrow> addr \<Rightarrow> Condition \<Rightarrow> sys \<Rightarrow> (bool \<times> sys) option" where
  "Timer_setCondition k a c s = do {
     s \<leftarrow> updateOwner (Res_timer k) a s;
     Some (case c of
         COND_FULL \<Rightarrow> (True, set_timer k ((sy_timers s k)\<lparr>tm_after := False\<rparr>) s)
       | COND_AFTER \<Rightarrow> (True, set_timer k ((sy_timers s k)\<lparr>tm_after := True\<rparr>) s)
       | _ \<Rightarrow> (False, s))
   }"

definition Timer_setData :: "addr \<Rightarrow> addr \<Rightarrow> u32 \<Rightarrow> sys \<Rightarrow> sys option" where
  "Timer_setData k a d s = do {
     s \<leftarrow> updateOwner (Res_timer k) a s;
     Some (set_timer k ((sy_timers s k)\<lparr>tm_data := d\<rparr>) s)
   }"

definition Timer_in :: "addr \<Rightarrow> addr \<Rightarrow> ticks_t \<Rightarrow> sys \<Rightarrow> input_result" where
  "Timer_in k a tm s = do {
     s \<leftarrow> updateOwner (Res_timer k) a s;
     met \<leftarrow> conditionMet (sy_timers s k) tm;
     if \<not> met then do {
       let s = set_timer k ((sy_timers s k)\<lparr>tm_pausedIn := Some a\<rparr>) s;
       ready \<leftarrow> getEarliestReadyTime (sy_timers s k) tm;
       s \<leftarrow> scheduleUpdate (Res_timer k) ready s;
       Some (Op_deschedule, 0, s)
     }
     else Some (Op_continue, ucast (tm div CYCLES_PER_TICK), s)
   }"

definition Timer_run :: "addr \<Rightarrow> ticks_t \<Rightarrow> sys \<Rightarrow> sys option" where
  "Timer_run k tm s = do {
     met \<leftarrow> conditionMet (sy_timers s k) tm;
     if \<not> met then Some s
     else do {
       s \<leftarrow> (if eventsPermitted (Res_timer k) s then event (Res_timer k) tm s else Some s);
       (case tm_pausedIn (sy_timers s k) of
          None \<Rightarrow> Some s
        | Some a \<Rightarrow> do {
            s \<leftarrow> wake a tm s;
            Some (set_timer k ((sy_timers s k)\<lparr>tm_pausedIn := None\<rparr>) s)
          })
     }
   }"

subsection \<open>Synchronisers\<close>

abbreviation (input) NUM_THREADS :: nat where "NUM_THREADS \<equiv> 8"

definition Sync_alloc :: "addr \<Rightarrow> addr \<Rightarrow> sys \<Rightarrow> sys option" where
  "Sync_alloc y master s = do {
     assert_that (\<not> sn_inUse (sy_syncs s y));
     Some (set_sync y \<lparr>sn_inUse = True, sn_threads = [master], sn_NumPaused = 0, sn_join = False\<rparr> s)
   }"

definition addChild :: "addr \<Rightarrow> addr \<Rightarrow> sys \<Rightarrow> sys option" where
  "addChild y a s = do {
     let x = sy_syncs s y;
     assert_that (length (sn_threads x) + 1 \<le> NUM_THREADS);
     Some (set_sync y (x\<lparr>sn_threads := sn_threads x @ [a], sn_NumPaused := sn_NumPaused x + 1\<rparr>) s)
   }"

text \<open>There is always a master, at the first index.\<close>

definition MaxThreadTime :: "addr \<Rightarrow> sys \<Rightarrow> ticks_t" where
  "MaxThreadTime y s = (case sn_threads (sy_syncs s y) of
      [] \<Rightarrow> 0
    | m # ts \<Rightarrow> fold (\<lambda>a t. max t (time (sy_threads s a))) ts (time (sy_threads s m)))"

datatype SyncResult = SYNC_CONTINUE | SYNC_DESCHEDULE | SYNC_KILL

text \<open>The loop that wakes the threads of a barrier; \<open>isFirst\<close> marks index 0.\<close>

fun wake_threads :: "addr \<Rightarrow> ticks_t \<Rightarrow> bool \<Rightarrow> addr list \<Rightarrow> sys \<Rightarrow> sys option" where
  "wake_threads cur newTime isFirst [] s = Some s"
| "wake_threads cur newTime isFirst (a # as) s = do {
     let s = set_thread a ((sy_threads s a)\<lparr>time := newTime\<rparr>) s;
     s \<leftarrow> (if a \<noteq> cur then
              let t = sy_threads s a;
                  t = (if isFirst then t else setSSync False t) in
              schedule a (set_thread a (t\<lparr>pc := pc t + 1\<rparr>) s)
            else Some s);
     wake_threads cur newTime False as s
   }"

definition free_threads :: "addr list \<Rightarrow> sys \<Rightarrow> sys" where
  "free_threads as s = fold (\<lambda>a s. set_thread a (Thread_free (sy_threads s a)) s) as s"

definition Sync_sync :: "addr \<Rightarrow> addr \<Rightarrow> bool \<Rightarrow> sys \<Rightarrow> (SyncResult \<times> sys) option" where
  "Sync_sync y a isMaster s = (
     let x = sy_syncs s y in
     if sn_NumPaused x + 1 < of_nat (length (sn_threads x)) then
       let s = set_sync y (x\<lparr>sn_NumPaused := sn_NumPaused x + 1\<rparr>) s;
           s = (if \<not> isMaster then set_thread a (setSSync True (sy_threads s a)) s else s) in
       Some (SYNC_DESCHEDULE, s)
     else do {
       let newTime = MaxThreadTime y s;
       let s = set_sync y (x\<lparr>sn_NumPaused := 0\<rparr>) s;
       if \<not> sn_join x then do {
         s \<leftarrow> wake_threads a newTime True (sn_threads x) s;
         Some (SYNC_CONTINUE, s)
       }
       else (case sn_threads x of
           [] \<Rightarrow> None
         | m # ts \<Rightarrow> do {
             let s = set_thread m ((sy_threads s m)\<lparr>time := newTime\<rparr>) s;
             (r, s) \<leftarrow>
               (if isMaster then Some (SYNC_CONTINUE, free_threads ts s)
                else do {
                  s \<leftarrow> schedule m s;
                  Some (SYNC_KILL, free_threads (filter (\<lambda>b. b \<noteq> a) ts) s)
                });
             let x = sy_syncs s y;
             Some (r, set_sync y (x\<lparr>sn_join := False, sn_threads := take 1 (sn_threads x)\<rparr>) s)
           })
     })"

definition ssync_op :: "addr \<Rightarrow> addr \<Rightarrow> sys \<Rightarrow> (SyncResult \<times> sys) option" where
  "ssync_op y a s = Sync_sync y a False s"

definition msync :: "addr \<Rightarrow> addr \<Rightarrow> sys \<Rightarrow> (SyncResult \<times> sys) option" where
  "msync y a s = Sync_sync y a True s"

definition mjoin :: "addr \<Rightarrow> addr \<Rightarrow> sys \<Rightarrow> (SyncResult \<times> sys) option" where
  "mjoin y a s = Sync_sync y a True (set_sync y ((sy_syncs s y)\<lparr>sn_join := True\<rparr>) s)"

subsection \<open>Resources of a core\<close>

text \<open>\<open>resourceNum\<close> of the types that have one object per number.\<close>

definition resourceNum :: "u32 \<Rightarrow> nat" where
  "resourceNum ty =
     (if ty = RES_TYPE_TIMER then 10 else if ty = RES_TYPE_CHANEND then 32
      else if ty = RES_TYPE_SYNC then 8 else if ty = RES_TYPE_THREAD then NUM_THREADS
      else if ty = RES_TYPE_LOCK then 4 else if ty = RES_TYPE_CLKBLK then 6 else 0)"

definition resource :: "u32 \<Rightarrow> addr \<Rightarrow> res" where
  "resource ty a =
     (if ty = RES_TYPE_TIMER then Res_timer a else if ty = RES_TYPE_CHANEND then Res_chanend a
      else if ty = RES_TYPE_SYNC then Res_sync a else if ty = RES_TYPE_THREAD then Res_thread a
      else if ty = RES_TYPE_LOCK then Res_lock a else Res_other (resID ty (of_nat (snd a))))"

definition portNum :: "u32 \<Rightarrow> u32" where
  "portNum w = (if w = 1 then 16 else if w = 4 then 6 else if w = 8 then 4
     else if w = 16 then 4 else if w = 32 then 2 else 0)"

definition getResourceByID :: "nat \<Rightarrow> u32 \<Rightarrow> res option option" where
  "getResourceByID core i = (
     let ty = res_type i in
     if LAST_STD_RES_TYPE < ty then Some None
     else if ty = RES_TYPE_PORT then do {
       w \<leftarrow> res_width i;
       Some (if 32 < w \<or> portNum w \<le> res_num i then None else Some (Res_other i))
     }
     else if resourceNum ty \<le> unat (res_num i) then Some None
     else Some (Some (resource ty (core, unat (res_num i)))))"

definition isInUse :: "res \<Rightarrow> sys \<Rightarrow> bool option" where
  "isInUse r s = (case r of
      Res_thread a \<Rightarrow> Some (inUse (sy_threads s a))
    | Res_chanend a \<Rightarrow> Some (er_inUse (sy_ev s r))
    | Res_timer a \<Rightarrow> Some (er_inUse (sy_ev s r))
    | Res_lock a \<Rightarrow> Some (lk_inUse (sy_locks s a))
    | Res_sync a \<Rightarrow> Some (sn_inUse (sy_syncs s a))
    | Res_other i \<Rightarrow> None)"

definition getID :: "res \<Rightarrow> sys \<Rightarrow> u32" where
  "getID r s = (case r of
      Res_thread a \<Rightarrow> resID RES_TYPE_THREAD (of_nat (snd a))
    | Res_chanend a \<Rightarrow> er_ID (sy_ev s r)
    | Res_timer a \<Rightarrow> er_ID (sy_ev s r)
    | Res_lock a \<Rightarrow> resID RES_TYPE_LOCK (of_nat (snd a))
    | Res_sync a \<Rightarrow> resID RES_TYPE_SYNC (of_nat (snd a))
    | Res_other i \<Rightarrow> i)"

definition checkResource :: "nat \<Rightarrow> u32 \<Rightarrow> sys \<Rightarrow> res option option" where
  "checkResource core i s = do {
     res \<leftarrow> getResourceByID core i;
     (case res of
        None \<Rightarrow> Some None
      | Some r \<Rightarrow> do {
          used \<leftarrow> isInUse r s;
          Some (if used then Some r else None)
        })
   }"

definition isEventable :: "res \<Rightarrow> bool" where
  "isEventable r = (case r of Res_chanend a \<Rightarrow> True | Res_timer a \<Rightarrow> True | _ \<Rightarrow> False)"

text \<open>
  \<open>alloc\<close> is a virtual function; a resource that is not modelled is never
  reached since its type is not allocatable.
\<close>

definition res_alloc :: "res \<Rightarrow> addr \<Rightarrow> sys \<Rightarrow> sys option" where
  "res_alloc r cur s = (case r of
      Res_thread a \<Rightarrow> do {
        t \<leftarrow> Thread_alloc (time (sy_threads s cur)) (sy_threads s a);
        Some (set_thread a t s)
      }
    | Res_chanend a \<Rightarrow> Chanend_alloc a cur s
    | Res_timer a \<Rightarrow> Timer_alloc a cur s
    | Res_lock a \<Rightarrow> Lock_alloc a s
    | Res_sync a \<Rightarrow> Sync_alloc a cur s
    | Res_other i \<Rightarrow> None)"

definition allocatable :: "u32 \<Rightarrow> bool" where
  "allocatable ty \<longleftrightarrow> ty \<noteq> RES_TYPE_PORT \<and> ty \<noteq> RES_TYPE_CLKBLK"

fun alloc_first :: "addr \<Rightarrow> u32 \<Rightarrow> nat list \<Rightarrow> sys \<Rightarrow> (res option \<times> sys) option" where
  "alloc_first cur ty [] s = Some (None, s)"
| "alloc_first cur ty (i # is) s = do {
     let r = resource ty (fst cur, i);
     used \<leftarrow> isInUse r s;
     if \<not> used then do {
       s \<leftarrow> res_alloc r cur s;
       Some (Some r, s)
     }
     else alloc_first cur ty is s
   }"

definition allocResource :: "addr \<Rightarrow> u32 \<Rightarrow> sys \<Rightarrow> (res option \<times> sys) option" where
  "allocResource cur ty s =
     (if LAST_STD_RES_TYPE < ty \<or> \<not> allocatable ty then Some (None, s)
      else alloc_first cur ty [0 ..< resourceNum ty] s)"

definition res_free :: "res \<Rightarrow> sys \<Rightarrow> (bool \<times> sys) option" where
  "res_free r s = (case r of
      Res_thread a \<Rightarrow> Some (True, set_thread a (Thread_free (sy_threads s a)) s)
    | Res_chanend a \<Rightarrow> Chanend_free a s
    | Res_timer a \<Rightarrow> do {
        s \<leftarrow> eventableSetInUseOff r s;
        Some (True, s)
      }
    | Res_lock a \<Rightarrow> Some (True, set_lock a ((sy_locks s a)\<lparr>lk_inUse := False\<rparr>) s)
    | Res_sync a \<Rightarrow> Some (True, set_sync a ((sy_syncs s a)\<lparr>sn_inUse := False\<rparr>) s)
    | Res_other i \<Rightarrow> None)"

definition res_in :: "res \<Rightarrow> addr \<Rightarrow> ticks_t \<Rightarrow> sys \<Rightarrow> input_result" where
  "res_in r a tm s = (case r of
      Res_chanend c \<Rightarrow> Chanend_in c a tm s
    | Res_timer k \<Rightarrow> Timer_in k a tm s
    | Res_lock k \<Rightarrow> Lock_in k a s
    | Res_other i \<Rightarrow> None
    | _ \<Rightarrow> Some (Op_illegal, 0, s))"

definition res_out :: "res \<Rightarrow> addr \<Rightarrow> u32 \<Rightarrow> ticks_t \<Rightarrow> sys \<Rightarrow> (ResOpResult \<times> sys) option" where
  "res_out r a v tm s = (case r of
      Res_chanend c \<Rightarrow> Chanend_out c a v tm s
    | Res_lock k \<Rightarrow> Lock_out k tm s
    | Res_other i \<Rightarrow> None
    | _ \<Rightarrow> Some (Op_illegal, s))"

definition res_setData :: "res \<Rightarrow> addr \<Rightarrow> u32 \<Rightarrow> sys \<Rightarrow> (bool \<times> sys) option" where
  "res_setData r a v s = (case r of
      Res_chanend c \<Rightarrow> Some (Chanend_setData c v s)
    | Res_timer k \<Rightarrow> do {
        s \<leftarrow> Timer_setData k a v s;
        Some (True, s)
      }
    | Res_other i \<Rightarrow> None
    | _ \<Rightarrow> Some (False, s))"

definition res_getData :: "res \<Rightarrow> addr \<Rightarrow> sys \<Rightarrow> (u32 option \<times> sys) option" where
  "res_getData r a s = (case r of
      Res_chanend c \<Rightarrow> Some (Some (ce_destID (sy_chanends s c)), s)
    | Res_timer k \<Rightarrow> do {
        s \<leftarrow> updateOwner r a s;
        Some (Some (tm_data (sy_timers s k)), s)
      }
    | Res_other i \<Rightarrow> None
    | _ \<Rightarrow> Some (None, s))"

subsection \<open>Resource control\<close>

definition setCCondition :: "u32 \<Rightarrow> Condition" where
  "setCCondition v = (if v = 0x9 then COND_AFTER else if v = 0x11 then COND_EQ
     else if v = 0x19 then COND_NEQ else COND_FULL)"

text \<open>
  The modes of \<open>setC\<close> that concern ports and clock blocks only: the resource
  is neither here, so the call fails.
\<close>

definition port_modes :: "u32 set" where
  "port_modes = {0x7, 0xf, 0x17, 0x1007, 0x100f, 0x2007, 0x200f, 0x3007, 0x300f, 0x3017,
     0x4007, 0x400f, 0x5007, 0x500f, 0x5017, 0x6007, 0x600f}"

definition setC :: "addr \<Rightarrow> u32 \<Rightarrow> u32 \<Rightarrow> sys \<Rightarrow> (bool \<times> sys) option" where
  "setC a i v s = do {
     res \<leftarrow> getResourceByID (fst a) i;
     (case res of
        None \<Rightarrow> Some (False, s)
      | Some (Res_other j) \<Rightarrow> None
      | Some r \<Rightarrow>
          if v = 0 \<or> v = 8 then Some (False, s)
          else do {
            used \<leftarrow> isInUse r s;
            if \<not> used then Some (False, s)
            else if v AND 7 = 7 \<and> (drop_bit 12 v AND 15) \<in> {7, 8, 9} then Some (False, s)
            else if v = 0x13 then Some (True, s)
            else if v = 0x2 \<or> v = 0xa then
              (if isEventable r then do {
                 s \<leftarrow> setInterruptMode r a (v = 0xa) s;
                 Some (True, s)
               }
               else Some (False, s))
            else if v = 0x1 \<or> v = 0x9 \<or> v = 0x11 \<or> v = 0x19 then
              (case r of
                 Res_timer k \<Rightarrow> Timer_setCondition k a (setCCondition v) s
               | _ \<Rightarrow> Some (False, s))
            else if v \<in> port_modes then Some (False, s)
            else None
          })
   }"

end
