(* ===== verification/ResourceInst.thy ===== *)
theory ResourceInst
  imports ResourceOps
begin

text \<open>
  The instructions that work on resources: the code strings of
  \<open>InstructionGen.cpp\<close> that theory Exec has no body for.  A code string ends
  by falling through to the write back of its operands, with an exception, or
  with \<open>%pause_on\<close> or \<open>%deschedule\<close>.  \<open>a\<close> is the executing thread.

  An instruction on a port finds its port through \<open>checkPort\<close>; every other
  resource makes it raise \<open>ET_ILLEGAL_RESOURCE\<close>.
\<close>

datatype rout =
  Rdone "u32 list" sys
| Rraise ExceptionType u32 sys
| Rpause res sys
| Rdeschedule sys

type_synonym rbody = "addr \<Rightarrow> u32 list \<Rightarrow> sys \<Rightarrow> rout option"

definition illegal_resource :: "u32 \<Rightarrow> sys \<Rightarrow> rout option" where
  "illegal_resource i s = Some (Rraise ET_ILLEGAL_RESOURCE i s)"

definition with_resource :: "addr \<Rightarrow> u32 \<Rightarrow> (res \<Rightarrow> rout option) \<Rightarrow> sys \<Rightarrow> rout option" where
  "with_resource a i k s = do {
     r \<leftarrow> checkResource (fst a) i s;
     (case r of None \<Rightarrow> illegal_resource i s | Some r \<Rightarrow> k r)
   }"

definition with_chanend :: "addr \<Rightarrow> u32 \<Rightarrow> (addr \<Rightarrow> rout option) \<Rightarrow> sys \<Rightarrow> rout option" where
  "with_chanend a i k s = with_resource a i
     (\<lambda>r. case r of Res_chanend c \<Rightarrow> k c | _ \<Rightarrow> illegal_resource i s) s"

definition with_sync :: "addr \<Rightarrow> u32 \<Rightarrow> (addr \<Rightarrow> rout option) \<Rightarrow> sys \<Rightarrow> rout option" where
  "with_sync a i k s = with_resource a i
     (\<lambda>r. case r of Res_sync y \<Rightarrow> k y | _ \<Rightarrow> illegal_resource i s) s"

definition with_thread :: "addr \<Rightarrow> u32 \<Rightarrow> (addr \<Rightarrow> rout option) \<Rightarrow> sys \<Rightarrow> rout option" where
  "with_thread a i k s = with_resource a i
     (\<lambda>r. case r of Res_thread b \<Rightarrow> k b | _ \<Rightarrow> illegal_resource i s) s"

definition with_eventable :: "addr \<Rightarrow> u32 \<Rightarrow> (res \<Rightarrow> rout option) \<Rightarrow> sys \<Rightarrow> rout option" where
  "with_eventable a i k s = with_resource a i
     (\<lambda>r. if isEventable r then k r else illegal_resource i s) s"

definition with_port :: "addr \<Rightarrow> u32 \<Rightarrow> sys \<Rightarrow> rout option" where
  "with_port a i s = with_resource a i (\<lambda>r. illegal_resource i s) s"

text \<open>A thread that is set up while it waits in its synchroniser.\<close>

definition with_stopped_thread :: "addr \<Rightarrow> u32 \<Rightarrow> (addr \<Rightarrow> rout option) \<Rightarrow> sys \<Rightarrow> rout option" where
  "with_stopped_thread a i k s = with_thread a i
     (\<lambda>b. if ssync (sy_threads s b) then k b else illegal_resource i s) s"

definition input_end :: "u32 list \<Rightarrow> u32 \<Rightarrow> res \<Rightarrow> ResOpResult \<times> u32 \<times> sys \<Rightarrow> rout option" where
  "input_end ops i r x = (case x of
      (Op_continue, v, s) \<Rightarrow> Some (Rdone (ops[0 := v]) s)
    | (Op_deschedule, v, s) \<Rightarrow> Some (Rpause r s)
    | (Op_illegal, v, s) \<Rightarrow> illegal_resource i s)"

definition output_end :: "u32 list \<Rightarrow> u32 \<Rightarrow> res \<Rightarrow> ResOpResult \<times> sys \<Rightarrow> rout option" where
  "output_end ops i r x = (case x of
      (Op_continue, s) \<Rightarrow> Some (Rdone ops s)
    | (Op_deschedule, s) \<Rightarrow> Some (Rpause r s)
    | (Op_illegal, s) \<Rightarrow> illegal_resource i s)"

definition sync_end :: "u32 list \<Rightarrow> addr \<Rightarrow> SyncResult \<times> sys \<Rightarrow> rout option" where
  "sync_end ops y x = (case x of
      (SYNC_CONTINUE, s) \<Rightarrow> Some (Rdone ops s)
    | (SYNC_DESCHEDULE, s) \<Rightarrow> Some (Rpause (Res_sync y) s)
    | (SYNC_KILL, s) \<Rightarrow> None)"

definition check_done :: "u32 list \<Rightarrow> u32 \<Rightarrow> bool \<times> sys \<Rightarrow> rout option" where
  "check_done ops i x = (case x of (ok, s) \<Rightarrow> if ok then Some (Rdone ops s) else illegal_resource i s)"

definition outct_body :: rbody where
  "outct_body a ops s = with_chanend a (ops ! 0) (\<lambda>c. do {
     x \<leftarrow> Chanend_outct c a (ucast (ops ! 1)) (time (sy_threads s a)) s;
     output_end ops (ops ! 0) (Res_chanend c) x
   }) s"

definition chkct_body :: rbody where
  "chkct_body a ops s = with_chanend a (ops ! 0) (\<lambda>c. do {
     x \<leftarrow> Chanend_chkct c a (time (sy_threads s a)) (ops ! 1) s;
     output_end ops (ops ! 0) (Res_chanend c) x
   }) s"

definition setc_body :: rbody where
  "setc_body a ops s = do {
     x \<leftarrow> setC a (ops ! 0) (ops ! 1) s;
     check_done ops (ops ! 0) x
   }"

text \<open>\<open>TSETR\<close>, and the instructions that set a register of a stopped thread.\<close>

definition write_other :: "addr \<Rightarrow> nat \<Rightarrow> u32 \<Rightarrow> u32 list \<Rightarrow> sys \<Rightarrow> rout option" where
  "write_other b n v ops s = do {
     t \<leftarrow> writeRegister n v (sy_threads s b);
     Some (Rdone ops (set_thread b t s))
   }"

definition tsetr_body :: rbody where
  "tsetr_body a ops s = with_thread a (ops ! 2) (\<lambda>b. write_other b (unat (ops ! 0)) (ops ! 1) ops s) s"

definition tinit_body :: "nat \<Rightarrow> rbody" where
  "tinit_body n a ops s = with_stopped_thread a (ops ! 1) (\<lambda>b. write_other b n (ops ! 0) ops s) s"

definition tinitpc_body :: rbody where
  "tinitpc_body a ops s = with_stopped_thread a (ops ! 1) (\<lambda>b.
     let newPc = thread_toPc (sy_threads s a) (ops ! 0);
         c = sy_cores s (fst a); t = sy_threads s b in
     Some (Rdone ops (set_thread b
       (if CHECK_PC c newPc then t\<lparr>pc := newPc - 1\<rparr>
        else t\<lparr>pc := getIllegalPCThreadAddr c, pendingPc := newPc\<rparr>) s))) s"

definition getst_body :: rbody where
  "getst_body a ops s = with_sync a (ops ! 1) (\<lambda>y. do {
     (r, s) \<leftarrow> allocResource a RES_TYPE_THREAD s;
     (case r of
        Some (Res_thread b) \<Rightarrow> do {
          s \<leftarrow> addChild y b s;
          t \<leftarrow> setSync y (sy_threads s b);
          Some (Rdone (ops[0 := getID (Res_thread b) s]) (set_thread b t s))
        }
      | _ \<Rightarrow> Some (Rdone (ops[0 := 0]) s))
   }) s"

definition event_body :: "bool \<Rightarrow> u32 \<Rightarrow> rbody" where
  "event_body enable i a ops s = with_eventable a i (\<lambda>r. do {
     s \<leftarrow> (if enable then eventEnable r a s else eventDisable r a s);
     Some (Rdone ops s)
   }) s"

definition wait_body :: rbody where
  "wait_body a ops s = do {
     (_, s) \<leftarrow> enableEvents a s;
     Some (Rdeschedule s)
   }"

text \<open>The instructions on channel ends, and then the other ones of this format.\<close>

definition rbody_2r_chan :: "op_2r \<Rightarrow> rbody" where
  "rbody_2r_chan i a ops s = (
     let tm = time (sy_threads s a) in
     case i of
       OUTCT_2r \<Rightarrow> outct_body a ops s
     | OUTT_2r \<Rightarrow> with_chanend a (ops ! 1) (\<lambda>c. do {
           x \<leftarrow> Chanend_outt c a (ucast (ops ! 0)) tm s;
           output_end ops (ops ! 1) (Res_chanend c) x
         }) s
     | INT_2r \<Rightarrow> with_chanend a (ops ! 1) (\<lambda>c. do {
           x \<leftarrow> Chanend_intoken c a tm s;
           input_end ops (ops ! 1) (Res_chanend c) x
         }) s
     | INCT_2r \<Rightarrow> with_chanend a (ops ! 1) (\<lambda>c. do {
           x \<leftarrow> Chanend_inct c a tm s;
           input_end ops (ops ! 1) (Res_chanend c) x
         }) s
     | CHKCT_2r \<Rightarrow> chkct_body a ops s
     | TESTCT_2r \<Rightarrow> with_chanend a (ops ! 1) (\<lambda>c. do {
           (r, s) \<leftarrow> Chanend_testct c a s;
           Some (case r of
               None \<Rightarrow> Rpause (Res_chanend c) s
             | Some isCt \<Rightarrow> Rdone (ops[0 := of_bool isCt]) s)
         }) s
     | TESTWCT_2r \<Rightarrow> with_chanend a (ops ! 1) (\<lambda>c. do {
           (r, s) \<leftarrow> Chanend_testwct c a s;
           Some (case r of
               None \<Rightarrow> Rpause (Res_chanend c) s
             | Some position \<Rightarrow> Rdone (ops[0 := position]) s)
         }) s
     | _ \<Rightarrow> None)"

definition rbody_2r :: "op_2r \<Rightarrow> rbody" where
  "rbody_2r i a ops s = (
     let tm = time (sy_threads s a) in
     case i of
       GETST_2r \<Rightarrow> getst_body a ops s
     | PEEK_2r \<Rightarrow> with_port a (ops ! 1) s
     | ENDIN_2r \<Rightarrow> with_port a (ops ! 1) s
     | SETPSC_2r \<Rightarrow> with_port a (ops ! 1) s
     | IN_2r \<Rightarrow> with_resource a (ops ! 1) (\<lambda>r. do {
           x \<leftarrow> res_in r a tm s;
           input_end ops (ops ! 1) r x
         }) s
     | OUT_2r \<Rightarrow> with_resource a (ops ! 1) (\<lambda>r. do {
           x \<leftarrow> res_out r a (ops ! 0) tm s;
           output_end ops (ops ! 1) r x
         }) s
     | TINITPC_2r \<Rightarrow> tinitpc_body a ops s
     | TINITDP_2r \<Rightarrow> tinit_body DP a ops s
     | TINITSP_2r \<Rightarrow> tinit_body SP a ops s
     | TINITCP_2r \<Rightarrow> tinit_body CP a ops s
     | SETD_2r \<Rightarrow> with_resource a (ops ! 1) (\<lambda>r. do {
           x \<leftarrow> res_setData r a (ops ! 0) s;
           check_done ops (ops ! 1) x
         }) s
     | EET_2r \<Rightarrow> event_body (ops ! 0 \<noteq> 0) (ops ! 1) a ops s
     | EEF_2r \<Rightarrow> event_body (ops ! 0 = 0) (ops ! 1) a ops s
     | INSHR_2r \<Rightarrow> with_port a (ops ! 1) s
     | OUTSHR_2r \<Rightarrow> with_port a (ops ! 1) s
     | GETTS_2r \<Rightarrow> with_port a (ops ! 1) s
     | SETPT_2r \<Rightarrow> with_port a (ops ! 1) s
     | _ \<Rightarrow> rbody_2r_chan i a ops s)"

definition rbody_rus :: "op_rus \<Rightarrow> rbody" where
  "rbody_rus i a ops s = (case i of
      GETR_rus \<Rightarrow>
        if LAST_STD_RES_TYPE < ops ! 1 then Some (Rdone (ops[0 := 1]) s)
        else do {
          (r, s) \<leftarrow> allocResource a (ops ! 1) s;
          Some (Rdone (ops[0 := (case r of None \<Rightarrow> 0 | Some r \<Rightarrow> getID r s)]) s)
        }
    | OUTCT_rus \<Rightarrow> outct_body a ops s
    | CHKCT_rus \<Rightarrow> chkct_body a ops s
    | _ \<Rightarrow> None)"

text \<open>
  \<open>Core::setRamBaseMultiple\<close> tells the threads of the core that the decode
  cache has moved.
\<close>

definition setps_body :: rbody where
  "setps_body a ops s = do {
     let c = sy_cores s (fst a);
     assert_that (\<not> (ops ! 1 = PS_RAM_BASE \<and> isInRam c (sy_threads s a)));
     (ok, c) \<leftarrow> setProcessorState (ops ! 1) (ops ! 0) c;
     let s = s\<lparr>sy_cores := (sy_cores s)(fst a := c)\<rparr>;
     let s = (if ops ! 1 = PS_RAM_BASE
              then fold (\<lambda>n s. set_thread (fst a, n)
                     (seeRamDecodeCacheChange c (sy_romdc s) (sy_threads s (fst a, n))) s)
                     [0 ..< NUM_THREADS] s
              else s);
     Some (if ok then Rdone ops s else Rraise ET_ILLEGAL_PS (ops ! 1) s)
   }"

definition rbody_l2r :: "op_l2r \<Rightarrow> rbody" where
  "rbody_l2r i a ops s = (case i of
      TINITLR_l2r \<Rightarrow> tinit_body LR a ops s
    | GETD_l2r \<Rightarrow> with_resource a (ops ! 1) (\<lambda>r. do {
          (v, s) \<leftarrow> res_getData r a s;
          (case v of
             None \<Rightarrow> illegal_resource (ops ! 1) s
           | Some v \<Rightarrow> Some (Rdone (ops[0 := v]) s))
        }) s
    | SETPS_l2r \<Rightarrow> setps_body a ops s
    | SETC_l2r \<Rightarrow> setc_body a ops s
    | SETCLK_l2r \<Rightarrow> with_resource a (ops ! 1) (\<lambda>r. illegal_resource (ops ! 1) s) s
    | SETTW_l2r \<Rightarrow> with_port a (ops ! 1) s
    | SETRDY_l2r \<Rightarrow> do {
        _ \<leftarrow> checkResource (fst a) (ops ! 1) s;
        _ \<leftarrow> checkResource (fst a) (ops ! 0) s;
        illegal_resource (ops ! 1) s
      }
    | TINITPC_l2r \<Rightarrow> tinitpc_body a ops s
    | TINITSP_l2r \<Rightarrow> tinit_body SP a ops s
    | _ \<Rightarrow> None)"

definition rbody_1r :: "op_1r \<Rightarrow> rbody" where
  "rbody_1r i a ops s = (case i of
      TSTART_1r \<Rightarrow> with_stopped_thread a (ops ! 0) (\<lambda>b.
          let t = sy_threads s b in
          if sync t \<noteq> None then illegal_resource (ops ! 0) s
          else do {
            s \<leftarrow> schedule b (set_thread b ((setSSync False t)\<lparr>pc := pc t + 1\<rparr>) s);
            Some (Rdone ops s)
          }) s
    | FREER_1r \<Rightarrow> with_resource a (ops ! 0) (\<lambda>r. do {
          x \<leftarrow> res_free r s;
          check_done ops (ops ! 0) x
        }) s
    | MSYNC_1r \<Rightarrow> with_sync a (ops ! 0) (\<lambda>y. do {
          x \<leftarrow> msync y a s;
          sync_end ops y x
        }) s
    | MJOIN_1r \<Rightarrow> with_sync a (ops ! 0) (\<lambda>y. do {
          x \<leftarrow> mjoin y a s;
          sync_end ops y x
        }) s
    | SETV_1r \<Rightarrow> with_eventable a (ops ! 0) (\<lambda>r. do {
          let target = thread_toPc (sy_threads s a) (ops ! 1);
          assert_that (CHECK_PC (sy_cores s (fst a)) target);
          s \<leftarrow> setVector r a target s;
          Some (Rdone ops s)
        }) s
    | SETEV_1r \<Rightarrow> with_eventable a (ops ! 0) (\<lambda>r. do {
          s \<leftarrow> setEV r a (ops ! 1) s;
          Some (Rdone ops s)
        }) s
    | EDU_1r \<Rightarrow> event_body False (ops ! 0) a ops s
    | EEU_1r \<Rightarrow> event_body True (ops ! 0) a ops s
    | WAITET_1r \<Rightarrow> if ops ! 0 \<noteq> 0 then wait_body a ops s else Some (Rdone ops s)
    | WAITEF_1r \<Rightarrow> if ops ! 0 = 0 then wait_body a ops s else Some (Rdone ops s)
    | SYNCR_1r \<Rightarrow> with_port a (ops ! 0) s
    | CLRPT_1r \<Rightarrow> with_port a (ops ! 0) s
    | _ \<Rightarrow> None)"

definition rbody_0r :: "op_0r \<Rightarrow> rbody" where
  "rbody_0r i a ops s = (
     let t = sy_threads s a in
     case i of
       FREET_0r \<Rightarrow> do {
         assert_that (sync t = None);
         Some (Rdeschedule (set_thread a (Thread_free t) s))
       }
     | CLRE_0r \<Rightarrow> do {
         s \<leftarrow> clre a s;
         Some (Rdone ops s)
       }
     | WAITEU_0r \<Rightarrow> wait_body a ops s
     | SSYNC_0r \<Rightarrow> (case sync t of
           None \<Rightarrow> Some (Rdeschedule s)
         | Some y \<Rightarrow> do {
             (r, s) \<leftarrow> ssync_op y a s;
             Some (case r of
                 SYNC_CONTINUE \<Rightarrow> Rdone ops s
               | SYNC_DESCHEDULE \<Rightarrow> Rpause (Res_sync y) s
               | SYNC_KILL \<Rightarrow> Rdeschedule (set_thread a (Thread_free (sy_threads s a)) s))
           })
     | _ \<Rightarrow> None)"

text \<open>The instructions that have a body here.\<close>

definition resource_inst :: "InstructionOpcode \<Rightarrow> bool" where
  "resource_inst opc = (case opc of
      F3r i \<Rightarrow> i = TSETR_3r
    | Fl3r i \<Rightarrow> i = TSETR_l3r
    | Fl2rus i \<Rightarrow> i \<in> {OUTPW_l2rus, INPW_l2rus}
    | Fru6 i \<Rightarrow> i = SETC_ru6
    | Flru6 i \<Rightarrow> i = SETC_lru6
    | F2r i \<Rightarrow> i \<in> {GETST_2r, PEEK_2r, ENDIN_2r, SETPSC_2r, IN_2r, OUT_2r, TINITPC_2r, TINITDP_2r,
        TINITSP_2r, TINITCP_2r, SETD_2r, OUTCT_2r, OUTT_2r, INT_2r, INCT_2r, CHKCT_2r,
        TESTCT_2r, TESTWCT_2r, EET_2r, EEF_2r, INSHR_2r, OUTSHR_2r, GETTS_2r, SETPT_2r}
    | Frus i \<Rightarrow> i \<in> {GETR_rus, OUTCT_rus, CHKCT_rus}
    | Fl2r i \<Rightarrow> i \<in> {TINITLR_l2r, GETD_l2r, SETPS_l2r, SETC_l2r, SETCLK_l2r, SETTW_l2r, SETRDY_l2r,
        TINITPC_l2r, TINITSP_l2r}
    | F1r i \<Rightarrow> i \<in> {TSTART_1r, FREER_1r, MSYNC_1r, MJOIN_1r, SETV_1r, SETEV_1r, EDU_1r, EEU_1r,
        WAITET_1r, WAITEF_1r, SYNCR_1r, CLRPT_1r}
    | F0r i \<Rightarrow> i \<in> {FREET_0r, CLRE_0r, WAITEU_0r, SSYNC_0r}
    | _ \<Rightarrow> False)"

definition res_body :: "InstructionOpcode \<Rightarrow> rbody" where
  "res_body opc = (case opc of
      F3r i \<Rightarrow> tsetr_body
    | Fl3r i \<Rightarrow> tsetr_body
    | Fl2rus i \<Rightarrow> (\<lambda>a ops s. with_port a (ops ! 1) s)
    | Fru6 i \<Rightarrow> setc_body
    | Flru6 i \<Rightarrow> setc_body
    | F2r i \<Rightarrow> rbody_2r i
    | Frus i \<Rightarrow> rbody_rus i
    | Fl2r i \<Rightarrow> rbody_l2r i
    | F1r i \<Rightarrow> rbody_1r i
    | F0r i \<Rightarrow> rbody_0r i
    | _ \<Rightarrow> (\<lambda>a ops s. None))"

end
