(* ===== verification/Machine.thy ===== *)
theory Machine
  imports ResourceInst
begin

text \<open>
  The simulator itself: what \<open>emitInstFunction\<close> generates around the code
  string of an instruction, now with the parts that reach the scheduler and
  the pending event, the instruction functions that \<open>Thread.cpp\<close> writes by
  hand, the dispatch loop \<open>Thread::run\<close>, and \<open>SystemState::run\<close>.

  The loops follow the simulated program, so they may not end; a C++
  exception that leaves them is the outcome \<open>Throw\<close>.
\<close>

datatype thrown =
  Breakpoint_ex ticks_t addr
| Watchpoint_ex ticks_t addr
| Timeout_ex ticks_t

datatype inst_result = Ret InstReturn sys | Throw thrown sys

subsection \<open>The generated function\<close>

text \<open>\<open>if (hasPendingEvent()) { takeEvent(); schedule(); return END_THREAD_EXECUTION; }\<close>\<close>

definition take_and_schedule :: "addr \<Rightarrow> sys \<Rightarrow> inst_result option" where
  "take_and_schedule a s = do {
     s \<leftarrow> takeEvent_current a s;
     s \<leftarrow> schedule a s;
     Some (Ret END_THREAD_EXECUTION s)
   }"

definition emitCheckEvents :: "InstructionOpcode \<Rightarrow> addr \<Rightarrow> (sys \<Rightarrow> inst_result option) \<Rightarrow> sys \<Rightarrow> inst_result option" where
  "emitCheckEvents opc a k s =
     (if canEvent opc \<and> sy_pendingEvent s \<noteq> None then take_and_schedule a s else k s)"

definition add_cycles :: "InstructionOpcode \<Rightarrow> addr \<Rightarrow> sys \<Rightarrow> sys" where
  "add_cycles opc a s = set_thread a (emitCycles opc (sy_threads s a)) s"

definition emitException :: "InstructionOpcode \<Rightarrow> addr \<Rightarrow> ExceptionType \<Rightarrow> u32 \<Rightarrow> sys \<Rightarrow> inst_result option" where
  "emitException opc a et ed s = do {
     let t = sy_threads s a;
     (newPc, t) \<leftarrow> exception (sy_cores s (fst a)) (pc t) et ed t;
     let t = emitCycles opc (t\<lparr>pc := newPc\<rparr>);
     let s = set_thread a t s;
     if hasTimeSliceExpired (tslice s) t then do {
       s \<leftarrow> schedule a s;
       Some (Ret END_THREAD_EXECUTION s)
     }
     else Some (Ret END_TRACE s)
   }"

text \<open>\<open>%pause_on\<close>, and \<open>%deschedule\<close> when there is no resource to pause on.\<close>

definition emitPauseOn :: "InstructionOpcode \<Rightarrow> addr \<Rightarrow> res option \<Rightarrow> sys \<Rightarrow> inst_result option" where
  "emitPauseOn opc a p s = emitCheckEvents opc a (\<lambda>s.
     let t = sy_threads s a;
         t = (case p of None \<Rightarrow> t | Some r \<Rightarrow> t\<lparr>pausedOn := Some r\<rparr>) in
     Some (Ret END_THREAD_EXECUTION (set_thread a (t\<lparr>sr := sr_set WAITING True (sr t)\<rparr>) s)))
     (add_cycles opc a s)"

text \<open>The operand number of the status register, if the instruction writes it.\<close>

definition sr_operand :: "InstructionOpcode \<Rightarrow> nat option" where
  "sr_operand opc = (case filter (\<lambda>(n, r, ty). r = SR \<and> ty \<noteq> Op_in) (enumerate (length (explicit_ops opc)) (implicit_ops opc)) of
      [] \<Rightarrow> None
    | x # xs \<Rightarrow> Some (fst x))"

text \<open>The frame of an instruction function, and the system it leaves behind.\<close>

definition get_frame :: "InstructionOpcode \<Rightarrow> operands \<Rightarrow> addr \<Rightarrow> sys \<Rightarrow> (addr, res) frame" where
  "get_frame opc flds a s = start_frame opc flds (sy_threads s a) (sy_cores s (fst a)) (sy_romdc s)"

definition put_frame :: "addr \<Rightarrow> (addr, res) frame \<Rightarrow> sys \<Rightarrow> sys" where
  "put_frame a f s = (set_thread a (fr_thread f) s)
     \<lparr>sy_cores := (sy_cores s)(fst a := fr_core f), sy_romdc := fr_romdc f\<rparr>"

lemma frame_selects [simp]:
  "sy_scheduler (put_frame a f s) = sy_scheduler s"
  "sy_currentRunnable (put_frame a f s) = sy_currentRunnable s"
  "sy_pendingEvent (put_frame a f s) = sy_pendingEvent s"
  "sy_coreList (put_frame a f s) = sy_coreList s"
  "sy_net (put_frame a f s) = sy_net s"
  "sy_switches (put_frame a f s) = sy_switches s"
  "sy_events (put_frame a f s) = sy_events s"
  "sy_interrupts (put_frame a f s) = sy_interrupts s"
  "sy_ev (put_frame a f s) = sy_ev s"
  "sy_endpoints (put_frame a f s) = sy_endpoints s"
  "sy_chanends (put_frame a f s) = sy_chanends s"
  "sy_timers (put_frame a f s) = sy_timers s"
  "sy_locks (put_frame a f s) = sy_locks s"
  "sy_syncs (put_frame a f s) = sy_syncs s"
  "sy_threads (put_frame a f s) = (sy_threads s)(a := fr_thread f)"
  by (simp_all add: put_frame_def)

definition count_branch :: "bool \<Rightarrow> InstructionOpcode \<Rightarrow> addr \<Rightarrow> sys \<Rightarrow> sys option" where
  "count_branch tracing opc a s =
     (if \<not> tracing \<and> mayBranch opc then do {
        f \<leftarrow> updateExecutionFrequency (pc (sy_threads s a)) (get_frame opc [] a s);
        Some (put_frame a f s)
      }
      else Some s)"

text \<open>From the label \<open>regWriteBack\<close> on; \<open>watch\<close> says whether a watchpoint was hit.\<close>

definition emitRegWriteBack_sys ::
  "bool \<Rightarrow> InstructionOpcode \<Rightarrow> operands \<Rightarrow> addr \<Rightarrow> u32 list \<Rightarrow> u32 \<Rightarrow> InstReturn \<Rightarrow> bool \<Rightarrow> sys \<Rightarrow> inst_result option" where
  "emitRegWriteBack_sys tracing opc flds a ops nextPc retval watch s = do {
     let s = add_cycles opc a s;
     t \<leftarrow> write_operands opc flds 0 ops (sy_threads s a);
     let s = set_thread a (t\<lparr>pc := nextPc\<rparr>) s;
     (ready, s) \<leftarrow> (case sr_operand opc of
         None \<Rightarrow> Some (False, s)
       | Some n \<Rightarrow> setSR a (ucast (ops ! n)) s);
     if ready then take_and_schedule a s
     else do {
       s \<leftarrow> count_branch tracing opc a s;
       if watch then Some (Throw (Watchpoint_ex (time (sy_threads s a)) a) s)
       else emitCheckEvents opc a (\<lambda>s. Some (Ret retval s)) s
     }
   }"

definition exec_resource ::
  "bool \<Rightarrow> InstructionOpcode \<Rightarrow> operands \<Rightarrow> addr \<Rightarrow> u32 list \<Rightarrow> u32 \<Rightarrow> sys \<Rightarrow> inst_result option" where
  "exec_resource tracing opc flds a ops nextPc s = do {
     r \<leftarrow> res_body opc a ops s;
     (case r of
        Rraise et ed s \<Rightarrow> emitException opc a et ed s
      | Rpause p s \<Rightarrow> emitPauseOn opc a (Some p) s
      | Rdeschedule s \<Rightarrow> emitPauseOn opc a None s
      | Rdone ops s \<Rightarrow> emitRegWriteBack_sys tracing opc flds a ops nextPc CONTINUE False s)
   }"

definition exec_register ::
  "bool \<Rightarrow> InstructionOpcode \<Rightarrow> operands \<Rightarrow> addr \<Rightarrow> u32 list \<Rightarrow> sys \<Rightarrow> inst_result option" where
  "exec_register tracing opc flds a ops s = do {
     r \<leftarrow> inst_body opc ((get_frame opc flds a s)\<lparr>fr_op := ops\<rparr>);
     (case r of
        Raise et ed f \<Rightarrow> emitException opc a et ed (put_frame a f s)
      | Back y f \<Rightarrow> do {
          let s = put_frame a f s;
          let yields = (y = Force_yield \<or> (y = Yield \<and> hasTimeSliceExpired (tslice s) (sy_threads s a)));
          s \<leftarrow> (if yields then schedule a s else Some s);
          emitRegWriteBack_sys tracing opc flds a (fr_op f) (fr_nextPc f)
            (if yields then END_THREAD_EXECUTION else fr_retval f) (fr_watch f \<noteq> None) s
        })
   }"

definition emitInstFunction :: "bool \<Rightarrow> InstructionOpcode \<Rightarrow> operands \<Rightarrow> addr \<Rightarrow> sys \<Rightarrow> inst_result option" where
  "emitInstFunction tracing opc flds a s = do {
     let t = emitRegWritePending opc (sy_threads s a);
     let s = set_thread a t s;
     if yieldBefore opc \<and> hasTimeSliceExpired (tslice s) t then do {
       s \<leftarrow> schedule a s;
       Some (Ret END_THREAD_EXECUTION s)
     }
     else do {
       ops \<leftarrow> read_operands opc flds t;
       if resource_inst opc
       then exec_resource tracing opc flds a ops (pc t + of_nat (inst_size opc div 2)) s
       else exec_register tracing opc flds a ops s
     }
   }"

subsection \<open>Instruction functions written by hand\<close>

definition Instruction_TSETMR_2r :: "operands \<Rightarrow> addr \<Rightarrow> sys \<Rightarrow> inst_result option" where
  "Instruction_TSETMR_2r flds a s = do {
     let t = sy_threads s a;
     let t = (if pc t mod 2 = 0 then doPendingRegWrites t else t);
     let t = t\<lparr>time := time t + 4\<rparr>;
     let s = set_thread a t s;
     n \<leftarrow> array_get flds 0;
     m \<leftarrow> array_get flds 1;
     v \<leftarrow> array_get (regs t) (unat m);
     target \<leftarrow> (case sync t of
         None \<Rightarrow> Some a
       | Some y \<Rightarrow> array_get (sn_threads (sy_syncs s y)) 0);
     t \<leftarrow> writeRegister (unat n) v (sy_threads s target);
     let s = set_thread target t s;
     Some (Ret CONTINUE (set_thread a ((sy_threads s a)\<lparr>pc := pc (sy_threads s a) + 1\<rparr>) s))
   }"

definition exec_entry :: "bool \<Rightarrow> InstructionOpcode \<Rightarrow> operands \<Rightarrow> addr \<Rightarrow> sys \<Rightarrow> inst_result option" where
  "exec_entry tracing opc flds a s =
     (if opc = F2r TSETMR_2r then Instruction_TSETMR_2r flds a s
      else emitInstFunction tracing opc flds a s)"

definition Instruction_RUN_JIT :: "addr \<Rightarrow> sys \<Rightarrow> inst_result option" where
  "Instruction_RUN_JIT a s = do {
     let t = sy_threads s a;
     c \<leftarrow> runJIT (pendingPc t) (sy_cores s (fst a));
     Some (Ret END_TRACE (set_thread a (t\<lparr>pc := pendingPc t\<rparr>)
       (s\<lparr>sy_cores := (sy_cores s)(fst a := c)\<rparr>)))
   }"

definition Instruction_BREAKPOINT :: "addr \<Rightarrow> sys \<Rightarrow> inst_result option" where
  "Instruction_BREAKPOINT a s = do {
     let t = sy_threads s a;
     let t = t\<lparr>pendingPc := pc t, pc := getInterpretOneAddr (sy_cores s (fst a)),
               sr := sr_set WAITING True (sr t)\<rparr>;
     s \<leftarrow> schedule a (set_thread a t s);
     Some (Throw (Breakpoint_ex (time t) a) s)
   }"

text \<open>The decode cache a thread executes from.\<close>

definition thread_dcache :: "addr \<Rightarrow> sys \<Rightarrow> dcache" where
  "thread_dcache a s =
     (if dv_rom (decodeCache (sy_threads s a)) then sy_romdc s else ramDecodeCache (sy_cores s (fst a)))"

definition set_dcache :: "bool \<Rightarrow> nat \<Rightarrow> dcache \<Rightarrow> sys \<Rightarrow> sys" where
  "set_dcache isRom core dc s =
     (if isRom then s\<lparr>sy_romdc := dc\<rparr>
      else s\<lparr>sy_cores := (sy_cores s)(core := (sy_cores s core)\<lparr>ramDecodeCache := dc\<rparr>)\<rparr>)"

lemma dcache_selects [simp]:
  "sy_scheduler (set_dcache b core dc s) = sy_scheduler s"
  "sy_currentRunnable (set_dcache b core dc s) = sy_currentRunnable s"
  "sy_pendingEvent (set_dcache b core dc s) = sy_pendingEvent s"
  "sy_coreList (set_dcache b core dc s) = sy_coreList s"
  "sy_net (set_dcache b core dc s) = sy_net s"
  "sy_switches (set_dcache b core dc s) = sy_switches s"
  "sy_threads (set_dcache b core dc s) = sy_threads s"
  "sy_events (set_dcache b core dc s) = sy_events s"
  "sy_interrupts (set_dcache b core dc s) = sy_interrupts s"
  "sy_ev (set_dcache b core dc s) = sy_ev s"
  "sy_endpoints (set_dcache b core dc s) = sy_endpoints s"
  "sy_chanends (set_dcache b core dc s) = sy_chanends s"
  "sy_timers (set_dcache b core dc s) = sy_timers s"
  "sy_locks (set_dcache b core dc s) = sy_locks s"
  "sy_syncs (set_dcache b core dc s) = sy_syncs s"
  by (simp_all add: set_dcache_def)

text \<open>\<open>ops0\<close> stands for the uninitialised operands.\<close>

definition run_DECODE :: "bool \<Rightarrow> operands \<Rightarrow> addr \<Rightarrow> sys \<Rightarrow> inst_result option" where
  "run_DECODE tracing ops0 a s = do {
     let t = sy_threads s a;
     (opc, ops) \<leftarrow> decode_at (sy_cores s (fst a)) (sy_romdc s) (thread_fromPc t (pc t)) (dualIssue t) ops0;
     dc \<leftarrow> setOpcode (pc t) (opc, tracing) ops (inst_size opc) (thread_dcache a s);
     Some (Ret END_TRACE (set_dcache (dv_rom (decodeCache t)) (fst a) dc s))
   }"

text \<open>
  \<open>interpretOne\<close> decodes into the operands of the cache entry and puts the old
  ones back, unless the instruction leaves with an exception.
\<close>

definition set_operands :: "bool \<Rightarrow> nat \<Rightarrow> nat \<Rightarrow> operands \<Rightarrow> sys \<Rightarrow> sys option" where
  "set_operands isRom core p ops s = do {
     let dc = (if isRom then sy_romdc s else ramDecodeCache (sy_cores s core));
     opss \<leftarrow> array_set (dc_operands dc) p ops;
     Some (set_dcache isRom core (dc\<lparr>dc_operands := opss\<rparr>) s)
   }"

definition interpret_as ::
  "bool \<Rightarrow> nat \<Rightarrow> operands \<Rightarrow> bool \<Rightarrow> InstructionOpcode \<times> operands \<Rightarrow> addr \<Rightarrow> sys \<Rightarrow> inst_result option" where
  "interpret_as isRom p oldOps tracing d a s = do {
     s \<leftarrow> set_operands isRom (fst a) p (snd d) s;
     r \<leftarrow> exec_entry tracing (fst d) (snd d) a s;
     (case r of
        Throw e s \<Rightarrow> Some (Throw e s)
      | Ret k s \<Rightarrow> do {
          s \<leftarrow> set_operands isRom (fst a) p oldOps s;
          Some (Ret k s)
        })
   }"

definition interpretOne :: "addr \<Rightarrow> sys \<Rightarrow> inst_result option" where
  "interpretOne a s = do {
     let t = sy_threads s a;
     let p = unat (pc t);
     oldOps \<leftarrow> array_get (dc_operands (thread_dcache a s)) p;
     d \<leftarrow> instructionDecode_core (sy_cores s (fst a)) (thread_fromPc t (pc t)) True (Fpseudo DECODE, oldOps);
     assert_that (fst d \<noteq> Fpseudo DECODE);
     d \<leftarrow> instructionTransform (sy_cores s (fst a)) (sy_romdc s) (thread_fromPc t (pc t)) (dualIssue t) d;
     interpret_as (dv_rom (decodeCache t)) p oldOps (dv_tracing (decodeCache t)) d a s
   }"

definition Instruction_INTERPRET_ONE :: "addr \<Rightarrow> sys \<Rightarrow> inst_result option" where
  "Instruction_INTERPRET_ONE a s = (
     let t = sy_threads s a in interpretOne a (set_thread a (t\<lparr>pc := pendingPc t\<rparr>) s))"

definition singleStep :: "addr \<Rightarrow> sys \<Rightarrow> inst_result option" where
  "singleStep a s = do {
     let t = sy_threads s a;
     let c = sy_cores s (fst a);
     let t = (if pc t = getInterpretOneAddr c \<or> pc t = getRunJitAddr c then t\<lparr>pc := pendingPc t\<rparr> else t);
     r \<leftarrow> interpretOne a (set_thread a t s);
     (case r of
        Throw e s \<Rightarrow> Some (Throw e s)
      | Ret k s \<Rightarrow> do {
          s \<leftarrow> deschedule a s;
          s \<leftarrow> (if k = END_THREAD_EXECUTION then Some s else schedule a s);
          Some (Ret k s)
        })
   }"

subsection \<open>The dispatch loop\<close>

text \<open>\<open>(*decodeCache.opcode[pc])(*this)\<close>\<close>

definition dispatch :: "operands \<Rightarrow> addr \<Rightarrow> sys \<Rightarrow> inst_result option" where
  "dispatch ops0 a s = do {
     let p = unat (pc (sy_threads s a));
     let dc = thread_dcache a s;
     (opc, tracing) \<leftarrow> array_get (dc_opcode dc) p;
     (if opc = Fpseudo DECODE then run_DECODE tracing ops0 a s
      else if opc = Fpseudo RUN_JIT then Instruction_RUN_JIT a s
      else if opc = Fpseudo BREAKPOINT then Instruction_BREAKPOINT a s
      else if opc = Fpseudo INTERPRET_ONE then Instruction_INTERPRET_ONE a s
      else do {
        flds \<leftarrow> (if explicit_ops opc = [] then Some [] else array_get (dc_operands dc) p);
        exec_entry tracing opc flds a s
      })
   }"

partial_function (option) thread_loop :: "operands \<Rightarrow> addr \<Rightarrow> sys \<Rightarrow> inst_result option" where
  "thread_loop ops0 a s = do {
     r \<leftarrow> dispatch ops0 a s;
     (case r of
        Throw e s \<Rightarrow> Some (Throw e s)
      | Ret k s \<Rightarrow> if k = END_THREAD_EXECUTION then Some (Ret k s) else thread_loop ops0 a s)
   }"

declare thread_loop.simps [code]

definition Thread_run :: "operands \<Rightarrow> addr \<Rightarrow> sys \<Rightarrow> inst_result option" where
  "Thread_run ops0 a s = (
     let t = sy_threads s a in
     thread_loop ops0 a (if time t = 0 then set_thread a (t\<lparr>time := 1\<rparr>) s else s))"

subsection \<open>The system\<close>

definition runnable_run :: "operands \<Rightarrow> runnable \<Rightarrow> ticks_t \<Rightarrow> sys \<Rightarrow> inst_result option" where
  "runnable_run ops0 r tm s = (case r of
      Run_res (Res_thread a) \<Rightarrow> Thread_run ops0 a s
    | Run_res (Res_timer k) \<Rightarrow> do {
        s \<leftarrow> Timer_run k tm s;
        Some (Ret CONTINUE s)
      }
    | Run_timeout \<Rightarrow> Some (Throw (Timeout_ex tm) s)
    | _ \<Rightarrow> None)"

datatype StopReason =
  BREAKPOINT_STOP ticks_t addr
| WATCHPOINT_STOP ticks_t addr
| TIMEOUT_STOP ticks_t
| NO_RUNNABLE_THREADS ticks_t

definition getLatestThreadTime :: "sys \<Rightarrow> ticks_t" where
  "getLatestThreadTime s = fold (\<lambda>a t. max t (time (sy_threads s a)))
     (List.product (sy_coreList s) [0 ..< NUM_THREADS]) 0"

definition stop_reason :: "thrown \<Rightarrow> sys \<Rightarrow> StopReason" where
  "stop_reason e s = (case e of
      Breakpoint_ex tm a \<Rightarrow> BREAKPOINT_STOP tm a
    | Watchpoint_ex tm a \<Rightarrow> WATCHPOINT_STOP tm a
    | Timeout_ex tm \<Rightarrow>
        if rq_empty (sy_scheduler s) then NO_RUNNABLE_THREADS tm else TIMEOUT_STOP tm)"

partial_function (option) system_run :: "operands \<Rightarrow> sys \<Rightarrow> (StopReason \<times> sys) option" where
  "system_run ops0 s = (case rq_front (sy_scheduler s) of
      None \<Rightarrow> Some (NO_RUNNABLE_THREADS (getLatestThreadTime s), s)
    | Some r \<Rightarrow> do {
        q \<leftarrow> rq_pop (sy_scheduler s);
        let s = s\<lparr>sy_currentRunnable := Some r, sy_scheduler := q\<rparr>;
        x \<leftarrow> runnable_run ops0 r (rq_wakeUpTime q r) s;
        (case x of
           Throw e s \<Rightarrow> Some (stop_reason e s, s)
         | Ret k s \<Rightarrow> system_run ops0 s)
      })"

declare system_run.simps [code]

end
