(* ===== verification/SysInv.thy ===== *)
theory SysInv
  imports Machine
begin

text \<open>
  What an invariant of the running system has to survive.  The locale
  \<open>base_inv\<close> collects the small updates that most operations are made of:
  writing a thread, a timer, a lock, a synchroniser or a switch, moving a
  runnable in the scheduler queue, and changing members of a channel end or an
  eventable resource other than the ones that link objects to each other.  An
  invariant that survives these survives event delivery, the locks, the
  synchronisers and the receiving side of channels.

  The locale \<open>machine_inv\<close> adds the operations that change those links: the
  owner and the event lists of a resource, and the routes of channel ends.  It
  gives every operation on resources.
\<close>

subsection \<open>Small updates\<close>

lemmas bind_some = bind_eq_Some_conv

locale base_inv =
  fixes I :: "sys \<Rightarrow> bool"
  assumes threads: "I s \<Longrightarrow> I (s\<lparr>sy_threads := th\<rparr>)"
    and syncs: "I s \<Longrightarrow> I (s\<lparr>sy_syncs := ys\<rparr>)"
    and pending: "I s \<Longrightarrow> I (s\<lparr>sy_pendingEvent := p\<rparr>)"
    and cores: "I s \<Longrightarrow> I (s\<lparr>sy_cores := cs\<rparr>)"
    and romdc: "I s \<Longrightarrow> I (s\<lparr>sy_romdc := dc\<rparr>)"
    and net: "I s \<Longrightarrow> I (s\<lparr>sy_net := nt\<rparr>)"
    and switches: "I s \<Longrightarrow> I (s\<lparr>sy_switches := sw\<rparr>)"
    and timers: "I s \<Longrightarrow> I (s\<lparr>sy_timers := ti\<rparr>)"
    and locks: "I s \<Longrightarrow> I (s\<lparr>sy_locks := lk\<rparr>)"
    and push: "I s \<Longrightarrow> rq_push rn tm (sy_scheduler s) = Some q \<Longrightarrow> I (s\<lparr>sy_scheduler := q\<rparr>)"
    and remove: "I s \<Longrightarrow> rq_remove rn (sy_scheduler s) = Some q \<Longrightarrow> I (s\<lparr>sy_scheduler := q\<rparr>)"
    and ev_minor: "I s \<Longrightarrow> er_owner e = er_owner (sy_ev s r) \<Longrightarrow> er_eventsEnabled e = er_eventsEnabled (sy_ev s r) \<Longrightarrow>
      er_interruptMode e = er_interruptMode (sy_ev s r) \<Longrightarrow> er_inUse e = er_inUse (sy_ev s r) \<Longrightarrow>
      res_type (er_ID e) = res_type (er_ID (sy_ev s r)) \<Longrightarrow> res_num (er_ID e) = res_num (er_ID (sy_ev s r)) \<Longrightarrow> I (set_ev r e s)"
    and chan_minor: "I s \<Longrightarrow> ce_inPacket x = ce_inPacket (sy_chanends s c) \<Longrightarrow>
      ce_junkPacket x = ce_junkPacket (sy_chanends s c) \<Longrightarrow> ce_dest x = ce_dest (sy_chanends s c) \<Longrightarrow> I (set_chanend c x s)"
begin

lemma set_I:
  assumes "I s"
  shows "I (set_thread a t s)" "I (set_sync y z s)" "I (set_timer k ti s)" "I (set_lock k lk s)"
    "I (set_switch n sw s)" "I (set_node n nd s)" "I (set_dcache b core dc s)" "I (put_frame a f s)"
  using assms unfolding set_thread_def set_sync_def set_timer_def set_lock_def set_switch_def set_node_def
    set_dcache_def put_frame_def
  by (auto intro: threads syncs timers locks switches net cores romdc)

lemma schedule_I: "schedule a s = Some s' \<Longrightarrow> I s \<Longrightarrow> I s'"
  unfolding schedule_def Let_def by (auto simp: bind_some intro!: push set_I(1))

lemma deschedule_I: "deschedule a s = Some s' \<Longrightarrow> I s \<Longrightarrow> I s'"
  unfolding deschedule_def by (auto simp: bind_some intro!: remove split: if_splits)

lemma scheduleOther_I: "scheduleOther r tm s = Some s' \<Longrightarrow> I s \<Longrightarrow> I s'"
  unfolding scheduleOther_def by (auto simp: bind_some intro!: push)

lemma scheduleUpdate_I: "scheduleUpdate r tm s = Some s' \<Longrightarrow> I s \<Longrightarrow> I s'"
  unfolding scheduleUpdate_def by (auto simp: bind_some intro: scheduleOther_I)

lemma completeEvent_I: "completeEvent a r i s = Some s' \<Longrightarrow> I s \<Longrightarrow> I s'"
  unfolding completeEvent_def res_completeEvent_def Let_def by (auto simp: bind_some intro!: set_I)

lemma cancel_I: "I s \<Longrightarrow> I (cancel p s)"
  unfolding cancel_def by (auto intro: set_I split: option.split res.split)

lemma takeEvent_other_I: "takeEvent_other a r i s = Some s' \<Longrightarrow> I s \<Longrightarrow> I s'"
  unfolding takeEvent_other_def
  by (auto simp: bind_some split: if_splits; blast intro: completeEvent_I schedule_I cancel_I)

lemma takeEvent_current_I: "takeEvent_current a s = Some s' \<Longrightarrow> I s \<Longrightarrow> I s'"
  unfolding takeEvent_current_def Let_def
  by (auto simp: bind_some intro!: pending; blast intro: completeEvent_I set_I)

lemma setPendingEvent_I: "I s \<Longrightarrow> I (setPendingEvent r tm i s)"
  unfolding setPendingEvent_def Let_def by (auto intro: pending split: option.split)

lemma event_I: "event r tm s = Some s' \<Longrightarrow> I s \<Longrightarrow> I s'"
  unfolding event_def Let_def
  by (auto simp: bind_some split: if_splits; blast intro: takeEvent_other_I set_I setPendingEvent_I)

lemma seeEventEnable_I: "seeEventEnable r tm s = Some (b, s') \<Longrightarrow> I s \<Longrightarrow> I s'"
  unfolding seeEventEnable_def Timer_seeEventEnable_def Chanend_seeEventEnable_def
  by (auto simp: bind_some intro: event_I scheduleUpdate_I split: res.splits if_splits)

lemma event_if_ready_I: "event_if_ready r tm s = Some (b, s') \<Longrightarrow> I s \<Longrightarrow> I s'"
  unfolding event_if_ready_def
  by (auto simp: bind_some split: if_splits; blast intro: event_I seeEventEnable_I)

lemma seeOwnerEventEnables_I: "seeOwnerEventEnables rs tm s = Some (b, s') \<Longrightarrow> I s \<Longrightarrow> I s'"
  by (induction rs arbitrary: s; auto simp: bind_some split: if_splits; blast intro: seeEventEnable_I)

lemma setSR_I: "setSR a v s = Some (b, s') \<Longrightarrow> I s \<Longrightarrow> I s'"
  unfolding setSR_def setSRSlowPath_def Let_def
  by (auto simp: bind_some split: if_splits; blast intro: seeOwnerEventEnables_I set_I)

lemma wake_I: "wake a tm s = Some s' \<Longrightarrow> I s \<Longrightarrow> I s'"
  unfolding wake_def by (blast intro: schedule_I set_I)

lemma Chanend_notify_I: "Chanend_notify c tm s = Some s' \<Longrightarrow> I s \<Longrightarrow> I s'"
  unfolding Chanend_notify_def by (auto simp: bind_some split: option.splits intro!: chan_minor elim!: wake_I)

lemma notify_I: "notify d tm s = Some s' \<Longrightarrow> I s \<Longrightarrow> I s'"
  unfolding notify_def by (auto split: endpoint.splits; blast intro: Chanend_notify_I)

lemma Chanend_push_I: "I s \<Longrightarrow> I (Chanend_push c t s)"
  unfolding Chanend_push_def by (auto intro: chan_minor)

lemma Chanend_update_I: "Chanend_update c tm s = Some s' \<Longrightarrow> I s \<Longrightarrow> I s'"
  unfolding Chanend_update_def Let_def
  by (auto simp: bind_some split: if_splits option.splits intro!: chan_minor elim!: wake_I event_I)

lemma Chanend_receiveDataToken_I: "Chanend_receiveDataToken c tm v s = Some s' \<Longrightarrow> I s \<Longrightarrow> I s'"
  unfolding Chanend_receiveDataToken_def by (blast intro: Chanend_update_I Chanend_push_I)

lemma Chanend_pushes_I: "I s \<Longrightarrow> I (fold (\<lambda>v. Chanend_push c (Token v False)) vs s)"
  by (induction vs arbitrary: s; auto intro: Chanend_push_I)

lemma receiveDataToken_I: "receiveDataToken d tm v s = Some s' \<Longrightarrow> I s \<Longrightarrow> I s'"
  unfolding receiveDataToken_def
  by (auto simp: bind_some split: endpoint.splits; blast intro: Chanend_receiveDataToken_I set_I)

lemma receiveDataTokens_I: "receiveDataTokens d tm vs s = Some s' \<Longrightarrow> I s \<Longrightarrow> I s'"
  unfolding receiveDataTokens_def Chanend_receiveDataTokens_def
  by (auto simp: bind_some split: endpoint.splits; blast intro: Chanend_update_I Chanend_pushes_I set_I)

lemma setNode_chanends_I: "setNode_chanends core i ns s = Some s' \<Longrightarrow> I s \<Longrightarrow> I s'"
proof (induction ns arbitrary: s)
  case (Cons n ns)
  define e where "e = sy_ev s (Res_chanend (core, n))"
  from Cons.prems obtain newID where newID: "res_setNode i (er_ID e) = Some newID" and
    rest: "setNode_chanends core i ns (set_ev (Res_chanend (core, n)) (e\<lparr>er_ID := newID\<rparr>) s) = Some s'"
    by (auto simp: bind_some Let_def e_def)
  have "I (set_ev (Res_chanend (core, n)) (e\<lparr>er_ID := newID\<rparr>) s)"
    using Cons.prems setNode_fields [OF newID] by (intro ev_minor) (simp_all add: e_def)
  with rest show ?case
    by (rule Cons.IH)
qed simp

lemma updateIDs_all_I: "updateIDs_all cs s = Some s' \<Longrightarrow> I s \<Longrightarrow> I s'"
  by (induction cs arbitrary: s) (auto simp: bind_some updateIDs_def dest: setNode_chanends_I)

lemma switch_write_I: "switch_write n i v s = Some (b, s') \<Longrightarrow> I s \<Longrightarrow> I s'"
  unfolding switch_write_def Let_def
  by (auto simp: bind_some split: option.splits if_splits; blast intro: updateIDs_all_I set_I)

lemma setPausedIn_I: "I s \<Longrightarrow> I (setPausedIn c a b s)"
  unfolding setPausedIn_def by (auto intro: chan_minor)

lemma notify_source_I: "notify_source c tm s = Some s' \<Longrightarrow> I s \<Longrightarrow> I s'"
  unfolding notify_source_def by (auto split: option.splits; blast intro: notify_I)

lemma poptoken_I: "poptoken c tm s = Some (v, s') \<Longrightarrow> I s \<Longrightarrow> I s'"
  unfolding poptoken_def Let_def by (auto simp: bind_some elim!: notify_source_I intro!: chan_minor)

lemma Chanend_setData_I: "Chanend_setData c v s = (b, s') \<Longrightarrow> I s \<Longrightarrow> I s'"
  unfolding Chanend_setData_def Let_def by (auto split: if_splits intro: chan_minor)

lemma pause_out_I: "pause_out c a s = Some (r, s') \<Longrightarrow> I s \<Longrightarrow> I s'"
  unfolding pause_out_def by (auto intro: chan_minor)

lemma Lock_out_I: "Lock_out k tm s = Some (r, s') \<Longrightarrow> I s \<Longrightarrow> I s'"
  unfolding Lock_out_def Let_def by (auto simp: bind_some split: list.splits; blast intro: schedule_I set_I)

lemma Lock_in_I: "Lock_in k a s = Some (r, v, s') \<Longrightarrow> I s \<Longrightarrow> I s'"
  unfolding Lock_in_def Let_def by (auto split: if_splits; blast intro: set_I)

lemma Timer_run_I: "Timer_run k tm s = Some s' \<Longrightarrow> I s \<Longrightarrow> I s'"
  unfolding Timer_run_def by (auto simp: bind_some split: if_splits option.splits; blast intro: event_I wake_I set_I)

lemma wake_threads_I: "wake_threads cur tm b as s = Some s' \<Longrightarrow> I s \<Longrightarrow> I s'"
proof (induction as arbitrary: b s)
  case (Cons x as)
  define s1 where "s1 = set_thread x ((sy_threads s x)\<lparr>time := tm\<rparr>) s"
  from Cons.prems obtain y t where y: "y = s1 \<or> schedule x (set_thread x t s1) = Some y"
    and rest: "wake_threads cur tm False as y = Some s'"
    by (auto simp: bind_some Let_def s1_def split: if_splits)
  have "I s1"
    using Cons.prems(2) unfolding s1_def by (rule set_I)
  with y have "I y"
    by (auto elim!: schedule_I intro!: set_I)
  with rest show ?case
    by (rule Cons.IH)
qed simp

lemma free_threads_I: "I s \<Longrightarrow> I (free_threads as s)"
  unfolding free_threads_def by (induction as arbitrary: s; auto intro: set_I)

lemma Sync_sync_I: "Sync_sync y a b s = Some (r, s') \<Longrightarrow> I s \<Longrightarrow> I s'"
  unfolding Sync_sync_def Let_def
  by (auto simp: bind_some split: if_splits list.splits
      intro!: set_I free_threads_I elim!: wake_threads_I schedule_I)

lemma addChild_I: "addChild y a s = Some s' \<Longrightarrow> I s \<Longrightarrow> I s'"
  unfolding addChild_def Let_def by (auto simp: bind_some; blast intro: set_I)

end

subsection \<open>Operations on resources\<close>

lemma updateOwner_sets:
  "updateOwner r a s = Some s' \<Longrightarrow> er_owner (sy_ev s' r) = Some a \<and> er_inUse (sy_ev s' r) = er_inUse (sy_ev s r)"
  by (auto simp: updateOwner_def bind_some Let_def split: if_splits)

lemma if_eq_SomeE:
  assumes "(if c then x else y) = Some z" "c \<Longrightarrow> x = Some z \<Longrightarrow> P" "\<not> c \<Longrightarrow> y = Some z \<Longrightarrow> P"
  shows P
  using assms by (auto split: if_splits)

lemma setC_cases:
  assumes "setC a i v s = Some (b, s')"
  shows "s' = s \<or> (\<exists>r m. setInterruptMode r a m s = Some s') \<or> (\<exists>k c. Timer_setCondition k a c s = Some (b, s'))"
proof -
  from assms obtain x where "getResourceByID (fst a) i = Some x"
    by (cases "getResourceByID (fst a) i") (auto simp: setC_def)
  with assms show ?thesis
    by (cases x; cases "the x") (auto simp: setC_def bind_some elim!: if_eq_SomeE)
qed

locale machine_inv = base_inv +
  assumes updateOwner_I: "updateOwner r a s = Some s' \<Longrightarrow> I s \<Longrightarrow> I s'"
    and eventDisable_I: "eventDisable r a s = Some s' \<Longrightarrow> I s \<Longrightarrow> I s'"
    and switch_mode_I: "I s \<Longrightarrow> er_owner (sy_ev s r) = Some a \<Longrightarrow> b \<noteq> er_interruptMode (sy_ev s r) \<Longrightarrow> I (switch_mode r a b s)"
    and mark_enabled_I: "I s \<Longrightarrow> er_owner (sy_ev s r) = Some a \<Longrightarrow> er_inUse (sy_ev s r) \<Longrightarrow> I (mark_enabled r a s)"
    and timer_on_I: "eventableSetInUseOn (Res_timer k) a s = Some s' \<Longrightarrow> I s \<Longrightarrow> I s'"
    and timer_off_I: "eventableSetInUseOff (Res_timer k) s = Some s' \<Longrightarrow> I s \<Longrightarrow> I s'"
    and openRoute_I: "openRoute c s = Some (b, s') \<Longrightarrow> I s \<Longrightarrow> I s'"
    and Chanend_outct_I: "Chanend_outct c a v tm s = Some (rr, s') \<Longrightarrow> er_inUse (sy_ev s (Res_chanend c)) \<Longrightarrow> I s \<Longrightarrow> I s'"
    and Chanend_alloc_I: "Chanend_alloc c a s = Some s' \<Longrightarrow> I s \<Longrightarrow> I s'"
    and Chanend_free_I: "Chanend_free c s = Some (b, s') \<Longrightarrow> I s \<Longrightarrow> I s'"
begin

lemma setVector_I: "setVector r a v s = Some s' \<Longrightarrow> I s \<Longrightarrow> I s'"
  unfolding setVector_def by (auto simp: bind_some elim!: updateOwner_I intro!: ev_minor)

lemma setEV_I: "setEV r a v s = Some s' \<Longrightarrow> I s \<Longrightarrow> I s'"
  unfolding setEV_def by (auto simp: bind_some elim!: updateOwner_I intro!: ev_minor)

lemma setInterruptMode_I:
  assumes "setInterruptMode r a b s = Some s'" "I s"
  shows "I s'"
proof -
  from assms(1) obtain y where y: "updateOwner r a s = Some y" and
    y': "s' = y \<or> b \<noteq> er_interruptMode (sy_ev y r) \<and> (\<exists>x tm. event_if_ready r tm (switch_mode r a b y) = Some (x, s'))"
    by (cases "updateOwner r a s")
      (auto simp: setInterruptMode_def bind_some Let_def split: if_splits)
  from y assms(2) have "I y"
    by (rule updateOwner_I)
  with y' updateOwner_sets [OF y] show ?thesis
    by (blast intro: event_if_ready_I switch_mode_I)
qed

lemma eventEnable_I:
  assumes "eventEnable r a s = Some s'" "er_inUse (sy_ev s r)" "I s"
  shows "I s'"
proof -
  from assms(1) obtain y x tm where y: "updateOwner r a s = Some y" and
    y': "event_if_ready r tm (mark_enabled r a y) = Some (x, s')"
    by (auto simp: eventEnable_def bind_some Let_def)
  from y assms(3) have "I y"
    by (rule updateOwner_I)
  with y' updateOwner_sets [OF y] assms(2) show ?thesis
    by (blast intro: event_if_ready_I mark_enabled_I)
qed

lemma eventDisable_all_I: "eventDisable_all rs a s = Some s' \<Longrightarrow> I s \<Longrightarrow> I s'"
  by (induction rs arbitrary: s) (auto simp: bind_some dest: eventDisable_I)

lemma clre_I: "clre a s = Some s' \<Longrightarrow> I s \<Longrightarrow> I s'"
  unfolding clre_def Let_def by (auto elim!: eventDisable_all_I intro!: set_I)

lemma Timer_setCondition_I: "Timer_setCondition k a c s = Some (b, s') \<Longrightarrow> I s \<Longrightarrow> I s'"
  unfolding Timer_setCondition_def
  by (cases c) (auto simp: bind_some elim!: updateOwner_I intro!: set_I)

lemma Timer_setData_I: "Timer_setData k a d s = Some s' \<Longrightarrow> I s \<Longrightarrow> I s'"
  unfolding Timer_setData_def by (auto simp: bind_some elim!: updateOwner_I intro!: set_I)

lemma Timer_in_I: "Timer_in k a tm s = Some (r, v, s') \<Longrightarrow> I s \<Longrightarrow> I s'"
  unfolding Timer_in_def Let_def
  by (auto simp: bind_some split: if_splits elim!: updateOwner_I scheduleUpdate_I intro!: set_I)

lemma Chanend_testct_I: "Chanend_testct c a s = Some (b, s') \<Longrightarrow> I s \<Longrightarrow> I s'"
  unfolding Chanend_testct_def Let_def
  by (auto simp: bind_some split: if_splits elim!: updateOwner_I intro!: setPausedIn_I)

lemma Chanend_testwct_I: "Chanend_testwct c a s = Some (b, s') \<Longrightarrow> I s \<Longrightarrow> I s'"
  unfolding Chanend_testwct_def Let_def
  by (auto simp: bind_some split: if_splits option.splits elim!: updateOwner_I intro!: setPausedIn_I)

lemma Chanend_intoken_I:
  assumes "Chanend_intoken c a tm s = Some (r, v, s')" "I s"
  shows "I s'"
proof -
  from assms(1) obtain x y where xy: "Chanend_testct c a s = Some (x, y)"
    by (cases "Chanend_testct c a s") (auto simp: Chanend_intoken_def)
  have "I y"
    by (rule Chanend_testct_I [OF xy assms(2)])
  moreover have "s' = y \<or> (\<exists>w. poptoken c tm y = Some (w, s'))"
    using assms(1) xy by (cases x; cases "the x") (auto simp: Chanend_intoken_def bind_some)
  ultimately show ?thesis
    by (blast intro: poptoken_I)
qed

lemma Chanend_inct_I:
  assumes "Chanend_inct c a tm s = Some (r, v, s')" "I s"
  shows "I s'"
proof -
  from assms(1) obtain x y where xy: "Chanend_testct c a s = Some (x, y)"
    by (cases "Chanend_testct c a s") (auto simp: Chanend_inct_def)
  have "I y"
    by (rule Chanend_testct_I [OF xy assms(2)])
  moreover have "s' = y \<or> (\<exists>w. poptoken c tm y = Some (w, s'))"
    using assms(1) xy by (cases x; cases "the x") (auto simp: Chanend_inct_def bind_some)
  ultimately show ?thesis
    by (blast intro: poptoken_I)
qed

lemma Chanend_chkct_I:
  assumes "Chanend_chkct c a tm v s = Some (r, s')" "I s"
  shows "I s'"
proof -
  from assms(1) obtain x y where xy: "Chanend_testct c a s = Some (x, y)"
    by (cases "Chanend_testct c a s") (auto simp: Chanend_chkct_def)
  have "I y"
    by (rule Chanend_testct_I [OF xy assms(2)])
  moreover have "s' = y \<or> (\<exists>w. poptoken c tm y = Some (w, s'))"
    using assms(1) xy by (cases x) (auto simp: Chanend_chkct_def bind_some split: if_splits)
  ultimately show ?thesis
    by (blast intro: poptoken_I)
qed

lemma Chanend_in_I:
  assumes "Chanend_in c a tm s = Some (r, v, s')" "I s"
  shows "I s'"
proof -
  from assms(1) obtain x y where xy: "Chanend_testwct c a s = Some (x, y)"
    by (cases "Chanend_testwct c a s") (auto simp: Chanend_in_def)
  have y: "I y"
    by (rule Chanend_testwct_I [OF xy assms(2)])
  then have "I (set_chanend c ((sy_chanends y c)\<lparr>ce_buf := b\<rparr>) y)" for b
    by (intro chan_minor) simp_all
  moreover have "s' = y \<or> (\<exists>b. notify_source c tm (set_chanend c ((sy_chanends y c)\<lparr>ce_buf := b\<rparr>) y) = Some s')"
    using assms(1) xy by (cases x) (auto simp: Chanend_in_def bind_some Let_def split: if_splits)
  ultimately show ?thesis
    using y by (blast intro: notify_source_I)
qed

lemma Chanend_outt_I: "Chanend_outt c a v tm s = Some (r, s') \<Longrightarrow> I s \<Longrightarrow> I s'"
  unfolding Chanend_outt_def
  by (auto simp: bind_some split: if_splits elim!: openRoute_I pause_out_I receiveDataToken_I)

lemma Chanend_out_I: "Chanend_out c a v tm s = Some (r, s') \<Longrightarrow> I s \<Longrightarrow> I s'"
  unfolding Chanend_out_def
  by (auto simp: bind_some split: if_splits elim!: openRoute_I pause_out_I receiveDataTokens_I)

lemma res_alloc_I: "res_alloc r a s = Some s' \<Longrightarrow> I s \<Longrightarrow> I s'"
  unfolding res_alloc_def Timer_alloc_def Lock_alloc_def Sync_alloc_def
  by (auto simp: bind_some split: res.splits elim!: Chanend_alloc_I timer_on_I intro!: set_I)

lemma alloc_first_I: "alloc_first a ty is s = Some (r, s') \<Longrightarrow> I s \<Longrightarrow> I s'"
  by (induction "is") (auto simp: bind_some Let_def split: if_splits elim!: res_alloc_I)

lemma allocResource_I: "allocResource a ty s = Some (r, s') \<Longrightarrow> I s \<Longrightarrow> I s'"
  unfolding allocResource_def by (auto split: if_splits elim!: alloc_first_I)

lemma res_free_I: "res_free r s = Some (b, s') \<Longrightarrow> I s \<Longrightarrow> I s'"
  unfolding res_free_def by (auto simp: bind_some split: res.splits elim!: Chanend_free_I timer_off_I intro!: set_I)

lemma res_in_I: "res_in r a tm s = Some (x, v, s') \<Longrightarrow> I s \<Longrightarrow> I s'"
  unfolding res_in_def by (auto split: res.splits elim!: Chanend_in_I Timer_in_I Lock_in_I)

lemma res_out_I: "res_out r a v tm s = Some (x, s') \<Longrightarrow> I s \<Longrightarrow> I s'"
  unfolding res_out_def by (auto split: res.splits elim!: Chanend_out_I Lock_out_I)

lemma res_setData_I: "res_setData r a v s = Some (b, s') \<Longrightarrow> I s \<Longrightarrow> I s'"
  unfolding res_setData_def
  by (auto simp: bind_some split: res.splits elim!: Timer_setData_I dest: Chanend_setData_I)

lemma res_getData_I: "res_getData r a s = Some (b, s') \<Longrightarrow> I s \<Longrightarrow> I s'"
  unfolding res_getData_def by (auto simp: bind_some split: res.splits elim!: updateOwner_I)

lemma setC_I:
  assumes "setC a i v s = Some (b, s')" "I s"
  shows "I s'"
  using setC_cases [OF assms(1)] assms(2) by (auto elim!: setInterruptMode_I Timer_setCondition_I)

end

end
