(* ===== verification/MachineInv.thy ===== *)
theory MachineInv
  imports SysInv
begin

text \<open>
  An invariant of the locale \<open>machine_inv\<close> survives every instruction, every
  dispatch of a thread and every run of a timer.  The inductive relation
  \<open>machine_step\<close> has these as its steps, with the selection of the next
  runnable; the locale \<open>reach_inv\<close> adds what an invariant has to survive for
  that selection and concludes that it holds in every reachable state.  The
  locale \<open>loose_inv\<close> is for invariants that do not speak about routes.
\<close>

fun rout_sys :: "rout \<Rightarrow> sys" where
  "rout_sys (Rdone ops s) = s"
| "rout_sys (Rraise et ed s) = s"
| "rout_sys (Rpause p s) = s"
| "rout_sys (Rdeschedule s) = s"

fun result_sys :: "inst_result \<Rightarrow> sys" where
  "result_sys (Ret k s) = s"
| "result_sys (Throw e s) = s"

lemma with_resourceE:
  assumes "with_resource a i k s = Some r"
    and "r = Rraise ET_ILLEGAL_RESOURCE i s \<Longrightarrow> P"
    and "\<And>q. isInUse q s = Some True \<Longrightarrow> k q = Some r \<Longrightarrow> P"
  shows P
  using assms by (auto simp: with_resource_def checkResource_def illegal_resource_def bind_some split: option.splits if_splits)

lemma with_chanendE:
  assumes "with_chanend a i k s = Some r"
    and "r = Rraise ET_ILLEGAL_RESOURCE i s \<Longrightarrow> P"
    and "\<And>c. er_inUse (sy_ev s (Res_chanend c)) \<Longrightarrow> k c = Some r \<Longrightarrow> P"
  shows P
  using assms(1) unfolding with_chanend_def
  by (rule with_resourceE) (use assms(2,3) in \<open>auto simp: illegal_resource_def isInUse_def split: res.splits\<close>)

lemma with_syncE:
  assumes "with_sync a i k s = Some r"
    and "r = Rraise ET_ILLEGAL_RESOURCE i s \<Longrightarrow> P" and "\<And>y. k y = Some r \<Longrightarrow> P"
  shows P
  using assms(1) unfolding with_sync_def
  by (rule with_resourceE) (use assms(2,3) in \<open>auto simp: illegal_resource_def split: res.splits\<close>)

lemma with_threadE:
  assumes "with_thread a i k s = Some r"
    and "r = Rraise ET_ILLEGAL_RESOURCE i s \<Longrightarrow> P" and "\<And>b. k b = Some r \<Longrightarrow> P"
  shows P
  using assms(1) unfolding with_thread_def
  by (rule with_resourceE) (use assms(2,3) in \<open>auto simp: illegal_resource_def split: res.splits\<close>)

lemma with_stopped_threadE:
  assumes "with_stopped_thread a i k s = Some r"
    and "r = Rraise ET_ILLEGAL_RESOURCE i s \<Longrightarrow> P" and "\<And>b. k b = Some r \<Longrightarrow> P"
  shows P
  using assms(1) unfolding with_stopped_thread_def
  by (rule with_threadE) (use assms(2,3) in \<open>auto simp: illegal_resource_def split: if_splits\<close>)

lemma with_eventableE:
  assumes "with_eventable a i k s = Some r"
    and "r = Rraise ET_ILLEGAL_RESOURCE i s \<Longrightarrow> P"
    and "\<And>q. er_inUse (sy_ev s q) \<Longrightarrow> isEventable q \<Longrightarrow> k q = Some r \<Longrightarrow> P"
  shows P
  using assms(1) unfolding with_eventable_def
proof (rule with_resourceE)
  fix q
  assume "isInUse q s = Some True" "(if isEventable q then k q else illegal_resource i s) = Some r"
  with assms(2,3) show P
    by (cases q) (auto simp: illegal_resource_def isEventable_def isInUse_def)
qed (use assms(2) in simp)

lemma with_portE:
  assumes "with_port a i s = Some r" and "r = Rraise ET_ILLEGAL_RESOURCE i s \<Longrightarrow> P"
  shows P
  using assms(1) unfolding with_port_def
  by (rule with_resourceE) (use assms(2) in \<open>auto simp: illegal_resource_def\<close>)

lemmas withE = with_resourceE with_chanendE with_syncE with_threadE with_stopped_threadE with_eventableE with_portE

lemma ends:
  "input_end ops i r (x, v, s) = Some o' \<Longrightarrow> rout_sys o' = s"
  "output_end ops i r (x, s) = Some o' \<Longrightarrow> rout_sys o' = s"
  "sync_end ops y (z, s) = Some o' \<Longrightarrow> rout_sys o' = s"
  "check_done ops i (b, s) = Some o' \<Longrightarrow> rout_sys o' = s"
  by (auto simp: input_end_def output_end_def sync_end_def check_done_def illegal_resource_def
      split: ResOpResult.splits SyncResult.splits if_splits)

text \<open>
  The steps of a running system: taking the front of the scheduler queue, one
  dispatch of the thread that runs, and the run of a timer.
\<close>

inductive machine_step :: "sys \<Rightarrow> sys \<Rightarrow> bool" where
  select: "rq_front (sy_scheduler s) = Some r \<Longrightarrow> rq_pop (sy_scheduler s) = Some q \<Longrightarrow>
    machine_step s (s\<lparr>sy_currentRunnable := Some r, sy_scheduler := q\<rparr>)"
| start: "sy_currentRunnable s = Some (Run_res (Res_thread a)) \<Longrightarrow> time (sy_threads s a) = 0 \<Longrightarrow>
    machine_step s (set_thread a ((sy_threads s a)\<lparr>time := 1\<rparr>) s)"
| thread: "sy_currentRunnable s = Some (Run_res (Res_thread a)) \<Longrightarrow> dispatch ops0 a s = Some r \<Longrightarrow>
    machine_step s (result_sys r)"
| timer: "sy_currentRunnable s = Some (Run_res (Res_timer k)) \<Longrightarrow> Timer_run k tm s = Some s' \<Longrightarrow>
    machine_step s s'"

context machine_inv
begin

lemma outct_body_I: "outct_body a ops s = Some r \<Longrightarrow> I s \<Longrightarrow> I (rout_sys r)"
  unfolding outct_body_def by (auto simp: bind_some ends elim!: withE Chanend_outct_I)

lemma chkct_body_I: "chkct_body a ops s = Some r \<Longrightarrow> I s \<Longrightarrow> I (rout_sys r)"
  unfolding chkct_body_def by (auto simp: bind_some ends elim!: withE Chanend_chkct_I)

lemma setc_body_I: "setc_body a ops s = Some r \<Longrightarrow> I s \<Longrightarrow> I (rout_sys r)"
  unfolding setc_body_def by (auto simp: bind_some ends elim!: setC_I)

lemma write_other_I: "write_other b n v ops s = Some r \<Longrightarrow> I s \<Longrightarrow> I (rout_sys r)"
  unfolding write_other_def by (auto simp: bind_some intro!: set_I)

lemma tsetr_body_I: "tsetr_body a ops s = Some r \<Longrightarrow> I s \<Longrightarrow> I (rout_sys r)"
  unfolding tsetr_body_def by (auto elim!: withE write_other_I)

lemma tinit_body_I: "tinit_body n a ops s = Some r \<Longrightarrow> I s \<Longrightarrow> I (rout_sys r)"
  unfolding tinit_body_def by (auto elim!: withE write_other_I)

lemma tinitpc_body_I: "tinitpc_body a ops s = Some r \<Longrightarrow> I s \<Longrightarrow> I (rout_sys r)"
  unfolding tinitpc_body_def Let_def by (auto elim!: withE intro!: set_I)

lemma getst_body_I:
  assumes "getst_body a ops s = Some r" "I s"
  shows "I (rout_sys r)"
  using assms(1) unfolding getst_body_def
proof (rule with_syncE)
  fix y
  assume k: "(do {
     (r, s) \<leftarrow> allocResource a RES_TYPE_THREAD s;
     (case r of
        Some (Res_thread b) \<Rightarrow> do {
          s \<leftarrow> addChild y b s;
          t \<leftarrow> setSync y (sy_threads s b);
          Some (Rdone (ops[0 := getID (Res_thread b) s]) (set_thread b t s))
        }
      | _ \<Rightarrow> Some (Rdone (ops[0 := 0]) s))
   }) = Some r"
  then obtain x z where xz: "allocResource a RES_TYPE_THREAD s = Some (x, z)"
    by (cases "allocResource a RES_TYPE_THREAD s") auto
  have z: "I z"
    by (rule allocResource_I [OF xz assms(2)])
  show ?thesis
  proof (cases "\<exists>b. x = Some (Res_thread b)")
    case True
    with k xz z show ?thesis
      by (auto simp: bind_some elim!: addChild_I intro!: set_I)
  next
    case False
    with k xz z show ?thesis
      by (cases x; cases "the x") auto
  qed
qed (use assms(2) in simp)

lemma event_body_I: "event_body b i a ops s = Some r \<Longrightarrow> I s \<Longrightarrow> I (rout_sys r)"
  unfolding event_body_def by (auto simp: bind_some split: if_splits elim!: withE eventEnable_I eventDisable_I)

lemma wait_body_I: "wait_body a ops s = Some r \<Longrightarrow> I s \<Longrightarrow> I (rout_sys r)"
  unfolding wait_body_def enableEvents_def by (auto simp: bind_some elim!: setSR_I)

lemma rbody_2r_I: "rbody_2r i a ops s = Some r \<Longrightarrow> I s \<Longrightarrow> I (rout_sys r)"
  by (cases i)
    (auto simp: rbody_2r_def rbody_2r_chan_def Let_def bind_some ends split: option.splits
      elim!: withE getst_body_I res_in_I res_out_I tinitpc_body_I tinit_body_I res_setData_I outct_body_I chkct_body_I
        Chanend_outt_I Chanend_intoken_I Chanend_inct_I Chanend_testct_I Chanend_testwct_I event_body_I)

lemma rbody_rus_I: "rbody_rus i a ops s = Some r \<Longrightarrow> I s \<Longrightarrow> I (rout_sys r)"
  by (cases i)
    (auto simp: rbody_rus_def bind_some split: if_splits elim!: outct_body_I chkct_body_I allocResource_I)

lemma setps_threads_I: "I s \<Longrightarrow> I (fold (\<lambda>n s. set_thread (g n) (h n s) s) ns s)"
  by (induction ns arbitrary: s) (auto intro: set_I)

lemma setps_body_I: "setps_body a ops s = Some r \<Longrightarrow> I s \<Longrightarrow> I (rout_sys r)"
  unfolding setps_body_def Let_def
  by (auto simp: bind_some split: if_splits intro!: setps_threads_I cores)

lemma rbody_l2r_I: "rbody_l2r i a ops s = Some r \<Longrightarrow> I s \<Longrightarrow> I (rout_sys r)"
  by (cases i)
    (auto simp: rbody_l2r_def bind_some illegal_resource_def split: option.splits
      elim!: withE tinit_body_I tinitpc_body_I res_getData_I setps_body_I setc_body_I)

lemma rbody_1r_I: "rbody_1r i a ops s = Some r \<Longrightarrow> I s \<Longrightarrow> I (rout_sys r)"
  by (cases i)
    (auto simp: rbody_1r_def Let_def bind_some ends illegal_resource_def msync_def mjoin_def split: if_splits
      elim!: withE schedule_I res_free_I Sync_sync_I setVector_I setEV_I event_body_I wait_body_I intro!: set_I)

lemma rbody_0r_I: "rbody_0r i a ops s = Some r \<Longrightarrow> I s \<Longrightarrow> I (rout_sys r)"
  by (cases i; auto simp: rbody_0r_def Let_def bind_some ssync_op_def split: option.splits SyncResult.split_asm
      elim!: clre_I wait_body_I Sync_sync_I intro!: set_I; metis SyncResult.exhaust)

lemma res_body_I: "res_body opc a ops s = Some r \<Longrightarrow> I s \<Longrightarrow> I (rout_sys r)"
  by (cases opc)
    (auto simp: res_body_def elim!: withE tsetr_body_I setc_body_I rbody_2r_I rbody_rus_I rbody_l2r_I rbody_1r_I rbody_0r_I)

lemma emitException_I: "emitException opc a et ed s = Some r \<Longrightarrow> I s \<Longrightarrow> I (result_sys r)"
  unfolding emitException_def Let_def
  by (auto simp: bind_some split: if_splits elim!: schedule_I intro!: set_I)

lemma take_and_schedule_I: "take_and_schedule a s = Some r \<Longrightarrow> I s \<Longrightarrow> I (result_sys r)"
  unfolding take_and_schedule_def by (auto simp: bind_some elim!: takeEvent_current_I schedule_I)

lemma emitPauseOn_I: "emitPauseOn opc a p s = Some r \<Longrightarrow> I s \<Longrightarrow> I (result_sys r)"
  unfolding emitPauseOn_def emitCheckEvents_def add_cycles_def Let_def
  by (auto split: if_splits elim!: take_and_schedule_I intro!: set_I)

lemma count_branch_I: "count_branch tr opc a s = Some s' \<Longrightarrow> I s \<Longrightarrow> I s'"
  unfolding count_branch_def by (auto simp: bind_some split: if_splits intro!: set_I)

lemma emitRegWriteBack_sys_I:
  "emitRegWriteBack_sys tr opc flds a ops p k w s = Some r \<Longrightarrow> I s \<Longrightarrow> I (result_sys r)"
  unfolding emitRegWriteBack_sys_def emitCheckEvents_def add_cycles_def Let_def
  by (auto simp: bind_some split: if_splits option.splits
      elim!: take_and_schedule_I count_branch_I setSR_I intro!: set_I)

lemma exec_resource_I:
  assumes "exec_resource tr opc flds a ops p s = Some r" "I s"
  shows "I (result_sys r)"
proof -
  from assms(1) obtain q where q: "res_body opc a ops s = Some q"
    by (cases "res_body opc a ops s") (auto simp: exec_resource_def)
  have "I (rout_sys q)"
    by (rule res_body_I [OF q assms(2)])
  with assms(1) q show ?thesis
    by (cases q) (auto simp: exec_resource_def elim!: emitException_I emitPauseOn_I emitRegWriteBack_sys_I)
qed

lemma exec_register_I:
  assumes "exec_register tr opc flds a ops s = Some r" "I s"
  shows "I (result_sys r)"
proof -
  from assms(1) obtain q where q: "inst_body opc ((get_frame opc flds a s)\<lparr>fr_op := ops\<rparr>) = Some q"
    by (cases "inst_body opc ((get_frame opc flds a s)\<lparr>fr_op := ops\<rparr>)") (auto simp: exec_register_def)
  show ?thesis
  proof (cases q)
    case (Back y f)
    then have "\<exists>z k. (z = put_frame a f s \<or> schedule a (put_frame a f s) = Some z)
        \<and> emitRegWriteBack_sys tr opc flds a (fr_op f) (fr_nextPc f) k (fr_watch f \<noteq> None) z = Some r"
      using assms(1) q by (auto simp: exec_register_def Let_def bind_some split: if_split_asm)
    with assms(2) show ?thesis
      by (auto elim!: emitRegWriteBack_sys_I schedule_I intro!: set_I)
  next
    case (Raise et ed f)
    with assms q show ?thesis
      by (auto simp: exec_register_def elim!: emitException_I intro!: set_I)
  qed
qed

lemma emitInstFunction_I: "emitInstFunction tr opc flds a s = Some r \<Longrightarrow> I s \<Longrightarrow> I (result_sys r)"
  unfolding emitInstFunction_def Let_def
  by (auto simp: bind_some split: if_splits elim!: exec_register_I exec_resource_I schedule_I intro!: set_I)

lemma exec_entry_I: "exec_entry tr opc flds a s = Some r \<Longrightarrow> I s \<Longrightarrow> I (result_sys r)"
  unfolding exec_entry_def Instruction_TSETMR_2r_def Let_def
  by (auto simp: bind_some split: if_splits elim!: emitInstFunction_I intro!: set_I)

lemma set_operands_I: "set_operands b core p ops s = Some s' \<Longrightarrow> I s \<Longrightarrow> I s'"
  unfolding set_operands_def Let_def by (auto simp: bind_some intro!: set_I)

lemma interpret_as_I:
  assumes "interpret_as b p old tr d a s = Some r" "I s"
  shows "I (result_sys r)"
proof -
  from assms(1) obtain z where z: "set_operands b (fst a) p (snd d) s = Some z"
    by (cases "set_operands b (fst a) p (snd d) s") (auto simp: interpret_as_def)
  with assms(1) obtain q where q: "exec_entry tr (fst d) (snd d) a z = Some q"
    by (cases "exec_entry tr (fst d) (snd d) a z") (auto simp: interpret_as_def)
  have "I (result_sys q)"
    by (rule exec_entry_I [OF q set_operands_I [OF z assms(2)]])
  with assms(1) z q show ?thesis
    by (cases q) (auto simp: interpret_as_def bind_some elim!: set_operands_I)
qed

lemma interpretOne_I: "interpretOne a s = Some r \<Longrightarrow> I s \<Longrightarrow> I (result_sys r)"
  unfolding interpretOne_def Let_def by (auto simp: bind_some elim!: interpret_as_I)

lemma Instruction_BREAKPOINT_I: "Instruction_BREAKPOINT a s = Some r \<Longrightarrow> I s \<Longrightarrow> I (result_sys r)"
  unfolding Instruction_BREAKPOINT_def Let_def by (auto simp: bind_some elim!: schedule_I intro!: set_I)

lemma dispatch_I: "dispatch ops0 a s = Some r \<Longrightarrow> I s \<Longrightarrow> I (result_sys r)"
  unfolding dispatch_def run_DECODE_def Instruction_RUN_JIT_def Instruction_INTERPRET_ONE_def Let_def
  by (auto simp: bind_some split: if_splits
      elim!: exec_entry_I Instruction_BREAKPOINT_I interpretOne_I intro!: set_I cores)

end

locale reach_inv = machine_inv +
  assumes current: "I s \<Longrightarrow> I (s\<lparr>sy_currentRunnable := cr\<rparr>)"
    and pop: "I s \<Longrightarrow> rq_pop (sy_scheduler s) = Some q \<Longrightarrow> I (s\<lparr>sy_scheduler := q\<rparr>)"
begin

lemma machine_step_I: "machine_step s s' \<Longrightarrow> I s \<Longrightarrow> I s'"
  by (induction rule: machine_step.induct) (auto intro: dispatch_I Timer_run_I pop current set_I)

lemma reachable_I: "machine_step\<^sup>*\<^sup>* s s' \<Longrightarrow> I s \<Longrightarrow> I s'"
  by (induction rule: rtranclp_induct) (auto intro: machine_step_I)

end

subsection \<open>Invariants that leave out routes\<close>

lemma handleRequest_cases:
  assumes "handleRequest n tm r s = Some s'"
  obtains ack v z dest where "z = s \<or> switch_write n (rq_regNum r) (rq_data r) s = Some (ack, z)"
    "(case dest of None \<Rightarrow> Some z | Some (Ep_chanend c) \<Rightarrow> send_response n tm c (response_tokens ack (rq_write r) v) z
      | Some (Ep_switch m) \<Rightarrow> None) = Some s'"
proof -
  from assms obtain ack v z dest where "z = s \<or> switch_write n (rq_regNum r) (rq_data r) s = Some (ack, z)"
    and dest: "getOutgoingChanendDest (sy_net z) n (chanendID (ucast (rq_returnNum r)) (rq_returnNode r)) = Some dest"
    and "(case dest of None \<Rightarrow> Some z | Some (Ep_chanend c) \<Rightarrow> send_response n tm c (response_tokens ack (rq_write r) v) z
      | Some (Ep_switch m) \<Rightarrow> None) = Some s'"
    by (auto simp: handleRequest_def Let_def bind_some split: if_splits)
  then show ?thesis
    by (intro that)
qed

lemma openRoute_cases:
  assumes "openRoute c s = Some (b, s')" "\<not> ce_inPacket (sy_chanends s c)"
  obtains dest where "(case dest of
        None \<Rightarrow> Some (True, set_chanend c ((sy_chanends s c)\<lparr>ce_dest := None, ce_junkPacket := True, ce_inPacket := True\<rparr>) s)
      | Some d \<Rightarrow> let (opened, junk, s1) = claim d (Ep_chanend c) (ce_junkPacket (sy_chanends s c)) s in
          Some (opened, set_chanend c ((sy_chanends s c)\<lparr>ce_dest := dest, ce_junkPacket := junk, ce_inPacket := opened\<rparr>) s1)) = Some (b, s')"
  using assms by (auto simp: openRoute_def Let_def bind_some)

locale loose_inv = base_inv +
  assumes lupdateOwner_I: "updateOwner r a s = Some s' \<Longrightarrow> I s \<Longrightarrow> I s'"
    and leventDisable_I: "eventDisable r a s = Some s' \<Longrightarrow> I s \<Longrightarrow> I s'"
    and lswitch_mode_I: "I s \<Longrightarrow> er_owner (sy_ev s r) = Some a \<Longrightarrow> b \<noteq> er_interruptMode (sy_ev s r) \<Longrightarrow> I (switch_mode r a b s)"
    and lmark_enabled_I: "I s \<Longrightarrow> er_owner (sy_ev s r) = Some a \<Longrightarrow> er_inUse (sy_ev s r) \<Longrightarrow> I (mark_enabled r a s)"
    and on_I: "eventableSetInUseOn r a s = Some s' \<Longrightarrow> I s \<Longrightarrow> I s'"
    and off_I: "eventableSetInUseOff r s = Some s' \<Longrightarrow> I s \<Longrightarrow> I s'"
    and endpoint_I: "I s \<Longrightarrow> I (set_endpoint d e s)"
    and chanend_I: "I s \<Longrightarrow> I (set_chanend c x s)"
begin

lemma claim_I: "claim d n j s = (b, k, s') \<Longrightarrow> I s \<Longrightarrow> I s'"
  unfolding claim_def Let_def by (auto split: if_splits intro: endpoint_I)

lemma release_I: "release d tm s = Some s' \<Longrightarrow> I s \<Longrightarrow> I s'"
  unfolding release_def Let_def by (auto split: list.splits elim!: notify_I intro!: endpoint_I)

lemma Chanend_receiveCtrlToken_I: "Chanend_receiveCtrlToken c tm v s = Some s' \<Longrightarrow> I s \<Longrightarrow> I s'"
  unfolding Chanend_receiveCtrlToken_def
  by (auto simp: bind_some split: if_splits elim!: release_I Chanend_update_I intro!: Chanend_push_I)

lemma send_tokens_I: "send_tokens c tm ts s = Some s' \<Longrightarrow> I s \<Longrightarrow> I s'"
  by (induction ts arbitrary: s)
    (auto simp: bind_some split: if_splits dest: Chanend_receiveCtrlToken_I Chanend_receiveDataToken_I)

lemma send_response_I:
  assumes "send_response n tm c ts s = Some s'" "I s"
  shows "I s'"
proof -
  obtain b j z where z: "claim (Ep_chanend c) (Ep_switch n) False s = (b, j, z)"
    by (cases "claim (Ep_chanend c) (Ep_switch n) False s")
  have "I z"
    by (rule claim_I [OF z assms(2)])
  with assms(1) z show ?thesis
    by (auto simp: send_response_def Let_def bind_some split: if_splits elim!: send_tokens_I intro!: set_I)
qed

lemma handleRequest_I:
  assumes "handleRequest n tm r s = Some s'" "I s"
  shows "I s'"
proof -
  from assms(1) obtain ack v z dest where z: "z = s \<or> switch_write n (rq_regNum r) (rq_data r) s = Some (ack, z)"
    and s': "(case dest of None \<Rightarrow> Some z | Some (Ep_chanend c) \<Rightarrow> send_response n tm c (response_tokens ack (rq_write r) v) z
      | Some (Ep_switch m) \<Rightarrow> None) = Some s'"
    by (rule handleRequest_cases)
  from z assms(2) have "I z"
    by (auto elim: switch_write_I)
  with s' show ?thesis
    by (auto split: option.splits endpoint.splits elim!: send_response_I)
qed

lemma SSwitch_receiveCtrlToken_I:
  assumes "SSwitch_receiveCtrlToken n tm v s = Some s'" "I s"
  shows "I s'"
  using assms unfolding SSwitch_receiveCtrlToken_def Let_def
  by (auto simp: bind_some split: if_splits option.splits elim!: release_I handleRequest_I intro!: set_I)

lemma receiveCtrlToken_I: "receiveCtrlToken d tm v s = Some s' \<Longrightarrow> I s \<Longrightarrow> I s'"
  unfolding receiveCtrlToken_def
  by (auto split: endpoint.splits elim!: Chanend_receiveCtrlToken_I SSwitch_receiveCtrlToken_I)

lemma lopenRoute_I:
  assumes "openRoute c s = Some (b, s')" "I s"
  shows "I s'"
proof (cases "ce_inPacket (sy_chanends s c)")
  case False
  with assms(1) obtain dest where k: "(case dest of
        None \<Rightarrow> Some (True, set_chanend c ((sy_chanends s c)\<lparr>ce_dest := None, ce_junkPacket := True, ce_inPacket := True\<rparr>) s)
      | Some d \<Rightarrow> let (opened, junk, s1) = claim d (Ep_chanend c) (ce_junkPacket (sy_chanends s c)) s in
          Some (opened, set_chanend c ((sy_chanends s c)\<lparr>ce_dest := dest, ce_junkPacket := junk, ce_inPacket := opened\<rparr>) s1)) = Some (b, s')"
    by (rule openRoute_cases)
  show ?thesis
  proof (cases dest)
    case None
    with k assms(2) show ?thesis
      by (auto intro: chanend_I)
  next
    case (Some d)
    obtain opened junk z where z: "claim d (Ep_chanend c) (ce_junkPacket (sy_chanends s c)) s = (opened, junk, z)"
      by (cases "claim d (Ep_chanend c) (ce_junkPacket (sy_chanends s c)) s")
    have "I z"
      by (rule claim_I [OF z assms(2)])
    with k Some z show ?thesis
      by (auto intro: chanend_I)
  qed
qed (use assms in \<open>simp add: openRoute_def Let_def\<close>)

lemma lChanend_outct_I:
  assumes "Chanend_outct c a v tm s = Some (r, s')" "I s"
  shows "I s'"
proof -
  from assms(1) obtain b z where z: "openRoute c s = Some (b, z)"
    by (cases "openRoute c s") (auto simp: Chanend_outct_def)
  have "I z"
    by (rule lopenRoute_I [OF z assms(2)])
  with assms(1) z show ?thesis
    by (auto simp: Chanend_outct_def Let_def bind_some split: if_split_asm
        elim!: pause_out_I receiveCtrlToken_I intro!: chanend_I)
qed

lemma lChanend_alloc_I: "Chanend_alloc c a s = Some s' \<Longrightarrow> I s \<Longrightarrow> I s'"
  unfolding Chanend_alloc_def Let_def by (auto simp: bind_some elim!: on_I intro!: endpoint_I chanend_I)

lemma lChanend_free_I: "Chanend_free c s = Some (b, s') \<Longrightarrow> I s \<Longrightarrow> I s'"
  unfolding Chanend_free_def Let_def by (auto simp: bind_some split: if_splits elim!: off_I intro!: endpoint_I)

end

sublocale loose_inv \<subseteq> machine_inv I
  by unfold_locales
    (erule (1) lChanend_outct_I | fact lupdateOwner_I leventDisable_I lswitch_mode_I lmark_enabled_I on_I off_I
      lopenRoute_I lChanend_alloc_I lChanend_free_I)+

end
