(* ===== verification/SchedulerInv.thy ===== *)
theory SchedulerInv
  imports MachineInv
begin

text \<open>
  The scheduler of a running system: in every reachable state its linked list
  is a schedule, a list without repetition in the order of the wake up times.
\<close>

definition sched_ok :: "sys \<Rightarrow> bool" where
  "sched_ok s \<longleftrightarrow> (\<exists>w. rq_rel (sy_scheduler s) w)"

lemma sched_ok_updates [simp]:
  "sched_ok (s\<lparr>sy_threads := th\<rparr>) = sched_ok s" "sched_ok (s\<lparr>sy_syncs := ys\<rparr>) = sched_ok s"
  "sched_ok (s\<lparr>sy_pendingEvent := p\<rparr>) = sched_ok s" "sched_ok (s\<lparr>sy_cores := cs\<rparr>) = sched_ok s"
  "sched_ok (s\<lparr>sy_romdc := dc\<rparr>) = sched_ok s" "sched_ok (s\<lparr>sy_net := nt\<rparr>) = sched_ok s"
  "sched_ok (s\<lparr>sy_switches := sw\<rparr>) = sched_ok s" "sched_ok (s\<lparr>sy_timers := ti\<rparr>) = sched_ok s"
  "sched_ok (s\<lparr>sy_locks := lk\<rparr>) = sched_ok s" "sched_ok (s\<lparr>sy_currentRunnable := cr\<rparr>) = sched_ok s"
  by (simp_all add: sched_ok_def)

lemma sched_ok_ops:
  assumes "sched_ok s"
  shows "rq_push r tm (sy_scheduler s) = Some q \<Longrightarrow> sched_ok (s\<lparr>sy_scheduler := q\<rparr>)"
    and "rq_remove r (sy_scheduler s) = Some q \<Longrightarrow> sched_ok (s\<lparr>sy_scheduler := q\<rparr>)"
    and "rq_pop (sy_scheduler s) = Some q \<Longrightarrow> sched_ok (s\<lparr>sy_scheduler := q\<rparr>)"
proof -
  from assms obtain w where w: "rq_rel (sy_scheduler s) w"
    by (auto simp: sched_ok_def)
  show "rq_push r tm (sy_scheduler s) = Some q \<Longrightarrow> sched_ok (s\<lparr>sy_scheduler := q\<rparr>)"
    using rq.push_rel [OF w, of r tm] by (auto simp: sched_ok_def)
  show "rq_remove r (sy_scheduler s) = Some q \<Longrightarrow> sched_ok (s\<lparr>sy_scheduler := q\<rparr>)"
    using rq.remove_rel [OF w, of r] rq.queued_iff [OF w, of r]
    by (auto simp: sched_ok_def rq_remove_def Let_def bind_some assert_that_def split: if_splits)
  show "rq_pop (sy_scheduler s) = Some q \<Longrightarrow> sched_ok (s\<lparr>sy_scheduler := q\<rparr>)"
    using w rq.pop_cons rq.front_nil by (cases w) (fastforce simp: sched_ok_def rq_pop_def rq_front_def)+
qed

lemma set_scheduler [simp]:
  "sched_ok (set_thread a t s) = sched_ok s" "sched_ok (set_ev r e s) = sched_ok s"
  "sched_ok (set_chanend c x s) = sched_ok s" "sched_ok (set_endpoint d ep s) = sched_ok s"
  "sched_ok (addEnabled i a r s) = sched_ok s" "sched_ok (removeEnabled i a r s) = sched_ok s"
  by (simp_all add: sched_ok_def)

lemma updateOwner_sched: "updateOwner r a s = Some s' \<Longrightarrow> sched_ok s' = sched_ok s"
  by (auto simp: updateOwner_def Let_def bind_some split: if_splits)

lemma clearOwner_sched: "clearOwner r s = Some s' \<Longrightarrow> sched_ok s' = sched_ok s"
  by (auto simp: clearOwner_def Let_def bind_some split: if_splits)

lemma eventDisable_sched: "eventDisable r a s = Some s' \<Longrightarrow> sched_ok s' = sched_ok s"
  by (auto simp: eventDisable_def Let_def bind_some split: if_splits dest!: updateOwner_sched)

lemma switch_mode_sched: "sched_ok (switch_mode r a b s) = sched_ok s"
  by (simp add: switch_mode_def Let_def)

lemma mark_enabled_sched: "sched_ok (mark_enabled r a s) = sched_ok s"
  by (simp add: mark_enabled_def Let_def)

lemma inUseOn_sched: "eventableSetInUseOn r a s = Some s' \<Longrightarrow> sched_ok s' = sched_ok s"
  by (auto simp: eventableSetInUseOn_def Let_def bind_some split: if_splits dest!: clearOwner_sched)

lemma inUseOff_sched: "eventableSetInUseOff r s = Some s' \<Longrightarrow> sched_ok s' = sched_ok s"
  by (auto simp: eventableSetInUseOff_def Let_def bind_some split: if_splits dest!: clearOwner_sched)

interpretation sched: loose_inv sched_ok
  by unfold_locales
    (simp_all add: sched_ok_ops updateOwner_sched eventDisable_sched switch_mode_sched mark_enabled_sched
      inUseOn_sched inUseOff_sched)

interpretation sched: reach_inv sched_ok
  by unfold_locales (simp_all add: sched_ok_ops)

subsection \<open>Scheduling a runnable\<close>

abbreviation queued :: "sys \<Rightarrow> addr \<Rightarrow> bool" where
  "queued s a \<equiv> rq_contains (sy_scheduler s) (Run_res (Res_thread a))"

lemma set_sched_insert: "set (sched_insert tm x v) = insert (tm, x) (set v)"
proof -
  have "set (sched_insert tm x v) = insert (tm, x) (set (takeWhile (\<lambda>(t, y). t \<le> tm) v @ dropWhile (\<lambda>(t, y). t \<le> tm) v))"
    unfolding sched_insert_def set_append by auto
  then show ?thesis
    by simp
qed

lemma rq_push_ok:
  assumes "sched_ok s"
  obtains q where "rq_push r tm (sy_scheduler s) = Some q" "sched_ok (s\<lparr>sy_scheduler := q\<rparr>)"
    "rq_wakeUpTime q r = tm" "\<forall>x. rq_contains q x \<longleftrightarrow> x = r \<or> rq_contains (sy_scheduler s) x"
proof -
  from assms obtain w where w: "rq_rel (sy_scheduler s) w"
    by (auto simp: sched_ok_def)
  obtain q where q: "rq_push r tm (sy_scheduler s) = Some q" "rq_rel q (sched_insert tm r (sched_remove r w))"
    using rq.push_rel [OF w] by blast
  have "\<forall>x. rq_contains q x \<longleftrightarrow> x = r \<or> rq_contains (sy_scheduler s) x"
    unfolding rq.queued_iff [OF q(2)] rq.queued_iff [OF w] set_sched_insert by (force simp: sched_remove_def)
  moreover have "(tm, r) \<in> set (sched_insert tm r (sched_remove r w))"
    by (simp add: set_sched_insert)
  then have "rq_wakeUpTime q r = tm"
    using q(2) by (auto simp: rq_rel_def rq_schedule_def)
  ultimately show ?thesis
    using q by (intro that) (auto simp: sched_ok_def)
qed

lemma schedule_ok:
  assumes "sched_ok s"
  obtains q where "schedule a s = Some ((set_thread a (mark_scheduled (sy_threads s a)) s)\<lparr>sy_scheduler := q\<rparr>)"
    "sched_ok ((set_thread a (mark_scheduled (sy_threads s a)) s)\<lparr>sy_scheduler := q\<rparr>)"
    "rq_wakeUpTime q (Run_res (Res_thread a)) = time (sy_threads s a)"
    "\<forall>r. rq_contains q r \<longleftrightarrow> r = Run_res (Res_thread a) \<or> rq_contains (sy_scheduler s) r"
proof -
  from assms obtain q where q: "rq_push (Run_res (Res_thread a)) (time (sy_threads s a)) (sy_scheduler s) = Some q"
    "sched_ok (s\<lparr>sy_scheduler := q\<rparr>)" "rq_wakeUpTime q (Run_res (Res_thread a)) = time (sy_threads s a)"
    "\<forall>r. rq_contains q r \<longleftrightarrow> r = Run_res (Res_thread a) \<or> rq_contains (sy_scheduler s) r"
    by (rule rq_push_ok)
  then show ?thesis
    by (intro that) (auto simp: schedule_def Let_def sched_ok_def mark_scheduled_def)
qed

lemma wake_ok:
  assumes "sched_ok s"
  obtains t q where "wake a tm s = Some ((set_thread a t s)\<lparr>sy_scheduler := q\<rparr>)" "sched_ok ((set_thread a t s)\<lparr>sy_scheduler := q\<rparr>)"
    "\<forall>r. rq_contains q r \<longleftrightarrow> r = Run_res (Res_thread a) \<or> rq_contains (sy_scheduler s) r"
    "time t = tm" "\<not> bit (sr t) WAITING"
proof -
  define z where "z = set_thread a ((sy_threads s a)\<lparr>time := tm\<rparr>) s"
  have "sched_ok z"
    using assms by (simp add: z_def)
  then obtain q where q: "schedule a z = Some ((set_thread a (mark_scheduled (sy_threads z a)) z)\<lparr>sy_scheduler := q\<rparr>)"
    "sched_ok ((set_thread a (mark_scheduled (sy_threads z a)) z)\<lparr>sy_scheduler := q\<rparr>)"
    "rq_wakeUpTime q (Run_res (Res_thread a)) = time (sy_threads z a)"
    "\<forall>r. rq_contains q r \<longleftrightarrow> r = Run_res (Res_thread a) \<or> rq_contains (sy_scheduler z) r"
    by (rule schedule_ok)
  have z: "set_thread a t z = set_thread a t s" for t
    by (simp add: z_def set_thread_def)
  show ?thesis
    by (rule that [where t = "mark_scheduled (sy_threads z a)" and q = q])
      (use q in \<open>simp_all add: wake_def z_def [symmetric] z\<close>, simp_all add: z_def mark_scheduled_def sr_set_def bit_simps)
qed

end
