(* ===== verification/EventsInv.thy ===== *)
theory EventsInv
  imports MachineInv
begin

text \<open>
  The event and interrupt lists of the threads: in every reachable state a
  resource is in the list of a thread exactly when the thread owns it and it is
  enabled in that mode, and no resource is listed twice.  The operations of
  \<open>Resource.cpp\<close> that move a resource between lists are all equal to taking it
  out, changing it, and putting it back where it then belongs.
\<close>

definition listed :: "bool \<Rightarrow> sys \<Rightarrow> addr \<Rightarrow> res list" where
  "listed i s a = (if i then sy_interrupts s a else sy_events s a)"

definition events_ok :: "sys \<Rightarrow> bool" where
  "events_ok s \<longleftrightarrow>
     (\<forall>i a. distinct (listed i s a)) \<and>
     (\<forall>i a r. r \<in> set (listed i s a) \<longleftrightarrow>
        er_owner (sy_ev s r) = Some a \<and> er_eventsEnabled (sy_ev s r) \<and> er_interruptMode (sy_ev s r) = i) \<and>
     (\<forall>r. \<not> er_inUse (sy_ev s r) \<longrightarrow> er_owner (sy_ev s r) = None \<or> \<not> er_eventsEnabled (sy_ev s r))"

lemma listed_add [simp]: "listed j (addEnabled i a r s) b = (if i = j \<and> b = a then r # listed j s b else listed j s b)"
  by (auto simp: listed_def addEnabled_def)

lemma listed_remove [simp]: "listed j (removeEnabled i a r s) b = (if i = j \<and> b = a then remove1 r (listed j s b) else listed j s b)"
  by (auto simp: listed_def removeEnabled_def)

lemma listed_selects [simp]:
  "listed i (set_thread a t s) = listed i s" "listed i (set_ev r e s) = listed i s"
  "listed i (set_chanend c x s) = listed i s" "listed i (set_endpoint d ep s) = listed i s"
  by (simp_all add: listed_def fun_eq_iff)

lemma events_ok_cong:
  "sy_ev s' = sy_ev s \<Longrightarrow> sy_events s' = sy_events s \<Longrightarrow> sy_interrupts s' = sy_interrupts s \<Longrightarrow> events_ok s' = events_ok s"
  by (simp add: events_ok_def listed_def)

lemma events_ok_frame [simp]:
  "events_ok (set_thread a t s) = events_ok s"
  "events_ok (set_chanend c x s) = events_ok s" "events_ok (set_endpoint d ep s) = events_ok s"
  "events_ok (s\<lparr>sy_threads := th\<rparr>) = events_ok s" "events_ok (s\<lparr>sy_syncs := ys\<rparr>) = events_ok s"
  "events_ok (s\<lparr>sy_pendingEvent := p\<rparr>) = events_ok s" "events_ok (s\<lparr>sy_cores := cs\<rparr>) = events_ok s"
  "events_ok (s\<lparr>sy_romdc := dc\<rparr>) = events_ok s" "events_ok (s\<lparr>sy_net := nt\<rparr>) = events_ok s"
  "events_ok (s\<lparr>sy_switches := sw\<rparr>) = events_ok s" "events_ok (s\<lparr>sy_timers := ti\<rparr>) = events_ok s"
  "events_ok (s\<lparr>sy_locks := lk\<rparr>) = events_ok s" "events_ok (s\<lparr>sy_currentRunnable := cr\<rparr>) = events_ok s"
  "events_ok (s\<lparr>sy_scheduler := q\<rparr>) = events_ok s"
  by (rule events_ok_cong; simp)+

lemma events_okD:
  assumes "events_ok s"
  shows "distinct (listed i s a)"
    and "r \<in> set (listed i s a) \<longleftrightarrow>
        er_owner (sy_ev s r) = Some a \<and> er_eventsEnabled (sy_ev s r) \<and> er_interruptMode (sy_ev s r) = i"
    and "\<not> er_inUse (sy_ev s r) \<Longrightarrow> er_owner (sy_ev s r) = None \<or> \<not> er_eventsEnabled (sy_ev s r)"
  using assms unfolding events_ok_def by blast+

text \<open>
  The effect of the code that moves a resource: out of the list of its old
  owner if it was enabled, and into the list of the new owner if it is now.
\<close>

definition unlist :: "res \<Rightarrow> sys \<Rightarrow> sys" where
  "unlist r s = (case er_owner (sy_ev s r) of
     Some a \<Rightarrow> if er_eventsEnabled (sy_ev s r) then removeEnabled (er_interruptMode (sy_ev s r)) a r s else s
   | None \<Rightarrow> s)"

definition enlist :: "res \<Rightarrow> sys \<Rightarrow> sys" where
  "enlist r s = (case er_owner (sy_ev s r) of
     Some a \<Rightarrow> if er_eventsEnabled (sy_ev s r) then addEnabled (er_interruptMode (sy_ev s r)) a r s else s
   | None \<Rightarrow> s)"

lemma unlist_listed:
  assumes "events_ok s"
  shows "distinct (listed i (unlist r s) a) \<and> set (listed i (unlist r s) a) = set (listed i s a) - {r}"
  using events_okD [OF assms] by (auto simp: unlist_def split: option.splits)

lemma relist_ok:
  assumes ok: "events_ok s" and use: "\<not> er_inUse e \<Longrightarrow> er_owner e = None \<or> \<not> er_eventsEnabled e"
  shows "events_ok (enlist r (set_ev r e (unlist r s)))"
proof -
  have ev: "sy_ev (unlist r s) = sy_ev s" "\<And>s. sy_ev (enlist r s) = sy_ev s"
    by (simp_all add: unlist_def enlist_def split: option.splits)
  note u = unlist_listed [OF ok, where r = r]
  have l: "listed i (enlist r (set_ev r e (unlist r s))) a =
      (if er_owner e = Some a \<and> er_eventsEnabled e \<and> er_interruptMode e = i then r # listed i (unlist r s) a
       else listed i (unlist r s) a)" for i a
    by (auto simp: enlist_def split: option.splits)
  show ?thesis
    unfolding events_ok_def ev l using u use events_okD [OF ok] by (auto simp: ev)
qed

lemma events_ev_minor:
  assumes "events_ok s" "er_owner e = er_owner (sy_ev s r)" "er_eventsEnabled e = er_eventsEnabled (sy_ev s r)"
    "er_interruptMode e = er_interruptMode (sy_ev s r)" "er_inUse e = er_inUse (sy_ev s r)"
  shows "events_ok (set_ev r e s)"
  using assms unfolding events_ok_def by auto

lemma set_ev_enabled [simp]:
  "set_ev r e (addEnabled i a q s) = addEnabled i a q (set_ev r e s)"
  "set_ev r e (removeEnabled i a q s) = removeEnabled i a q (set_ev r e s)"
  by (simp_all add: set_ev_def addEnabled_def removeEnabled_def)

lemma updateOwner_eq:
  assumes "updateOwner r a s = Some s'" "er_owner (sy_ev s r) \<noteq> Some a"
  shows "s' = enlist r (set_ev r ((sy_ev s r)\<lparr>er_owner := Some a\<rparr>) (unlist r s))"
    and "er_eventsEnabled (sy_ev s r) \<Longrightarrow> er_owner (sy_ev s r) \<noteq> None"
  using assms by (auto simp: updateOwner_def enlist_def unlist_def Let_def bind_some split: if_splits option.splits)

lemma updateOwner_events:
  assumes "updateOwner r a s = Some s'" "events_ok s"
  shows "events_ok s'"
proof (cases "er_owner (sy_ev s r) = Some a")
  case False
  note eq = updateOwner_eq [OF assms(1) False]
  show ?thesis
    unfolding eq(1) by (rule relist_ok [OF assms(2)]) (use eq(2) events_okD(3) [OF assms(2), of r] in auto)
qed (use assms in \<open>simp add: updateOwner_def\<close>)

lemma clearOwner_eq:
  assumes "clearOwner r s = Some s'"
  shows "s' = enlist r (set_ev r ((sy_ev s r)\<lparr>er_owner := None\<rparr>) (unlist r s))"
  using assms by (auto simp: clearOwner_def enlist_def unlist_def Let_def bind_some split: if_splits option.splits)

lemma clearOwner_events:
  assumes "clearOwner r s = Some s'" "events_ok s"
  shows "events_ok s'" "er_owner (sy_ev s' r) = None"
  unfolding clearOwner_eq [OF assms(1)] using assms(2)
  by (auto intro!: relist_ok) (simp add: enlist_def unlist_def split: option.splits)

lemma eventDisable_events:
  assumes "eventDisable r a s = Some s'" "events_ok s"
  shows "events_ok s'"
proof -
  from assms(1) have "updateOwner r a (enlist r (set_ev r ((sy_ev s r)\<lparr>er_eventsEnabled := False\<rparr>) (unlist r s))) = Some s'"
    by (auto simp: eventDisable_def enlist_def unlist_def Let_def bind_some split: if_splits option.splits)
  then show ?thesis
    by (rule updateOwner_events) (rule relist_ok [OF assms(2)], simp)
qed

lemma switch_mode_eq:
  "er_owner (sy_ev s r) = Some a \<Longrightarrow> b \<noteq> er_interruptMode (sy_ev s r) \<Longrightarrow>
    switch_mode r a b s = enlist r (set_ev r ((sy_ev s r)\<lparr>er_interruptMode := b\<rparr>) (unlist r s))"
  by (auto simp: switch_mode_def enlist_def unlist_def Let_def)

lemma mark_enabled_events:
  assumes "events_ok s" "er_owner (sy_ev s r) = Some a" "er_inUse (sy_ev s r)"
  shows "events_ok (mark_enabled r a s)"
proof (cases "er_eventsEnabled (sy_ev s r)")
  case True
  with assms show ?thesis
    by (auto simp: mark_enabled_def Let_def intro!: events_ev_minor)
next
  case False
  with assms(2) have "mark_enabled r a s = enlist r (set_ev r ((sy_ev s r)\<lparr>er_eventsEnabled := True\<rparr>) (unlist r s))"
    by (auto simp: mark_enabled_def enlist_def unlist_def Let_def)
  with assms show ?thesis
    by (auto intro!: relist_ok)
qed

text \<open>A resource that is in no list can be changed freely, as long as it stays out of the lists.\<close>

lemma set_ev_unlisted:
  assumes "events_ok s" "er_owner (sy_ev s r) = None \<or> \<not> er_eventsEnabled (sy_ev s r)"
    "er_owner e = None \<or> \<not> er_eventsEnabled e"
  shows "events_ok (set_ev r e s)"
proof -
  have "set_ev r e s = enlist r (set_ev r e (unlist r s))"
    using assms(2,3) by (auto simp: enlist_def unlist_def split: option.splits)
  with relist_ok [OF assms(1)] assms(3) show ?thesis
    by simp
qed

lemma inUseOn_events:
  assumes "eventableSetInUseOn r a s = Some s'" "events_ok s"
  shows "events_ok s'"
proof -
  from assms(1) obtain z where z: "(if er_inUse (sy_ev s r) then clearOwner r s else Some s) = Some z"
    and s': "s' = set_ev r ((sy_ev z r)\<lparr>er_vector := 0, er_EV := er_ID (sy_ev z r), er_eventsEnabled := False,
       er_interruptMode := False, er_owner := Some a, er_inUse := True\<rparr>) z"
    by (auto simp: eventableSetInUseOn_def bind_some Let_def)
  from z assms(2) have "events_ok z" "er_owner (sy_ev z r) = None \<or> \<not> er_eventsEnabled (sy_ev z r)"
    by (auto split: if_splits dest: clearOwner_events events_okD(3))
  then show ?thesis
    unfolding s' by (rule set_ev_unlisted) simp
qed

lemma inUseOff_events: "eventableSetInUseOff r s = Some s' \<Longrightarrow> events_ok s \<Longrightarrow> events_ok s'"
  unfolding eventableSetInUseOff_def
  by (auto simp: bind_some split: if_splits intro!: set_ev_unlisted dest: clearOwner_events)

interpretation events: loose_inv events_ok
proof unfold_locales
  show "events_ok (switch_mode r a b s)"
    if "events_ok s" "er_owner (sy_ev s r) = Some a" "b \<noteq> er_interruptMode (sy_ev s r)" for s r a b
    unfolding switch_mode_eq [OF that(2,3)]
    by (rule relist_ok [OF that(1)]) (use events_okD(3) [OF that(1), of r] in simp)
qed (simp_all add: events_ev_minor updateOwner_events eventDisable_events mark_enabled_events inUseOn_events inUseOff_events)

interpretation events: reach_inv events_ok
  by unfold_locales simp_all

end
