(* ===== verification/RoutesInv.thy ===== *)
theory RoutesInv
  imports MachineInv
begin

text \<open>
  Routes between channel ends: in every reachable state a channel end that is
  within a packet is the source of the endpoint the packet goes to.  The packet
  that ends gives up its route in the middle of an operation, so the invariant
  is stated with a set of channel ends that are left out.
\<close>

declare split_paired_All [simp del] split_paired_Ex [simp del]

definition routes_except :: "addr set \<Rightarrow> sys \<Rightarrow> bool" where
  "routes_except X s \<longleftrightarrow> (\<forall>c. c \<notin> X \<longrightarrow> er_inUse (sy_ev s (Res_chanend c)) \<longrightarrow> ce_inPacket (sy_chanends s c) \<longrightarrow> \<not> ce_junkPacket (sy_chanends s c) \<longrightarrow>
     (\<exists>d. ce_dest (sy_chanends s c) = Some d \<and> ep_source (sy_endpoints s d) = Some (Ep_chanend c)))"

definition held_by :: "addr set \<Rightarrow> endpoint \<Rightarrow> sys \<Rightarrow> bool" where
  "held_by X d s \<longleftrightarrow> (\<forall>c. ep_source (sy_endpoints s d) = Some (Ep_chanend c) \<longrightarrow> c \<in> X)"

lemma held_byI: "ep_source (sy_endpoints s d) = None \<Longrightarrow> held_by X d s"
  "ep_source (sy_endpoints s d) = Some (Ep_switch n) \<Longrightarrow> held_by X d s"
  "ep_source (sy_endpoints s d) = Some (Ep_chanend c) \<Longrightarrow> c \<in> X \<Longrightarrow> held_by X d s"
  by (auto simp: held_by_def)

lemma held_by_switch [simp]: "held_by X d (set_switch n sw s) = held_by X d s"
  by (simp add: held_by_def)

abbreviation routes_ok :: "sys \<Rightarrow> bool" where
  "routes_ok \<equiv> routes_except {}"

lemma routes_except_mono: "routes_except X s \<Longrightarrow> X \<subseteq> Y \<Longrightarrow> routes_except Y s"
  by (auto simp: routes_except_def)

lemma routes_exceptD:
  assumes "routes_except X s" "c \<notin> X" "er_inUse (sy_ev s (Res_chanend c))" "ce_inPacket (sy_chanends s c)" "\<not> ce_junkPacket (sy_chanends s c)" "ce_dest (sy_chanends s c) = Some d"
  shows "ep_source (sy_endpoints s d) = Some (Ep_chanend c)"
  using assms unfolding routes_except_def by fastforce

interpretation routes_x: base_inv "routes_except X" for X
  by unfold_locales (auto simp: routes_except_def)

interpretation endpoint: base_inv "\<lambda>s. sy_endpoints s d = e" for d e
  by unfold_locales auto

subsection \<open>Claiming and releasing\<close>

lemma set_source_routes:
  assumes "routes_except X s" "held_by X d s"
  shows "routes_except X (set_endpoint d e s)"
  unfolding routes_except_def
proof (intro allI impI)
  fix c
  assume c: "c \<notin> X" "er_inUse (sy_ev (set_endpoint d e s) (Res_chanend c))" "ce_inPacket (sy_chanends (set_endpoint d e s) c)" "\<not> ce_junkPacket (sy_chanends (set_endpoint d e s) c)"
  with assms(1) obtain d' where d': "ce_dest (sy_chanends s c) = Some d'" "ep_source (sy_endpoints s d') = Some (Ep_chanend c)"
    unfolding routes_except_def set_selects by blast
  with assms(2) c(1) have "d' \<noteq> d"
    unfolding held_by_def by blast
  with d' show "\<exists>d'. ce_dest (sy_chanends (set_endpoint d e s) c) = Some d'
      \<and> ep_source (sy_endpoints (set_endpoint d e s) d') = Some (Ep_chanend c)"
    by auto
qed

lemma keep_source_routes:
  "routes_except X s \<Longrightarrow> ep_source e = ep_source (sy_endpoints s d) \<Longrightarrow> routes_except X (set_endpoint d e s)"
  unfolding routes_except_def by fastforce

lemma claim_routes:
  assumes "claim d n j s = (opened, junk, s')" "routes_except X s"
  shows "routes_except X s'" "sy_chanends s' = sy_chanends s \<and> sy_ev s' = sy_ev s" "junk \<or> \<not> j"
    "opened \<Longrightarrow> \<not> junk \<Longrightarrow> ep_source (sy_endpoints s' d) = Some n"
    "d' \<noteq> d \<Longrightarrow> sy_endpoints s' d' = sy_endpoints s d'"
  using assms unfolding claim_def Let_def
  by (auto split: if_splits intro: keep_source_routes set_source_routes held_byI)

lemma release_routes:
  assumes "release d tm s = Some s'" "routes_except X s"
    "held_by X d s"
  shows "routes_except X s'"
  using assms(1) set_source_routes [OF assms(2,3)] unfolding release_def Let_def
  by (auto split: list.splits elim!: routes_x.notify_I)

lemma release_other: "release d tm s = Some s' \<Longrightarrow> d' \<noteq> d \<Longrightarrow> sy_endpoints s' d' = sy_endpoints s d'"
  unfolding release_def Let_def by (auto split: list.splits elim!: endpoint.notify_I)

subsection \<open>Receiving\<close>

lemma last_token_routes:
  assumes "Chanend_receiveCtrlToken c tm v s = Some s'" "routes_except X s"
    "held_by X (Ep_chanend c) s"
  shows "routes_except X s'"
proof -
  have "routes_except X (Chanend_push c (Token v True) s)"
    "held_by X (Ep_chanend c) (Chanend_push c (Token v True) s)"
    using assms(2,3) by (auto intro: routes_x.Chanend_push_I simp: held_by_def endpoint.Chanend_push_I [OF refl])
  with assms show ?thesis
    unfolding Chanend_receiveCtrlToken_def
    by (auto simp: bind_some split: if_splits elim!: routes_x.Chanend_update_I release_routes)
qed

lemma token_keeps:
  assumes "(if isControl t then Chanend_receiveCtrlToken c tm (getValue t) s
            else Chanend_receiveDataToken c tm (getValue t) s) = Some s'"
    "isControl t \<Longrightarrow> getValue t \<noteq> CT_END \<and> getValue t \<noteq> CT_PAUSE"
  shows "routes_except X s \<Longrightarrow> routes_except X s'" "sy_endpoints s' = sy_endpoints s"
proof -
  have u: "\<exists>z. Chanend_update c tm (Chanend_push c z s) = Some s'"
    using assms by (auto simp: Chanend_receiveCtrlToken_def Chanend_receiveDataToken_def split: if_splits)
  then show "routes_except X s \<Longrightarrow> routes_except X s'"
    by (auto elim!: routes_x.Chanend_update_I intro!: routes_x.Chanend_push_I)
  show "sy_endpoints s' = sy_endpoints s"
    using u by (auto elim!: endpoint.Chanend_update_I intro!: endpoint.Chanend_push_I)
qed

lemma other_endpoint_kept:
  "Chanend_receiveCtrlToken c tm v s = Some s' \<Longrightarrow> d \<noteq> Ep_chanend c \<Longrightarrow> sy_endpoints s' d = sy_endpoints s d"
  unfolding Chanend_receiveCtrlToken_def
  by (auto simp: bind_some dest!: release_other split: if_splits elim!: endpoint.Chanend_update_I intro!: endpoint.Chanend_push_I)

lemma send_tokens_routes:
  assumes "send_tokens c tm (ts @ [Token CT_END True]) s = Some s'" "routes_except X s"
    "held_by X (Ep_chanend c) s" "\<forall>t \<in> set ts. isControl t \<longrightarrow> getValue t \<noteq> CT_END \<and> getValue t \<noteq> CT_PAUSE"
  shows "routes_except X s'"
  using assms
proof (induction ts arbitrary: s)
  case Nil
  then show ?case
    by (auto simp: bind_some elim!: last_token_routes)
next
  case (Cons t ts)
  then obtain z where z: "(if isControl t then Chanend_receiveCtrlToken c tm (getValue t) s
            else Chanend_receiveDataToken c tm (getValue t) s) = Some z"
    and rest: "send_tokens c tm (ts @ [Token CT_END True]) z = Some s'"
    by (auto simp: bind_some)
  note keep = token_keeps [OF z]
  show ?case
    by (rule Cons.IH [OF rest]) (use keep Cons.prems in \<open>auto simp: held_by_def\<close>)
qed

lemma send_tokens_other:
  "send_tokens c tm ts s = Some s' \<Longrightarrow> d \<noteq> Ep_chanend c \<Longrightarrow> sy_endpoints s' d = sy_endpoints s d"
proof (induction ts arbitrary: s)
  case (Cons t ts)
  then obtain z where z: "(if isControl t then Chanend_receiveCtrlToken c tm (getValue t) s
            else Chanend_receiveDataToken c tm (getValue t) s) = Some z" and rest: "send_tokens c tm ts z = Some s'"
    by (auto simp: bind_some)
  from z Cons.prems(2) have "sy_endpoints z d = sy_endpoints s d"
    using token_keeps(2) [of t c tm s z] by (auto split: if_splits elim: other_endpoint_kept)
  with Cons.IH [OF rest Cons.prems(2)] show ?case
    by simp
qed simp

lemma send_response_routes:
  assumes "send_response n tm c (response_tokens ack wr v) s = Some s'" "routes_except X s"
  shows "routes_except X s'" "d \<noteq> Ep_chanend c \<Longrightarrow> sy_endpoints s' d = sy_endpoints s d"
proof -
  obtain opened junk z where cl: "claim (Ep_chanend c) (Ep_switch n) False s = (opened, junk, z)"
    by (cases "claim (Ep_chanend c) (Ep_switch n) False s")
  note z = claim_routes [OF cl assms(2)]
  define ts where "ts = butlast (response_tokens ack wr v)"
  have ts: "response_tokens ack wr v = ts @ [Token CT_END True]"
    "\<forall>t \<in> set ts. isControl t \<longrightarrow> getValue t \<noteq> CT_END \<and> getValue t \<noteq> CT_PAUSE"
    by (auto simp: ts_def response_tokens_def write32_be_def butlast_append)
  consider "junk" "s' = z" | sw y sw' where "\<not> junk" "opened"
      "send_tokens c tm (ts @ [Token CT_END True]) (set_switch n sw z) = Some y" "s' = set_switch n sw' y"
    using assms(1) cl ts(1) by (auto simp: send_response_def Let_def bind_some split: if_splits)
  then have "routes_except X s' \<and> (\<forall>d. d \<noteq> Ep_chanend c \<longrightarrow> sy_endpoints s' d = sy_endpoints s d)"
  proof (cases)
    case 2
    have "routes_except X y"
      by (rule send_tokens_routes [OF 2(3) routes_x.set_I(5) [OF z(1)] _ ts(2)])
        (use z(4) 2 in \<open>auto intro: held_byI\<close>)
    then have "routes_except X s'"
      unfolding 2(4) by (rule routes_x.set_I)
    with send_tokens_other [OF 2(3)] z(5) 2(4) show ?thesis
      by simp
  qed (use z in auto)
  then show "routes_except X s'" "d \<noteq> Ep_chanend c \<Longrightarrow> sy_endpoints s' d = sy_endpoints s d"
    by blast+
qed

lemma handleRequest_routes:
  assumes "handleRequest n tm r s = Some s'" "routes_except X s"
  shows "routes_except X s'" "sy_endpoints s' (Ep_switch n) = sy_endpoints s (Ep_switch n)"
proof -
  from assms(1) obtain ack v z dest where z: "z = s \<or> switch_write n (rq_regNum r) (rq_data r) s = Some (ack, z)"
    and s': "(case dest of None \<Rightarrow> Some z | Some (Ep_chanend c) \<Rightarrow> send_response n tm c (response_tokens ack (rq_write r) v) z
      | Some (Ep_switch m) \<Rightarrow> None) = Some s'"
    by (rule handleRequest_cases)
  from z assms(2) have zi: "routes_except X z" "sy_endpoints z (Ep_switch n) = sy_endpoints s (Ep_switch n)"
    by (auto elim: routes_x.switch_write_I endpoint.switch_write_I)
  with s' show "routes_except X s'" "sy_endpoints s' (Ep_switch n) = sy_endpoints s (Ep_switch n)"
    by (auto split: option.splits endpoint.splits elim!: send_response_routes dest!: send_response_routes(2) [where d = "Ep_switch n"])
qed

lemma SSwitch_last_routes:
  assumes "SSwitch_receiveCtrlToken n tm v s = Some s'" "routes_except X s" "held_by X (Ep_switch n) s"
  shows "routes_except X s'"
proof -
  have step: "routes_except X z \<and> held_by X (Ep_switch n) z"
    if "z = s \<or> (\<exists>r. handleRequest n tm r s = Some z)" for z
    using that assms(2,3) handleRequest_routes [OF _ assms(2)] unfolding held_by_def by metis
  consider z sw where "z = s \<or> (\<exists>r. handleRequest n tm r s = Some z)" "release (Ep_switch n) tm (set_switch n sw z) = Some s'"
    | "release (Ep_switch n) tm s = Some s'" | sw where "s' = set_switch n sw s"
    using assms(1) unfolding SSwitch_receiveCtrlToken_def Let_def
    by (auto simp: bind_some split: if_splits option.splits)
  then show ?thesis
  proof cases
    case 1
    from step [OF 1(1)] 1(2) show ?thesis
      by (auto intro!: routes_x.set_I elim!: release_routes)
  qed (use assms(2,3) in \<open>auto intro!: routes_x.set_I elim!: release_routes\<close>)
qed

lemma receiveCtrlToken_routes:
  assumes "receiveCtrlToken d tm v s = Some s'" "routes_except X s" "held_by X d s"
  shows "routes_except X s'"
  using assms unfolding receiveCtrlToken_def
  by (auto split: endpoint.splits elim: last_token_routes SSwitch_last_routes)

lemma receiveCtrlToken_inner_routes:
  assumes "receiveCtrlToken d tm v s = Some s'" "routes_except X s" "v \<noteq> CT_END" "v \<noteq> CT_PAUSE"
  shows "routes_except X s'"
  using assms unfolding receiveCtrlToken_def Chanend_receiveCtrlToken_def SSwitch_receiveCtrlToken_def
  by (auto simp: bind_some split: endpoint.splits elim!: routes_x.Chanend_update_I
      intro!: routes_x.Chanend_push_I routes_x.set_I)

subsection \<open>Sending\<close>

lemma set_chanend_routes:
  assumes "routes_except (insert c X) s"
    "er_inUse (sy_ev s (Res_chanend c)) \<Longrightarrow> ce_inPacket x \<Longrightarrow> \<not> ce_junkPacket x \<Longrightarrow> \<exists>d. ce_dest x = Some d \<and> ep_source (sy_endpoints s d) = Some (Ep_chanend c)"
  shows "routes_except X (set_chanend c x s)"
  using assms unfolding routes_except_def by auto

lemma openRoute_routes:
  assumes "openRoute c s = Some (b, s')" "routes_ok s"
  shows "routes_ok s'" "b \<Longrightarrow> ce_inPacket (sy_chanends s' c)" "sy_ev s' = sy_ev s"
proof -
  have "routes_ok s' \<and> (b \<longrightarrow> ce_inPacket (sy_chanends s' c)) \<and> sy_ev s' = sy_ev s"
  proof (cases "ce_inPacket (sy_chanends s c)")
    case True
    with assms show ?thesis
      by (simp add: openRoute_def Let_def)
  next
    case False
    with assms(1) obtain dest where k: "(case dest of
        None \<Rightarrow> Some (True, set_chanend c ((sy_chanends s c)\<lparr>ce_dest := None, ce_junkPacket := True, ce_inPacket := True\<rparr>) s)
      | Some d \<Rightarrow> let (opened, junk, s1) = claim d (Ep_chanend c) (ce_junkPacket (sy_chanends s c)) s in
          Some (opened, set_chanend c ((sy_chanends s c)\<lparr>ce_dest := dest, ce_junkPacket := junk, ce_inPacket := opened\<rparr>) s1)) = Some (b, s')"
      by (rule openRoute_cases)
    show ?thesis
    proof (cases dest)
      case None
      with k assms(2) show ?thesis
        by (auto intro!: set_chanend_routes elim: routes_except_mono)
    next
      case (Some d)
      obtain opened junk z where cl: "claim d (Ep_chanend c) (ce_junkPacket (sy_chanends s c)) s = (opened, junk, z)"
        by (cases "claim d (Ep_chanend c) (ce_junkPacket (sy_chanends s c)) s")
      note z = claim_routes [OF cl assms(2)]
      with k Some cl show ?thesis
        by (auto intro!: set_chanend_routes elim: routes_except_mono)
    qed
  qed
  then show "routes_ok s'" "b \<Longrightarrow> ce_inPacket (sy_chanends s' c)" "sy_ev s' = sy_ev s"
    by blast+
qed

lemma Chanend_outct_routes:
  assumes "Chanend_outct c a v tm s = Some (r, s')" "er_inUse (sy_ev s (Res_chanend c))" "routes_ok s"
  shows "routes_ok s'"
proof -
  from assms(1) obtain b z where op: "openRoute c s = Some (b, z)"
    by (cases "openRoute c s") (auto simp: Chanend_outct_def)
  note z = openRoute_routes [OF op assms(3)]
  show ?thesis
  proof (cases "b \<and> \<not> ce_junkPacket (sy_chanends z c)")
    case False
    with assms(1) op have "pause_out c a z = Some (r, s') \<or> s' = z \<or> 
        s' = set_chanend c ((sy_chanends z c)\<lparr>ce_inPacket := False, ce_junkPacket := False\<rparr>) z"
      by (auto simp: Chanend_outct_def Let_def split: if_split_asm)
    with z(1) show ?thesis
      by (auto intro!: set_chanend_routes elim: routes_except_mono routes_x.pause_out_I)
  next
    case True
    with assms(1) op obtain d where d: "ce_dest (sy_chanends z c) = Some d"
      by (auto simp: Chanend_outct_def bind_some)
    have held: "held_by {c} d z"
      using routes_exceptD [OF z(1), of c d] z(2,3) assms(2) True d by (simp add: held_by_def)
    show ?thesis
    proof (cases "canAcceptToken d z")
      case False
      with assms(1) op True d z(1) show ?thesis
        by (auto simp: Chanend_outct_def elim: routes_x.pause_out_I)
    next
      case accept: True
      with assms(1) op True d obtain y where y: "receiveCtrlToken d tm v z = Some y"
        by (cases "receiveCtrlToken d tm v z") (auto simp: Chanend_outct_def)
      show ?thesis
      proof (cases "v = CT_END \<or> v = CT_PAUSE")
        case last: True
        have "routes_except {c} y"
          by (rule receiveCtrlToken_routes [OF y _ held]) (rule routes_except_mono [OF z(1)], simp)
        moreover have "s' = set_chanend c ((sy_chanends y c)\<lparr>ce_inPacket := False, ce_dest := None\<rparr>) y"
          using assms(1) op True d accept y last by (auto simp: Chanend_outct_def Let_def)
        ultimately show ?thesis
          by (auto intro!: set_chanend_routes)
      next
        case False
        moreover have "s' = y"
          using assms(1) op True d accept y False by (auto simp: Chanend_outct_def Let_def)
        ultimately show ?thesis
          using receiveCtrlToken_inner_routes [OF y z(1)] by simp
      qed
    qed
  qed
qed

text \<open>Operations that leave the routes alone and put no channel end into use.\<close>

definition same_routes :: "sys \<Rightarrow> sys \<Rightarrow> bool" where
  "same_routes s s' \<longleftrightarrow> sy_chanends s' = sy_chanends s \<and> sy_endpoints s' = sy_endpoints s
     \<and> (\<forall>c. er_inUse (sy_ev s' (Res_chanend c)) \<longrightarrow> er_inUse (sy_ev s (Res_chanend c)))"

lemma same_routes_I: "same_routes s s' \<Longrightarrow> routes_except X s \<Longrightarrow> routes_except X s'"
  by (simp add: same_routes_def routes_except_def)

lemma same_routes_trans: "same_routes s s' \<Longrightarrow> same_routes s' s'' \<Longrightarrow> same_routes s s''"
  by (auto simp: same_routes_def)

lemma same_routes_set [simp]:
  "same_routes s (addEnabled i a r s') = same_routes s s'" "same_routes s (removeEnabled i a r s') = same_routes s s'"
  "same_routes (addEnabled i a r s) s' = same_routes s s'" "same_routes (removeEnabled i a r s) s' = same_routes s s'"
  "same_routes s s" "(er_inUse e \<longrightarrow> er_inUse (sy_ev s r)) \<Longrightarrow> same_routes s (set_ev r e s)"
  by (simp_all add: same_routes_def)

lemma same_routes_owner:
  "updateOwner r a s = Some s' \<Longrightarrow> same_routes s s'" "clearOwner r s = Some s' \<Longrightarrow> same_routes s s'"
  by (auto simp: same_routes_def updateOwner_def clearOwner_def Let_def bind_some split: if_splits)

lemma same_routes_enable:
  "eventDisable r a s = Some s' \<Longrightarrow> same_routes s s'" "same_routes s (switch_mode r a b s)" "same_routes s (mark_enabled r a s)"
proof -
  show "same_routes s s'" if "eventDisable r a s = Some s'"
  proof -
    from that obtain z where "z = s \<or> (\<exists>i b. z = removeEnabled i b r s)"
      and d: "updateOwner r a (set_ev r ((sy_ev s r)\<lparr>er_eventsEnabled := False\<rparr>) z) = Some s'"
      by (auto simp: eventDisable_def Let_def bind_some split: if_splits)
    then have "same_routes s (set_ev r ((sy_ev s r)\<lparr>er_eventsEnabled := False\<rparr>) z)"
      by (auto simp: same_routes_def)
    with same_routes_owner(1) [OF d] show ?thesis
      by (rule same_routes_trans [rotated])
  qed
qed (auto simp: same_routes_def switch_mode_def mark_enabled_def Let_def)

lemma same_routes_use:
  "eventableSetInUseOn (Res_timer k) a s = Some s' \<Longrightarrow> same_routes s s'" "eventableSetInUseOff r s = Some s' \<Longrightarrow> same_routes s s'"
  by (auto simp: eventableSetInUseOn_def eventableSetInUseOff_def Let_def bind_some split: if_splits dest!: same_routes_owner(2))
    (auto simp: same_routes_def)

lemma inUseOn_routes:
  assumes "eventableSetInUseOn (Res_chanend c) a s = Some s'" "\<not> er_inUse (sy_ev s (Res_chanend c))"
    "\<not> ce_inPacket (sy_chanends s c)" "routes_except X s"
  shows "routes_except X s'"
proof -
  from assms(1,2) have s': "sy_chanends s' = sy_chanends s" "sy_endpoints s' = sy_endpoints s"
    "\<And>b. b \<noteq> c \<Longrightarrow> sy_ev s' (Res_chanend b) = sy_ev s (Res_chanend b)"
    by (auto simp: eventableSetInUseOn_def Let_def)
  show ?thesis
    using assms(3,4) s' unfolding routes_except_def by metis
qed

interpretation routes: machine_inv routes_ok
proof unfold_locales
  show "routes_ok s'" if "Chanend_alloc c a s = Some s'" "routes_ok s" for c a s s'
  proof -
    define x where "x = (sy_chanends s c)\<lparr>ce_dest := None, ce_pausedOut := None, ce_pausedIn := None,
      ce_inPacket := False, ce_junkPacket := False\<rparr>"
    from that(1) obtain z where "\<not> er_inUse (sy_ev s (Res_chanend c))" "\<not> ce_inPacket x" and
      on: "eventableSetInUseOn (Res_chanend c) a (set_chanend c x s) = Some z" and
      s': "s' = set_endpoint (Ep_chanend c) ((sy_endpoints z (Ep_chanend c))\<lparr>ep_junkIncoming := False\<rparr>) z"
      by (auto simp: Chanend_alloc_def Let_def bind_some assert_that_def x_def split: if_splits)
    moreover from this that(2) have "routes_ok (set_chanend c x s)"
      by (auto intro!: set_chanend_routes elim: routes_except_mono)
    ultimately show ?thesis
      unfolding s' by (auto intro!: keep_source_routes inUseOn_routes [OF on])
  qed
  show "Chanend_free c s = Some (b, s') \<Longrightarrow> routes_ok s \<Longrightarrow> routes_ok s'" for c s b s'
    unfolding Chanend_free_def Let_def
    by (auto simp: bind_some split: if_splits intro!: keep_source_routes dest!: same_routes_use(2) elim!: same_routes_I)
qed (auto intro: same_routes_I same_routes_owner same_routes_enable same_routes_use openRoute_routes Chanend_outct_routes)

interpretation routes: reach_inv routes_ok
  by unfold_locales (simp_all add: routes_except_def)

declare split_paired_All [simp] split_paired_Ex [simp]

end
