(* ===== verification/WholeSystem.thy ===== *)
theory WholeSystem
  imports SchedulerInv EventsInv RoutesInv ExecSafe
begin

text \<open>
  Whole systems: their construction, the states they reach, and the runs of
  \<open>SystemState::run\<close>.
\<close>

subsection \<open>Construction\<close>

abbreviation (input) CHANEND_BUFFER_SIZE :: nat where "CHANEND_BUFFER_SIZE \<equiv> 8"

text \<open>What the constructors leave uninitialised is an argument.\<close>

definition EventableResource_new :: "u32 \<Rightarrow> nat \<Rightarrow> evres \<Rightarrow> evres" where
  "EventableResource_new ty num e = e\<lparr>er_inUse := False, er_ID := res_setNum (of_nat num) ty, er_owner := None\<rparr>"

definition ChanEndpoint_new :: chan_endpoint where
  "ChanEndpoint_new = \<lparr>ep_junkIncoming = True, ep_queue = [], ep_source = None\<rparr>"

definition Chanend_new :: "chanend \<Rightarrow> chanend" where
  "Chanend_new x = x\<lparr>ce_buf := rb_new (Token 0 False) CHANEND_BUFFER_SIZE\<rparr>"

definition Timer_new :: "timer \<Rightarrow> timer" where
  "Timer_new x = x\<lparr>tm_pausedIn := None\<rparr>"

definition Lock_new :: "lock \<Rightarrow> lock" where
  "Lock_new x = x\<lparr>lk_inUse := False, lk_threads := []\<rparr>"

definition Synchroniser_new :: "synchroniser \<Rightarrow> synchroniser" where
  "Synchroniser_new x = x\<lparr>sn_inUse := False\<rparr>"

text \<open>The constructor of a core allocates its thread 0.\<close>

definition core_thread :: "core \<Rightarrow> nat \<Rightarrow> cpu_thread \<Rightarrow> cpu_thread" where
  "core_thread c n t0 = (
     let t = Thread_new c (of_nat n) (ssync t0) (sync t0) (pendingPc t0) (pausedOn t0) in
     if n = 0 then (case Thread_alloc 0 t of Some t \<Rightarrow> t | None \<Rightarrow> t) else t)"

definition core_eventable :: "res \<Rightarrow> evres \<Rightarrow> evres" where
  "core_eventable r e = (case r of
      Res_chanend a \<Rightarrow> EventableResource_new RES_TYPE_CHANEND (snd a) e
    | Res_timer a \<Rightarrow> EventableResource_new RES_TYPE_TIMER (snd a) e
    | _ \<Rightarrow> e\<lparr>er_inUse := False, er_owner := None\<rparr>)"

definition core_endpoint :: "endpoint \<Rightarrow> chan_endpoint" where
  "core_endpoint d = (case d of
      Ep_chanend a \<Rightarrow> ChanEndpoint_new
    | Ep_switch n \<Rightarrow> ChanEndpoint_new\<lparr>ep_junkIncoming := False\<rparr>)"

text \<open>A system of the given cores; the objects of \<open>s0\<close> are those of uninitialised memory.\<close>

definition SystemState_new :: "nat list \<Rightarrow> (nat \<Rightarrow> core) \<Rightarrow> dcache \<Rightarrow> network \<Rightarrow> (nat \<Rightarrow> u32) \<Rightarrow> sys \<Rightarrow> sys" where
  "SystemState_new cores cs romdc net clk0 s0 = \<lparr>
     sy_scheduler = rq_new, sy_currentRunnable = None, sy_pendingEvent = None,
     sy_coreList = cores, sy_cores = cs, sy_romdc = romdc, sy_net = net,
     sy_switches = (\<lambda>n. SSwitch_new (clk0 n)),
     sy_threads = (\<lambda>a. core_thread (cs (fst a)) (snd a) (sy_threads s0 a)),
     sy_events = (\<lambda>a. []), sy_interrupts = (\<lambda>a. []),
     sy_ev = (\<lambda>r. core_eventable r (sy_ev s0 r)),
     sy_endpoints = core_endpoint,
     sy_chanends = (\<lambda>c. Chanend_new (sy_chanends s0 c)),
     sy_timers = (\<lambda>k. Timer_new (sy_timers s0 k)),
     sy_locks = (\<lambda>k. Lock_new (sy_locks s0 k)),
     sy_syncs = (\<lambda>y. Synchroniser_new (sy_syncs s0 y))\<rparr>"

subsection \<open>Reachable states\<close>

text \<open>
  A system is constructed and loaded: the loader writes the memory of the
  cores, the registers of their threads and the configuration of the network,
  and schedules threads.  Then it runs.
\<close>

inductive reachable :: "sys \<Rightarrow> bool" where
  new: "reachable (SystemState_new cores cs romdc net clk0 s0)"
| load: "reachable s \<Longrightarrow> reachable (s\<lparr>sy_threads := th, sy_cores := cs, sy_romdc := dc, sy_net := nt\<rparr>)"
| sched: "reachable s \<Longrightarrow> schedule a s = Some s' \<Longrightarrow> reachable s'"
| step: "reachable s \<Longrightarrow> machine_step s s' \<Longrightarrow> reachable s'"

lemma reachable_steps:
  assumes "reachable s" "machine_step\<^sup>*\<^sup>* s s'"
  shows "reachable s'"
  using assms(2,1) by induction (auto intro: reachable.step)

context reach_inv
begin

lemma reachable_inv:
  assumes "\<And>cores cs romdc net clk0 s0. I (SystemState_new cores cs romdc net clk0 s0)" and "reachable s"
  shows "I s"
  using assms(2)
proof induction
  case load
  then show ?case
    by (intro net romdc cores threads)
qed (auto intro: assms(1) schedule_I machine_step_I)

end

lemma new_ok:
  "sched_ok (SystemState_new cores cs romdc net clk0 s0)"
  "events_ok (SystemState_new cores cs romdc net clk0 s0)"
  "routes_ok (SystemState_new cores cs romdc net clk0 s0)"
proof -
  note defs = SystemState_new_def core_eventable_def EventableResource_new_def
  show "sched_ok (SystemState_new cores cs romdc net clk0 s0)"
    using rq_new_rel by (auto simp: sched_ok_def SystemState_new_def)
  show "events_ok (SystemState_new cores cs romdc net clk0 s0)"
    by (auto simp: events_ok_def listed_def defs split: res.splits)
  show "routes_ok (SystemState_new cores cs romdc net clk0 s0)"
    by (auto simp: routes_except_def defs)
qed

lemmas reachable_sched = sched.reachable_inv [OF new_ok(1)]
lemmas reachable_events = events.reachable_inv [OF new_ok(2)]
lemmas reachable_routes = routes.reachable_inv [OF new_ok(3)]

subsection \<open>The loops as sequences of steps\<close>

interpretation current: loose_inv "\<lambda>s. sy_currentRunnable s = r" for r
proof unfold_locales
  show "eventableSetInUseOff rr s = Some s' \<Longrightarrow> sy_currentRunnable s = r \<Longrightarrow> sy_currentRunnable s' = r" for rr s s'
    by (auto simp: eventableSetInUseOff_def clearOwner_def Let_def bind_some split: if_splits)
qed (auto simp: updateOwner_def eventDisable_def switch_mode_def mark_enabled_def eventableSetInUseOn_def clearOwner_def
    Let_def bind_some split: if_splits)

lemma thread_loop_steps:
  assumes "thread_loop ops0 a s = Some r"
  shows "sy_currentRunnable s = Some (Run_res (Res_thread a)) \<longrightarrow> machine_step\<^sup>*\<^sup>* s (result_sys r)"
proof (rule thread_loop.raw_induct [of "\<lambda>ops0 a s r. sy_currentRunnable s = Some (Run_res (Res_thread a)) \<longrightarrow>
    machine_step\<^sup>*\<^sup>* s (result_sys r)", OF _ assms], rule impI)
  fix loop ops0 a s r
  assume IH: "\<And>ops0 a s r. loop ops0 a s = Some r \<Longrightarrow>
      sy_currentRunnable s = Some (Run_res (Res_thread a)) \<longrightarrow> machine_step\<^sup>*\<^sup>* s (result_sys r)"
    and run: "dispatch ops0 a s \<bind> (\<lambda>r. case r of Ret k s \<Rightarrow>
        if k = END_THREAD_EXECUTION then Some (Ret k s) else loop ops0 a s | Throw e s \<Rightarrow> Some (Throw e s)) = Some r"
    and cur: "sy_currentRunnable s = Some (Run_res (Res_thread a))"
  from run obtain x where x: "dispatch ops0 a s = Some x"
    by (cases "dispatch ops0 a s") auto
  have s: "machine_step s (result_sys x)"
    by (rule machine_step.thread [OF cur x])
  have c: "sy_currentRunnable (result_sys x) = Some (Run_res (Res_thread a))"
    by (rule current.dispatch_I [OF x cur])
  from run x have "r = x \<or> loop ops0 a (result_sys x) = Some r"
    by (cases x) (auto split: if_splits)
  with IH [of ops0 a "result_sys x" r] s c show "machine_step\<^sup>*\<^sup>* s (result_sys r)"
    by (auto intro: converse_rtranclp_into_rtranclp)
qed

lemma runnable_run_steps:
  assumes "runnable_run ops0 r tm s = Some x" "sy_currentRunnable s = Some r"
  shows "machine_step\<^sup>*\<^sup>* s (result_sys x)"
proof -
  have thread: "machine_step\<^sup>*\<^sup>* s (result_sys x)"
    if run: "Thread_run ops0 a s = Some x" and r: "r = Run_res (Res_thread a)" for a
  proof (cases "time (sy_threads s a) = 0")
    case True
    define z where "z = set_thread a ((sy_threads s a)\<lparr>time := 1\<rparr>) s"
    have "machine_step s z"
      unfolding z_def by (rule machine_step.start) (use assms(2) r True in auto)
    moreover have "machine_step\<^sup>*\<^sup>* z (result_sys x)"
      using run True assms(2) r by (intro thread_loop_steps [rule_format]) (auto simp: Thread_run_def z_def Let_def)
    ultimately show ?thesis
      by (rule converse_rtranclp_into_rtranclp)
  next
    case False
    with run assms(2) r show ?thesis
      by (intro thread_loop_steps [rule_format]) (auto simp: Thread_run_def Let_def)
  qed
  show ?thesis
  proof (cases r)
    case (Run_res q)
    with assms thread show ?thesis
      by (cases q) (auto simp: runnable_run_def bind_some intro!: r_into_rtranclp elim: machine_step.timer)
  next
    case Run_timeout
    with assms show ?thesis
      by (auto simp: runnable_run_def)
  qed
qed

lemma stop_none:
  "stop_reason e s = NO_RUNNABLE_THREADS tm \<Longrightarrow> rq_empty (sy_scheduler s)"
  by (auto simp: stop_reason_def split: thrown.splits if_splits)

definition run_ok :: "operands \<Rightarrow> sys \<Rightarrow> StopReason \<times> sys \<Rightarrow> bool" where
  "run_ok ops0 s x \<longleftrightarrow> machine_step\<^sup>*\<^sup>* s (snd x) \<and>
     (\<forall>tm. fst x = NO_RUNNABLE_THREADS tm \<longrightarrow> rq_empty (sy_scheduler (snd x)))"

lemma system_run_steps:
  assumes "system_run ops0 s = Some x"
  shows "run_ok ops0 s x"
proof (rule system_run.raw_induct [of run_ok, OF _ assms])
  fix run ops0 s x
  assume IH: "\<And>ops0 s x. run ops0 s = Some x \<Longrightarrow> run_ok ops0 s x"
    and run: "(case rq_front (sy_scheduler s) of
        None \<Rightarrow> Some (NO_RUNNABLE_THREADS (getLatestThreadTime s), s)
      | Some r \<Rightarrow> do {
          q \<leftarrow> rq_pop (sy_scheduler s);
          let s = s\<lparr>sy_currentRunnable := Some r, sy_scheduler := q\<rparr>;
          x \<leftarrow> runnable_run ops0 r (rq_wakeUpTime q r) s;
          (case x of Ret k s \<Rightarrow> run ops0 s | Throw e s \<Rightarrow> Some (stop_reason e s, s))
        }) = Some x"
  show "run_ok ops0 s x"
  proof (cases "rq_front (sy_scheduler s)")
    case None
    with run show ?thesis
      by (auto simp: run_ok_def rq_empty_def rq_front_def)
  next
    case (Some r)
    with run obtain q y where q: "rq_pop (sy_scheduler s) = Some q" and
      y: "runnable_run ops0 r (rq_wakeUpTime q r) (s\<lparr>sy_currentRunnable := Some r, sy_scheduler := q\<rparr>) = Some y" and
      x: "(case y of Throw e s \<Rightarrow> Some (stop_reason e s, s) | Ret k s \<Rightarrow> run ops0 s) = Some x"
      by (auto simp: bind_some Let_def)
    have "machine_step s (s\<lparr>sy_currentRunnable := Some r, sy_scheduler := q\<rparr>)"
      by (rule machine_step.select [OF Some q])
    also have "machine_step\<^sup>*\<^sup>* (s\<lparr>sy_currentRunnable := Some r, sy_scheduler := q\<rparr>) (result_sys y)"
      by (rule runnable_run_steps [OF y]) simp
    finally have "machine_step\<^sup>*\<^sup>* s (result_sys y)" .
    with x IH [of ops0 "result_sys y" x] show ?thesis
      by (cases y) (auto simp: run_ok_def dest: stop_none intro: rtranclp_trans)
  qed
qed


text \<open>The endpoint that the packet of a channel end goes to.\<close>

definition packet_route :: "sys \<Rightarrow> addr \<Rightarrow> endpoint option" where
  "packet_route s c = (
     let x = sy_chanends s c in
     if er_inUse (sy_ev s (Res_chanend c)) \<and> ce_inPacket x \<and> \<not> ce_junkPacket x then ce_dest x else None)"

subsection \<open>A running system\<close>

text \<open>
  One core with sixteen bytes of memory, whose thread 0 is scheduled.  Its
  program allocates a timer and enables its events, allocates two channel
  ends, connects the first to the second, sends a word and frees the thread.
\<close>

definition blank_sys :: sys where
  "blank_sys = \<lparr>
     sy_scheduler = rq_new, sy_currentRunnable = None, sy_pendingEvent = None, sy_coreList = [],
     sy_cores = (\<lambda>_. demo_core_of 0), sy_romdc = demo_rom, sy_net = demo_net, sy_switches = (\<lambda>_. SSwitch_new 0),
     sy_threads = (\<lambda>_. Thread_new (demo_core_of 0) 0 False None 0 None),
     sy_events = (\<lambda>_. []), sy_interrupts = (\<lambda>_. []),
     sy_ev = (\<lambda>_. \<lparr>er_inUse = False, er_ID = 0, er_vector = 0, er_EV = 0, er_eventsEnabled = False,
        er_interruptMode = False, er_owner = None\<rparr>),
     sy_endpoints = (\<lambda>_. ChanEndpoint_new),
     sy_chanends = (\<lambda>_. \<lparr>ce_destID = 0, ce_dest = None, ce_buf = rb_new (Token 0 False) 8, ce_pausedOut = None, ce_pausedIn = None,
        ce_waitForWord = False, ce_inPacket = False, ce_junkPacket = False\<rparr>),
     sy_timers = (\<lambda>_. \<lparr>tm_after = False, tm_data = 0, tm_pausedIn = None\<rparr>),
     sy_locks = (\<lambda>_. \<lparr>lk_inUse = False, lk_held = False, lk_threads = []\<rparr>),
     sy_syncs = (\<lambda>_. \<lparr>sn_inUse = False, sn_threads = [], sn_NumPaused = 0, sn_join = False\<rparr>)\<rparr>"

definition demo_program :: "u16 list" where
  "demo_program = [0x86c9, 0x07f2, 0x86c2, 0x86c6, 0x16d4, 0xaec4, 0x07ef, 0]"

definition demo_sys :: sys where
  "demo_sys = SystemState_new [0]
     ((\<lambda>_. demo_core_of 0)
       (0 := boot_core 4 (concat (map (write16le True) demo_program)) [0, 0, 0, 0, 0, 0] 0 XS1_L False [] 0 0))
     demo_rom demo_net (\<lambda>_. 0) blank_sys"

definition demo_ready :: sys where
  "demo_ready = demo_sys
     \<lparr>sy_threads := (sy_threads demo_sys)((0, 0) := mark_scheduled (sy_threads demo_sys (0, 0))),
      sy_scheduler := \<lparr>rq_head = Some (Run_res (Res_thread (0, 0))), rq_prev = (\<lambda>_. None), rq_next = (\<lambda>_. None), rq_wakeUpTime = (\<lambda>_. 0)\<rparr>\<rparr>"

lemma demo_schedule: "schedule (0, 0) demo_sys = Some demo_ready"
  by (simp add: schedule_def demo_ready_def demo_sys_def SystemState_new_def rq_push_def rq_new_def rq_contains_def set_next_def set_thread_def mark_scheduled_def fun_eq_iff Let_def core_thread_def Thread_alloc_def Thread_new_def)

lemma demo_sched: "sched_ok demo_sys"
  unfolding demo_sys_def by (rule new_ok)

lemma demo_reachable: "reachable demo_ready"
  by (rule reachable.sched [OF _ demo_schedule]) (unfold demo_sys_def, rule reachable.new)

lemma demo_front: "rq_front (sy_scheduler demo_ready) = Some (Run_res (Res_thread (0, 0)))"
  by (simp add: demo_ready_def rq_front_def)

lemma demo_computed:
  "(case system_run [0, 0, 0, 0, 0, 0] demo_ready of
      None \<Rightarrow> False
    | Some x \<Rightarrow> fst x = NO_RUNNABLE_THREADS 29
        \<and> er_owner (sy_ev (snd x) (Res_timer (0, 0))) = Some (0, 0) \<and> er_eventsEnabled (sy_ev (snd x) (Res_timer (0, 0)))
        \<and> \<not> er_interruptMode (sy_ev (snd x) (Res_timer (0, 0)))
        \<and> packet_route (snd x) (0, 0) = Some (Ep_chanend (0, 1)))"
  by code_simp

lemma demo_run:
  obtains s where "system_run [0, 0, 0, 0, 0, 0] demo_ready = Some (NO_RUNNABLE_THREADS 29, s)" "reachable s"
    "er_owner (sy_ev s (Res_timer (0, 0))) = Some (0, 0)" "er_eventsEnabled (sy_ev s (Res_timer (0, 0)))"
    "\<not> er_interruptMode (sy_ev s (Res_timer (0, 0)))" "packet_route s (0, 0) = Some (Ep_chanend (0, 1))"
proof (cases "system_run [0, 0, 0, 0, 0, 0] demo_ready")
  case (Some x)
  then have x: "x = (NO_RUNNABLE_THREADS 29, snd x)"
    using demo_computed by (cases x) simp
  from system_run_steps [OF Some] have "reachable (snd x)"
    unfolding run_ok_def by (blast intro: reachable_steps [OF demo_reachable])
  with demo_computed Some x show ?thesis
    by (intro that [of "snd x"]) auto
qed (use demo_computed in simp)

subsection \<open>Reachable states are consistent\<close>

text \<open>
  C3. In every reachable state the scheduler holds a schedule: its runnables
  are in the order of their wake up times, none is queued twice, \<open>contains\<close>
  says exactly which are queued, and the front is the earliest one.
\<close>

theorem scheduler_consistent:
  assumes "reachable s"
  shows "\<exists>w. rq_rel (sy_scheduler s) w \<and> sorted (map fst w) \<and> distinct (map snd w)
    \<and> (\<forall>r. rq_contains (sy_scheduler s) r \<longleftrightarrow> r \<in> snd ` set w)
    \<and> (\<forall>(tm, r) \<in> set w. rq_wakeUpTime (sy_scheduler s) r = tm)
    \<and> rq_front (sy_scheduler s) = (case w of [] \<Rightarrow> None | (tm, r) # v \<Rightarrow> Some r)"
proof -
  obtain w where w: "rq_rel (sy_scheduler s) w"
    using reachable_sched [OF assms] by (auto simp: sched_ok_def)
  moreover have "rq_front (sy_scheduler s) = (case w of [] \<Rightarrow> None | (tm, r) # v \<Rightarrow> Some r)"
    using w rq.front_nil rq.front_cons by (fastforce split: list.splits)
  moreover have "\<forall>(tm, r) \<in> set w. rq_wakeUpTime (sy_scheduler s) r = tm"
    using w by (auto simp: rq_rel_def rq_schedule_def)
  ultimately show ?thesis
    using rq.rel_sorted [OF w] rq.queued_iff [OF w] by (intro exI [of _ w]) simp
qed

theorem scheduler_consistent_witness:
  "\<exists>w. rq_rel (sy_scheduler demo_ready) w \<and> map snd w = [Run_res (Res_thread (0, 0))]"
proof -
  obtain w where w: "rq_rel (sy_scheduler demo_ready) w" "distinct (map snd w)"
    "\<forall>r. rq_contains (sy_scheduler demo_ready) r \<longleftrightarrow> r \<in> snd ` set w"
    using scheduler_consistent [OF demo_reachable] by blast
  have "rq_contains (sy_scheduler demo_ready) r \<longleftrightarrow> r = Run_res (Res_thread (0, 0))" for r
    by (auto simp: demo_ready_def rq_contains_def)
  with w(3) have "set (map snd w) = {Run_res (Res_thread (0, 0))}"
    by auto
  with w(2) have "map snd w = [Run_res (Res_thread (0, 0))]"
    by (cases w; cases "tl w") auto
  with w(1) show ?thesis
    by metis
qed

text \<open>
  C6. In every reachable state a resource is in the list of event enabled (or
  interrupt enabled) resources of a thread exactly when the thread owns it and
  it is enabled in that mode; no list has a resource twice, and a resource that
  is not in use is in no list.
\<close>

theorem event_lists_consistent:
  assumes "reachable s"
  shows "distinct (sy_events s a) \<and> distinct (sy_interrupts s a)
    \<and> (r \<in> set (sy_events s a) \<longleftrightarrow>
        er_owner (sy_ev s r) = Some a \<and> er_eventsEnabled (sy_ev s r) \<and> \<not> er_interruptMode (sy_ev s r))
    \<and> (r \<in> set (sy_interrupts s a) \<longleftrightarrow>
        er_owner (sy_ev s r) = Some a \<and> er_eventsEnabled (sy_ev s r) \<and> er_interruptMode (sy_ev s r))
    \<and> (r \<in> set (sy_events s a) \<union> set (sy_interrupts s a) \<longrightarrow> er_inUse (sy_ev s r))"
proof -
  note ok = reachable_events [OF assms]
  have "er_inUse (sy_ev s r) \<or> er_owner (sy_ev s r) = None \<or> \<not> er_eventsEnabled (sy_ev s r)"
    using events_okD(3) [OF ok] by blast
  then show ?thesis
    using events_okD(1,2) [OF ok, where i = False and a = a] events_okD(1,2) [OF ok, where i = True and a = a]
    unfolding listed_def by auto
qed

theorem event_lists_consistent_witness:
  "\<exists>s. reachable s \<and> Res_timer (0, 0) \<in> set (sy_events s (0, 0)) \<and> er_inUse (sy_ev s (Res_timer (0, 0)))"
proof -
  obtain s where s: "reachable s" "er_owner (sy_ev s (Res_timer (0, 0))) = Some (0, 0)"
    "er_eventsEnabled (sy_ev s (Res_timer (0, 0)))" "\<not> er_interruptMode (sy_ev s (Res_timer (0, 0)))"
    using demo_run by blast
  with event_lists_consistent [OF s(1), of "(0, 0)" "Res_timer (0, 0)"] show ?thesis
    by blast
qed

text \<open>
  C4. In every reachable state a channel end that is in use and within a packet
  that is not junked has a destination, and it is the source of that
  destination; so the packets of two channel ends never go to the same
  destination at the same time.
\<close>

theorem routes_exclusive:
  assumes "reachable s"
  shows "(er_inUse (sy_ev s (Res_chanend c)) \<and> ce_inPacket (sy_chanends s c) \<and> \<not> ce_junkPacket (sy_chanends s c)
      \<longleftrightarrow> packet_route s c \<noteq> None)
    \<and> (packet_route s c = Some d \<longrightarrow> ep_source (sy_endpoints s d) = Some (Ep_chanend c))
    \<and> (packet_route s c = Some d \<and> packet_route s c' = Some d \<longrightarrow> c = c')"
proof -
  have r: "\<exists>d. ce_dest (sy_chanends s c) = Some d \<and> ep_source (sy_endpoints s d) = Some (Ep_chanend c)"
    if "er_inUse (sy_ev s (Res_chanend c))" "ce_inPacket (sy_chanends s c)" "\<not> ce_junkPacket (sy_chanends s c)" for c
    using reachable_routes [OF assms] that unfolding routes_except_def by blast
  have src: "packet_route s c = Some d \<Longrightarrow> ep_source (sy_endpoints s d) = Some (Ep_chanend c)" for c
    using r [of c] by (auto simp: packet_route_def Let_def split: if_splits)
  have "packet_route s c = Some d \<Longrightarrow> packet_route s c' = Some d \<Longrightarrow> c = c'"
    using src [of c] src [of c'] by simp
  moreover have "er_inUse (sy_ev s (Res_chanend c)) \<and> ce_inPacket (sy_chanends s c) \<and> \<not> ce_junkPacket (sy_chanends s c)
      \<longleftrightarrow> packet_route s c \<noteq> None"
    using r [of c] by (auto simp: packet_route_def Let_def)
  ultimately show ?thesis
    using src [of c] by blast
qed

theorem routes_exclusive_witness:
  "\<exists>s. reachable s \<and> packet_route s (0, 0) = Some (Ep_chanend (0, 1))
     \<and> ep_source (sy_endpoints s (Ep_chanend (0, 1))) = Some (Ep_chanend (0, 0)) \<and> er_inUse (sy_ev s (Res_chanend (0, 0)))"
proof -
  obtain s where s: "reachable s" "packet_route s (0, 0) = Some (Ep_chanend (0, 1))"
    using demo_run by blast
  with routes_exclusive [OF s(1), of "(0, 0)" "Ep_chanend (0, 1)"] show ?thesis
    by blast
qed



end
