(* ===== verification/Synchronisation.thy ===== *)
theory Synchronisation
  imports WholeSystem "HOL-Library.Multiset"
begin

text \<open>
  Locks and synchronisers (\<open>Lock.cpp\<close>, \<open>Synchroniser.cpp\<close>): what sequences of
  requests and releases do to a lock, and what the threads of a barrier see
  when they arrive at it in any order.
\<close>

subsection \<open>Locks\<close>

text \<open>
  The requests and releases of a lock, in the order in which they happen, and
  the threads they give the lock to: a request gives it to its thread if it
  continues, a release to the thread it wakes.
\<close>

datatype lock_op = Request addr | Release ticks_t

fun lock_ops :: "addr \<Rightarrow> lock_op list \<Rightarrow> sys \<Rightarrow> (addr list \<times> sys) option" where
  "lock_ops k [] s = Some ([], s)"
| "lock_ops k (Request a # ops) s = do {
     (r, v, s) \<leftarrow> Lock_in k a s;
     (grants, s) \<leftarrow> lock_ops k ops s;
     Some (if r = Op_continue then a # grants else grants, s)
   }"
| "lock_ops k (Release tm # ops) s = do {
     let woken = take 1 (lk_threads (sy_locks s k));
     (r, s) \<leftarrow> Lock_out k tm s;
     (grants, s) \<leftarrow> lock_ops k ops s;
     Some (woken @ grants, s)
   }"

fun requests :: "lock_op list \<Rightarrow> addr list" where
  "requests [] = []"
| "requests (Request a # ops) = a # requests ops"
| "requests (Release tm # ops) = requests ops"

fun releases :: "lock_op list \<Rightarrow> nat" where
  "releases [] = 0"
| "releases (Request a # ops) = releases ops"
| "releases (Release tm # ops) = Suc (releases ops)"

lemma Lock_in_eq:
  "Lock_in k a s = Some (if lk_held (sy_locks s k)
     then (Op_deschedule, 0, set_lock k ((sy_locks s k)\<lparr>lk_threads := lk_threads (sy_locks s k) @ [a]\<rparr>) s)
     else (Op_continue, resID RES_TYPE_LOCK (of_nat (snd k)), set_lock k ((sy_locks s k)\<lparr>lk_held := True\<rparr>) s))"
  by (simp add: Lock_in_def Let_def)

lemma set_lock_sched [simp]: "sched_ok (set_lock k x s) = sched_ok s"
  by (simp add: sched_ok_def)

lemma Lock_out_wakes:
  assumes "sched_ok s" "lk_threads (sy_locks s k) = n # ns"
  obtains s' where "Lock_out k tm s = Some (Op_continue, s')" "sched_ok s'"
    "sy_locks s' = (sy_locks s)(k := (sy_locks s k)\<lparr>lk_threads := ns\<rparr>)"
    "queued s' n" "tm \<le> time (sy_threads s' n)" "\<not> bit (sr (sy_threads s' n)) WAITING"
    "pc (sy_threads s' n) = pc (getNextPC (sy_cores s (fst n)) (sy_threads s n))" "regs (sy_threads s' n) = regs (sy_threads s n)"
    "\<forall>r. rq_contains (sy_scheduler s) r \<longrightarrow> rq_contains (sy_scheduler s') r"
proof -
  define z where "z = set_thread n (getNextPC (sy_cores s (fst n))
    (if time (sy_threads s n) < tm then (sy_threads s n)\<lparr>time := tm\<rparr> else sy_threads s n)) (set_lock k ((sy_locks s k)\<lparr>lk_threads := ns\<rparr>) s)"
  have out: "Lock_out k tm s = do { s \<leftarrow> schedule n z; Some (Op_continue, s) }"
    by (simp add: Lock_out_def Let_def z_def assms(2))
  have z: "sched_ok z"
    using assms(1) by (simp add: z_def)
  from z obtain q where q: "schedule n z = Some ((set_thread n (mark_scheduled (sy_threads z n)) z)\<lparr>sy_scheduler := q\<rparr>)"
    "sched_ok ((set_thread n (mark_scheduled (sy_threads z n)) z)\<lparr>sy_scheduler := q\<rparr>)"
    "rq_wakeUpTime q (Run_res (Res_thread n)) = time (sy_threads z n)"
    "\<forall>r. rq_contains q r \<longleftrightarrow> r = Run_res (Res_thread n) \<or> rq_contains (sy_scheduler z) r"
    by (rule schedule_ok [where a = n])
  show ?thesis
  proof (rule that [OF _ q(2)])
    show "Lock_out k tm s = Some (Op_continue, (set_thread n (mark_scheduled (sy_threads z n)) z)\<lparr>sy_scheduler := q\<rparr>)"
      using out q(1) by simp
  qed (use q(4) in \<open>auto simp: z_def mark_scheduled_def getNextPC_def sr_set_def bit_simps\<close>)
qed

lemma Lock_out_free:
  "lk_threads (sy_locks s k) = [] \<Longrightarrow>
    Lock_out k tm s = Some (Op_continue, set_lock k ((sy_locks s k)\<lparr>lk_held := False\<rparr>) s)"
  by (simp add: Lock_out_def Let_def)

text \<open>Threads wait for a lock only while it is held.\<close>

definition lock_ok :: "addr \<Rightarrow> sys \<Rightarrow> bool" where
  "lock_ok k s \<longleftrightarrow> sched_ok s \<and> (lk_threads (sy_locks s k) \<noteq> [] \<longrightarrow> lk_held (sy_locks s k))"

lemma lock_ops_fifo:
  assumes "lock_ok k s"
  shows "\<exists>grants s'. lock_ops k ops s = Some (grants, s') \<and> lock_ok k s'
    \<and> lk_threads (sy_locks s k) @ requests ops = grants @ lk_threads (sy_locks s' k)
    \<and> min (releases ops) (length (lk_threads (sy_locks s k))) \<le> length grants
    \<and> length grants + of_bool (lk_held (sy_locks s k)) \<le> releases ops + of_bool (lk_held (sy_locks s' k))"
  using assms
proof (induction ops arbitrary: s)
  case (Cons p ops)
  show ?case
  proof (cases p)
    case (Request a)
    let ?x = "sy_locks s k"
    show ?thesis
    proof (cases "lk_held ?x")
      case True
      have "lock_ok k (set_lock k (?x\<lparr>lk_threads := lk_threads ?x @ [a]\<rparr>) s)"
        using Cons.prems True by (simp add: lock_ok_def)
      from Cons.IH [OF this] Request True show ?thesis
        by (auto simp: Lock_in_eq split del: split_of_bool)
    next
      case False
      have "lock_ok k (set_lock k (?x\<lparr>lk_held := True\<rparr>) s)"
        using Cons.prems by (simp add: lock_ok_def)
      from Cons.IH [OF this] Request False Cons.prems show ?thesis
        by (auto simp: Lock_in_eq lock_ok_def split del: split_of_bool)
    qed
  next
    case (Release tm)
    show ?thesis
    proof (cases "lk_threads (sy_locks s k)")
      case Nil
      have "lock_ok k (set_lock k ((sy_locks s k)\<lparr>lk_held := False\<rparr>) s)"
        using Cons.prems Nil by (simp add: lock_ok_def)
      from Cons.IH [OF this] Release Nil show ?thesis
        by (cases "lk_held (sy_locks s k)") (auto simp: Lock_out_free split del: split_of_bool)
    next
      case (Cons n ns)
      obtain z where z: "Lock_out k tm s = Some (Op_continue, z)" "sched_ok z"
        "sy_locks z = (sy_locks s)(k := (sy_locks s k)\<lparr>lk_threads := ns\<rparr>)"
        using Lock_out_wakes [OF _ Cons, of tm] Cons.prems by (auto simp: lock_ok_def)
      then have "lock_ok k z"
        using Cons.prems Cons by (simp add: lock_ok_def)
      from Cons.IH [OF this] Release Cons z Cons.prems show ?thesis
        by (auto simp: lock_ok_def split del: split_of_bool)
    qed
  qed
qed simp

subsection \<open>Barriers\<close>

text \<open>A thread after the barrier it waited at has released it.\<close>

definition released :: "ticks_t \<Rightarrow> bool \<Rightarrow> cpu_thread \<Rightarrow> cpu_thread" where
  "released tm isMaster t = (let t = t\<lparr>time := tm\<rparr>; t = (if isMaster then t else setSSync False t) in
     mark_scheduled (t\<lparr>pc := pc t + 1\<rparr>))"

lemma schedule_released:
  assumes "sched_ok s"
  shows "\<exists>y. schedule a (let s = set_thread a ((sy_threads s a)\<lparr>time := tm\<rparr>) s; t = sy_threads s a;
           t = (if isMaster then t else setSSync False t) in set_thread a (t\<lparr>pc := pc t + 1\<rparr>) s) = Some y
    \<and> sched_ok y \<and> sy_syncs y = sy_syncs s \<and> sy_threads y = (sy_threads s)(a := released tm isMaster (sy_threads s a))
    \<and> (\<forall>b. queued y b \<longleftrightarrow> queued s b \<or> b = a)"
proof -
  define x where "x = (let s = set_thread a ((sy_threads s a)\<lparr>time := tm\<rparr>) s; t = sy_threads s a;
           t = (if isMaster then t else setSSync False t) in set_thread a (t\<lparr>pc := pc t + 1\<rparr>) s)"
  have "sched_ok x"
    using assms by (simp add: x_def Let_def)
  then obtain q where q: "schedule a x = Some ((set_thread a (mark_scheduled (sy_threads x a)) x)\<lparr>sy_scheduler := q\<rparr>)"
    "sched_ok ((set_thread a (mark_scheduled (sy_threads x a)) x)\<lparr>sy_scheduler := q\<rparr>)"
    "rq_wakeUpTime q (Run_res (Res_thread a)) = time (sy_threads x a)"
    "\<forall>r. rq_contains q r \<longleftrightarrow> r = Run_res (Res_thread a) \<or> rq_contains (sy_scheduler x) r"
    by (rule schedule_ok)
  have "sy_threads ((set_thread a (mark_scheduled (sy_threads x a)) x)\<lparr>sy_scheduler := q\<rparr>)
      = (sy_threads s)(a := released tm isMaster (sy_threads s a))" "sy_syncs x = sy_syncs s" "sy_scheduler x = sy_scheduler s"
    by (simp_all add: x_def released_def Let_def)
  with q show ?thesis
    unfolding x_def [symmetric] by auto
qed

lemma wake_threads_effect:
  assumes "sched_ok s" "distinct as"
  shows "\<exists>s'. wake_threads cur tm isFirst as s = Some s' \<and> sched_ok s' \<and> sy_syncs s' = sy_syncs s
    \<and> (\<forall>b. sy_threads s' b = (if b \<notin> set as then sy_threads s b
        else if b = cur then (sy_threads s b)\<lparr>time := tm\<rparr>
        else released tm (isFirst \<and> b = hd as) (sy_threads s b)))
    \<and> (\<forall>b. queued s' b \<longleftrightarrow> queued s b \<or> b \<in> set as \<and> b \<noteq> cur)"
  using assms
proof (induction as arbitrary: s isFirst)
  case (Cons a as)
  obtain y where y: "wake_threads cur tm isFirst (a # as) s = wake_threads cur tm False as y"
    "sched_ok y" "sy_syncs y = sy_syncs s"
    "sy_threads y = (sy_threads s)(a := if a = cur then (sy_threads s a)\<lparr>time := tm\<rparr> else released tm isFirst (sy_threads s a))"
    "\<forall>b. queued y b \<longleftrightarrow> queued s b \<or> b = a \<and> a \<noteq> cur"
  proof (cases "a = cur")
    case True
    with Cons.prems(1) show thesis
      by (intro that [of "set_thread a ((sy_threads s a)\<lparr>time := tm\<rparr>) s"]) (simp_all add: Let_def)
  next
    case False
    with schedule_released [OF Cons.prems(1), of a tm isFirst] that show thesis
      by (auto simp: Let_def)
  qed
  with Cons.IH [OF y(2), of False] Cons.prems(2) show ?case
    by auto
qed simp

lemma MaxThreadTime_max:
  assumes "sn_threads (sy_syncs s y) = ts" "ts \<noteq> []"
  shows "MaxThreadTime y s = Max (set (map (\<lambda>a. time (sy_threads s a)) ts))"
proof -
  have ins: "Max (insert (max t u) A) = max t (Max (insert u A))" if "finite A" for t u :: ticks_t and A
    using that by (cases "A = {}") (simp_all add: max.assoc)
  have "fold (\<lambda>a t. max t (time (sy_threads s a))) ts t = Max (insert t (set (map (\<lambda>a. time (sy_threads s a)) ts)))" for ts t
    by (induction ts arbitrary: t) (simp_all add: ins insert_commute)
  with assms show ?thesis
    by (cases ts) (simp_all add: MaxThreadTime_def)
qed

text \<open>The threads of a barrier arrive in some order; the master uses \<open>MSYNC\<close>, the others \<open>SSYNC\<close>.\<close>

fun arrivals :: "addr \<Rightarrow> addr list \<Rightarrow> sys \<Rightarrow> (SyncResult list \<times> sys) option" where
  "arrivals y [] s = Some ([], s)"
| "arrivals y (a # as) s = do {
     (r, s) \<leftarrow> (if sn_threads (sy_syncs s y) \<noteq> [] \<and> a = hd (sn_threads (sy_syncs s y)) then msync y a s else ssync_op y a s);
     (rs, s) \<leftarrow> arrivals y as s;
     Some (r # rs, s)
   }"

lemma small_count: "n \<le> 8 \<Longrightarrow> j < n \<Longrightarrow> (of_nat j + 1 < (of_nat n :: u32)) = (j + 1 < n)"
proof -
  assume "n \<le> 8" "j < n"
  then have "(of_nat (j + 1) < (of_nat n :: u32)) = (j + 1 < n)"
    by (intro of_nat_word_less_iff [THEN trans]) (simp add: take_bit_nat_eq_self)
  then show ?thesis
    by (simp add: add.commute)
qed

lemma last_arrival:
  assumes "sched_ok s" "sn_threads (sy_syncs s y) = ts" "ts \<noteq> []" "distinct ts" "\<not> sn_join (sy_syncs s y)"
    "\<not> sn_NumPaused (sy_syncs s y) + 1 < of_nat (length ts)"
  shows "\<exists>s'. Sync_sync y a isM s = Some (SYNC_CONTINUE, s') \<and> sn_NumPaused (sy_syncs s' y) = 0
    \<and> (\<forall>b \<in> set ts. time (sy_threads s' b) = Max (set (map (\<lambda>a. time (sy_threads s a)) ts))
      \<and> (b \<noteq> a \<longrightarrow> queued s' b \<and> pc (sy_threads s' b) = pc (sy_threads s b) + 1 \<and> \<not> bit (sr (sy_threads s' b)) WAITING))"
proof -
  define z where "z = set_sync y ((sy_syncs s y)\<lparr>sn_NumPaused := 0\<rparr>) s"
  have "sched_ok z"
    using assms(1) by (simp add: z_def sched_ok_def)
  from wake_threads_effect [OF this assms(4), of a "MaxThreadTime y s" True] obtain s' where
    s': "wake_threads a (MaxThreadTime y s) True ts z = Some s'" "sy_syncs s' = sy_syncs z"
    "\<forall>b. sy_threads s' b = (if b \<notin> set ts then sy_threads z b else if b = a then (sy_threads z b)\<lparr>time := MaxThreadTime y s\<rparr>
        else released (MaxThreadTime y s) (True \<and> b = hd ts) (sy_threads z b))"
    "\<forall>b. queued s' b \<longleftrightarrow> queued z b \<or> b \<in> set ts \<and> b \<noteq> a"
    by blast
  have "Sync_sync y a isM s = Some (SYNC_CONTINUE, s')"
    using assms(2,5,6) s'(1) by (simp add: Sync_sync_def Let_def z_def)
  moreover have "sn_NumPaused (sy_syncs s' y) = 0"
    using s'(2) by (simp add: z_def)
  moreover have "\<forall>b \<in> set ts. time (sy_threads s' b) = MaxThreadTime y s
      \<and> (b \<noteq> a \<longrightarrow> queued s' b \<and> pc (sy_threads s' b) = pc (sy_threads s b) + 1 \<and> \<not> bit (sr (sy_threads s' b)) WAITING)"
    using s'(3,4) by (auto simp: z_def released_def Let_def mark_scheduled_def setSSync_def sr_set_def bit_simps)
  ultimately show ?thesis
    unfolding MaxThreadTime_max [OF assms(2,3)] by blast
qed

lemma arrivals_release:
  assumes "sched_ok s" "sn_threads (sy_syncs s y) = ts" "distinct ts" "length ts \<le> 8" "\<not> sn_join (sy_syncs s y)"
    "sn_NumPaused (sy_syncs s y) = of_nat j" "j + length order = length ts" "order \<noteq> []"
  shows "\<exists>s'. arrivals y order s = Some (replicate (length order - 1) SYNC_DESCHEDULE @ [SYNC_CONTINUE], s')
    \<and> sn_NumPaused (sy_syncs s' y) = 0
    \<and> (\<forall>b \<in> set ts. time (sy_threads s' b) = Max (set (map (\<lambda>a. time (sy_threads s a)) ts))
      \<and> (b \<noteq> last order \<longrightarrow> queued s' b \<and> pc (sy_threads s' b) = pc (sy_threads s b) + 1 \<and> \<not> bit (sr (sy_threads s' b)) WAITING))"
  using assms
proof (induction order arbitrary: s j)
  case (Cons a order)
  let ?n = "length ts" and ?isM = "ts \<noteq> [] \<and> a = hd ts"
  have ts: "ts \<noteq> []"
    using Cons.prems by auto
  have step: "(if sn_threads (sy_syncs s y) \<noteq> [] \<and> a = hd (sn_threads (sy_syncs s y)) then msync y a s else ssync_op y a s)
      = Sync_sync y a ?isM s"
    using Cons.prems(2) by (simp add: msync_def ssync_op_def)
  have small: "(sn_NumPaused (sy_syncs s y) + 1 < of_nat ?n) = (j + 1 < ?n)"
    using small_count [of ?n j] Cons.prems by simp
  show ?case
  proof (cases "order = []")
    case True
    with small Cons.prems(7) have "\<not> sn_NumPaused (sy_syncs s y) + 1 < of_nat ?n"
      by simp
    from last_arrival [OF Cons.prems(1,2) ts Cons.prems(3,5) this, of a ?isM] True step show ?thesis
      by (auto)
  next
    case False
    define z where "z = (let s = set_sync y ((sy_syncs s y)\<lparr>sn_NumPaused := of_nat (Suc j)\<rparr>) s in
      if \<not> ?isM then set_thread a (setSSync True (sy_threads s a)) s else s)"
    have z: "sched_ok z" "sy_syncs z y = (sy_syncs s y)\<lparr>sn_NumPaused := of_nat (Suc j)\<rparr>"
      "\<And>b. time (sy_threads z b) = time (sy_threads s b) \<and> pc (sy_threads z b) = pc (sy_threads s b)"
      using Cons.prems(1) by (simp_all add: z_def Let_def sched_ok_def setSSync_def)
    have "Suc j < ?n"
      using Cons.prems(7) False by (cases order) auto
    then have "Sync_sync y a ?isM s = Some (SYNC_DESCHEDULE, z)"
      using small Cons.prems(2,6) by (simp add: Sync_sync_def Let_def z_def add.commute)
    with step have "arrivals y (a # order) s = do { (rs, s) \<leftarrow> arrivals y order z; Some (SYNC_DESCHEDULE # rs, s) }"
      by simp
    moreover have "\<exists>s'. arrivals y order z = Some (replicate (length order - 1) SYNC_DESCHEDULE @ [SYNC_CONTINUE], s')
      \<and> sn_NumPaused (sy_syncs s' y) = 0
      \<and> (\<forall>b \<in> set ts. time (sy_threads s' b) = Max (set (map (\<lambda>a. time (sy_threads z a)) ts))
        \<and> (b \<noteq> last order \<longrightarrow> queued s' b \<and> pc (sy_threads s' b) = pc (sy_threads z b) + 1 \<and> \<not> bit (sr (sy_threads s' b)) WAITING))"
      by (rule Cons.IH [OF z(1), of "Suc j"]) (use Cons.prems False z(2) in auto)
    ultimately show ?thesis
      using False z(3) by (auto simp: Cons_replicate_eq replicate_append_same simp flip: replicate_Suc)
  qed
qed simp

subsection \<open>What locks and barriers promise\<close>

text \<open>
  C7. A lock is handed over in the order of the requests: the threads that
  waited and then those that ask for it get it in that order.  It is never
  handed to a thread while another one holds it: each time it is given out
  there was a release since it was given out before.
\<close>

theorem lock_order_and_exclusion:
  assumes "lock_ok k s"
  shows "\<exists>grants s'. lock_ops k ops s = Some (grants, s')
    \<and> lk_threads (sy_locks s k) @ requests ops = grants @ lk_threads (sy_locks s' k)
    \<and> length grants + of_bool (lk_held (sy_locks s k)) \<le> releases ops + of_bool (lk_held (sy_locks s' k))"
  using lock_ops_fifo [OF assms, of ops] by blast

text \<open>A state with a lock that is held and two threads waiting for it.\<close>

definition demo_locked :: sys where
  "demo_locked = set_lock (0, 0) \<lparr>lk_inUse = True, lk_held = True, lk_threads = [(0, 1), (0, 2)]\<rparr> demo_sys"

lemma demo_locked_ok: "lock_ok (0, 0) demo_locked" "lk_threads (sy_locks demo_locked (0, 0)) = [(0, 1), (0, 2)]"
  "lk_held (sy_locks demo_locked (0, 0))"
  using demo_sched by (simp_all add: lock_ok_def demo_locked_def)

theorem lock_order_and_exclusion_witness:
  "\<exists>grants s'. lock_ops (0, 0) [Release 5, Request (0, 3), Release 6] demo_locked = Some (grants, s')
    \<and> [(0, 1), (0, 2), (0, 3)] = grants @ lk_threads (sy_locks s' (0, 0)) \<and> length grants \<le> 2"
proof -
  obtain grants s' where g: "lock_ops (0, 0) [Release 5, Request (0, 3), Release 6] demo_locked = Some (grants, s')"
    "[(0, 1), (0, 2)] @ [(0, 3)] = grants @ lk_threads (sy_locks s' (0, 0))"
    "length grants + 1 \<le> 2 + of_bool (lk_held (sy_locks s' (0, 0)))"
    using lock_order_and_exclusion [OF demo_locked_ok(1), of "[Release 5, Request (0, 3), Release 6]"] demo_locked_ok(2,3)
    by auto
  then have "length grants \<le> 2"
    by (cases "lk_held (sy_locks s' (0, 0))") auto
  with g show ?thesis
    by (intro exI [of _ grants] exI [of _ s']) simp
qed

text \<open>
  C11. A thread that waits for a lock gets it once the lock has been released
  as often as there are threads up to it in the queue, whatever else happens
  to the lock in the meantime.
\<close>

theorem lock_waiter_served:
  assumes "lock_ok k s" and "lk_threads (sy_locks s k) = ahead @ a # behind" and "length ahead < releases ops"
  shows "\<exists>grants s'. lock_ops k ops s = Some (grants, s') \<and> take (Suc (length ahead)) grants = ahead @ [a]"
proof -
  obtain grants s' where g: "lock_ops k ops s = Some (grants, s')"
    "lk_threads (sy_locks s k) @ requests ops = grants @ lk_threads (sy_locks s' k)"
    "min (releases ops) (length (lk_threads (sy_locks s k))) \<le> length grants"
    using lock_ops_fifo [OF assms(1), of ops] by blast
  have "Suc (length ahead) \<le> length grants"
    using g(3) assms(2,3) by simp
  then have "take (Suc (length ahead)) grants = take (Suc (length ahead)) (grants @ lk_threads (sy_locks s' k))"
    by simp
  also have "\<dots> = ahead @ [a]"
    unfolding g(2) [symmetric] assms(2) by simp
  finally show ?thesis
    using g(1) by blast
qed

theorem lock_waiter_served_witness:
  "\<exists>grants s'. lock_ops (0, 0) [Release 5, Request (0, 3), Release 6] demo_locked = Some (grants, s')
    \<and> take 2 grants = [(0, 1), (0, 2)]"
  using lock_waiter_served [OF demo_locked_ok(1), of "[(0, 1)]" "(0, 2)" "[]" "[Release 5, Request (0, 3), Release 6]"] demo_locked_ok(2)
  by (simp add: numeral_2_eq_2)

text \<open>
  C28. Releasing a lock for which threads wait keeps it held, takes the first
  of them off the queue and schedules it, not earlier than the release, at the
  instruction after its \<open>IN\<close>.  The registers of that thread are left as they
  are, so the destination of the \<open>IN\<close> does not get the identifier of the lock
  that an \<open>IN\<close> on a free lock returns.
\<close>

theorem lock_handover:
  assumes "sched_ok s" and "lk_threads (sy_locks s k) = n # ns"
  shows "\<exists>s'. Lock_out k tm s = Some (Op_continue, s') \<and> lk_threads (sy_locks s' k) = ns
    \<and> lk_held (sy_locks s' k) = lk_held (sy_locks s k)
    \<and> queued s' n \<and> tm \<le> time (sy_threads s' n) \<and> \<not> bit (sr (sy_threads s' n)) WAITING
    \<and> pc (sy_threads s' n) = pc (getNextPC (sy_cores s (fst n)) (sy_threads s n))
    \<and> regs (sy_threads s' n) = regs (sy_threads s n)"
  by (rule Lock_out_wakes [OF assms, of tm]) auto

theorem lock_handover_witness:
  "\<exists>s'. Lock_out (0, 0) 5 demo_locked = Some (Op_continue, s') \<and> lk_threads (sy_locks s' (0, 0)) = [(0, 2)]
    \<and> lk_held (sy_locks s' (0, 0)) \<and> queued s' (0, 1) \<and> 5 \<le> time (sy_threads s' (0, 1))"
  using lock_handover [of demo_locked "(0, 0)" "(0, 1)" "[(0, 2)]" 5] demo_locked_ok by (auto simp: lock_ok_def)

text \<open>
  C8. The threads of a barrier may arrive in any order.  All but the last are
  descheduled; the last one continues, every other thread is then scheduled
  at the instruction after the one it waited at, and all have the latest of
  their times.
\<close>

theorem barrier_releases_all:
  assumes "sched_ok s" and "sn_threads (sy_syncs s y) = ts" and "distinct ts" and "length ts \<le> 8"
    and "\<not> sn_join (sy_syncs s y)" and "sn_NumPaused (sy_syncs s y) = 0" and "mset order = mset ts" and "ts \<noteq> []"
  shows "\<exists>s'. arrivals y order s = Some (replicate (length ts - 1) SYNC_DESCHEDULE @ [SYNC_CONTINUE], s')
    \<and> sn_NumPaused (sy_syncs s' y) = 0
    \<and> (\<forall>b \<in> set ts. time (sy_threads s' b) = Max (set (map (\<lambda>a. time (sy_threads s a)) ts))
      \<and> (b \<noteq> last order \<longrightarrow> queued s' b \<and> pc (sy_threads s' b) = pc (sy_threads s b) + 1 \<and> \<not> bit (sr (sy_threads s' b)) WAITING))"
proof -
  have "length order = length ts" "order \<noteq> []"
    using assms(7,8) mset_eq_length [OF assms(7)] by auto
  then show ?thesis
    using arrivals_release [OF assms(1-5), of 0 order] assms(6) by simp
qed

definition demo_barrier :: sys where
  "demo_barrier = set_sync (0, 0) \<lparr>sn_inUse = True, sn_threads = [(0, 0), (0, 1), (0, 2)], sn_NumPaused = 0, sn_join = False\<rparr> demo_sys"

theorem barrier_releases_all_witness:
  "\<exists>s'. arrivals (0, 0) [(0, 2), (0, 0), (0, 1)] demo_barrier = Some ([SYNC_DESCHEDULE, SYNC_DESCHEDULE, SYNC_CONTINUE], s')
    \<and> queued s' (0, 0) \<and> queued s' (0, 2)"
proof -
  have "sched_ok demo_barrier"
    using demo_sched by (simp add: demo_barrier_def sched_ok_def)
  from barrier_releases_all [OF this, of "(0, 0)" "[(0, 0), (0, 1), (0, 2)]" "[(0, 2), (0, 0), (0, 1)]"] show ?thesis
    by (auto simp: demo_barrier_def numeral_2_eq_2)
qed

end
