(* ===== verification/TimerWait.thy ===== *)
theory TimerWait
  imports WholeSystem
begin

text \<open>
  Timers (\<open>Timer.cpp\<close>): the time at which a timer that waits is run again, and
  what a thread that waits for it sees.
\<close>

lemma sint_add_int:
  fixes n :: u32
  assumes "- (2 ^ 31) \<le> sint n + k" "sint n + k < 2 ^ 31"
  shows "sint (n + word_of_int k) = sint n + k"
proof -
  have "n + word_of_int k = word_of_int (sint n + k)"
    by (simp add: of_int_add)
  with assms show ?thesis
    by (simp only: Arith.sint_word_of_int)
qed

abbreviation ticks :: "ticks_t \<Rightarrow> u32" where
  "ticks tm \<equiv> ucast (tm div CYCLES_PER_TICK)"

lemma ticks_later:
  assumes "unat t div 4 = unat tm div 4 + k" "sint (ticks tm) + int k < 2 ^ 31"
  shows "sint (ticks t) = sint (ticks tm) + int k"
proof -
  have "ticks u = of_nat (unat u div 4)" for u :: ticks_t
  proof -
    have "of_nat (unat (u div 4)) = ticks u"
      by (rule of_nat_unat)
    then show ?thesis
      by (simp add: unat_div)
  qed
  then have "ticks t = ticks tm + word_of_int (int k)"
    using assms(1) by (simp add: of_nat_add)
  moreover have "- (2 ^ 31) \<le> sint (ticks tm) + int k"
    using sint_ge [of "ticks tm"] by simp
  ultimately show ?thesis
    using assms(2) by (simp only: sint_add_int)
qed

lemma ready_time:
  assumes "getEarliestReadyTime x tm = Some ready" "conditionMet x tm = Some False" "tm_data x \<noteq> 0x7fffffff"
    "unat tm + 2 ^ 31 < 2 ^ 64"
  obtains n where "0 < n" "unat ready = unat tm + 4 * n" "sint (tm_data x) + 1 = sint (ticks tm) + int n"
    "sint (tm_data x) + 1 < 2 ^ 31" "tm_after x"
proof -
  let ?d = "tm_data x"
  have d: "sint ?d + 1 < 2 ^ 31"
  proof -
    have "sint ?d \<noteq> sint (0x7fffffff :: u32)"
      using assms(3) signed_word_eqI by blast
    moreover have "sint ?d < 2 ^ 31"
      using sint_lt [of ?d] by simp
    ultimately show ?thesis
      by simp
  qed
  then have d1: "sint (?d + 1) = sint ?d + 1"
    using sint_add_int [of ?d 1] sint_ge [of ?d] by simp
  from assms(2) have after: "tm_after x" and le: "sint (ticks tm) \<le> sint ?d"
    by (auto simp: conditionMet_def int32_def bind_eq_Some_conv split: if_splits)
  define w where "w = sint ?d + 1 - sint (ticks tm)"
  from assms(1,2) d1 have w: "w * 4 < 2 ^ 31" "ready = tm + word_of_int (w * 4)"
    by (auto simp: getEarliestReadyTime_def bind_eq_Some_conv int32_def w_def split: if_splits)
  have pos: "0 < w"
    using le by (simp add: w_def)
  have "word_of_int (w * 4) = (of_nat (4 * nat w) :: ticks_t)"
    using pos by (simp add: mult.commute)
  moreover have "4 * nat w < 2 ^ 64"
    using w(1) pos by simp
  ultimately have "unat (word_of_int (w * 4) :: ticks_t) = 4 * nat w"
    by (simp only: unat_of_nat) simp
  then have "unat ready = unat tm + 4 * nat w"
    using assms(4) w pos by (simp add: unat_word_ariths)
  with pos d after show ?thesis
    by (intro that [of "nat w"]) (simp_all add: w_def)
qed

lemma ready_condition:
  assumes "getEarliestReadyTime x tm = Some ready" "conditionMet x tm = Some False" "tm_data x \<noteq> 0x7fffffff"
    "unat tm + 2 ^ 31 < 2 ^ 64"
  shows "conditionMet x ready = Some True" "unat ready mod 4 = unat tm mod 4"
    "tm \<le> t \<Longrightarrow> t div 4 < ready div 4 \<Longrightarrow> conditionMet x t = Some False"
proof -
  from assms obtain n where n: "0 < n" "unat ready = unat tm + 4 * n" "sint (tm_data x) + 1 = sint (ticks tm) + int n"
    "sint (tm_data x) + 1 < 2 ^ 31" "tm_after x"
    by (rule ready_time)
  have "sint (ticks ready) = sint (tm_data x) + 1"
    using ticks_later [of ready tm n] n by simp
  then show "conditionMet x ready = Some True"
    using n(5) by (simp add: conditionMet_def int32_def)
  show "unat ready mod 4 = unat tm mod 4"
    by (simp add: n(2))
  show "conditionMet x t = Some False" if t: "tm \<le> t" "t div 4 < ready div 4"
  proof -
    define k where "k = unat t div 4 - unat tm div 4"
    have k: "unat t div 4 = unat tm div 4 + k"
      using t(1) by (simp add: k_def word_le_nat_alt div_le_mono)
    have "unat t div 4 < unat ready div 4"
      using t(2) by (simp add: word_less_nat_alt unat_div)
    with k n(2) have "k < n"
      by simp
    with n have "sint (ticks t) = sint (ticks tm) + int k" "sint (ticks t) \<le> sint (tm_data x)"
      using ticks_later [OF k] by simp_all
    moreover have "- (2 ^ 31) \<le> sint (ticks tm) - sint (tm_data x)"
      using assms(2) n(5) by (auto simp: conditionMet_def int32_def bind_eq_Some_conv split: if_splits)
    ultimately show ?thesis
      using n(5) by (simp add: conditionMet_def int32_def)
  qed
qed

subsection \<open>Waiting for a timer\<close>

lemma Timer_in_pauses:
  assumes "sched_ok s" "Timer_in k a tm s = Some (Op_deschedule, v, s')"
  obtains ready where "getEarliestReadyTime (sy_timers s k) tm = Some ready" "conditionMet (sy_timers s k) tm = Some False"
    "sy_timers s' k = (sy_timers s k)\<lparr>tm_pausedIn := Some a\<rparr>" "sched_ok s'" "er_owner (sy_ev s' (Res_timer k)) = Some a"
    "rq_contains (sy_scheduler s') (Run_res (Res_timer k))" "rq_wakeUpTime (sy_scheduler s') (Run_res (Res_timer k)) = ready"
proof -
  from assms(2) obtain z where z: "updateOwner (Res_timer k) a s = Some z"
    by (cases "updateOwner (Res_timer k) a s") (auto simp: Timer_in_def)
  have zt: "sy_timers z = sy_timers s" "sched_ok z" "er_owner (sy_ev z (Res_timer k)) = Some a"
    using z updateOwner_sets [OF z] assms(1)
    by (auto simp: updateOwner_sched) (auto simp: updateOwner_def Let_def bind_some split: if_splits)
  define y where "y = set_timer k ((sy_timers s k)\<lparr>tm_pausedIn := Some a\<rparr>) z"
  have c: "getEarliestReadyTime (x\<lparr>tm_pausedIn := p\<rparr>) tm = getEarliestReadyTime x tm" for x p
    by (simp add: getEarliestReadyTime_def conditionMet_def cong: if_cong)
  from assms(2) z zt obtain ready where ready: "conditionMet (sy_timers s k) tm = Some False"
      "getEarliestReadyTime (sy_timers s k) tm = Some ready" "scheduleUpdate (Res_timer k) ready y = Some s'"
    by (auto simp: Timer_in_def bind_some Let_def y_def c split: if_splits)
  have "sched_ok y"
    using zt(2) by (simp add: y_def sched_ok_def)
  then obtain q where "rq_push (Run_res (Res_timer k)) ready (sy_scheduler y) = Some q" "sched_ok (y\<lparr>sy_scheduler := q\<rparr>)"
    "rq_wakeUpTime q (Run_res (Res_timer k)) = ready" "\<forall>x. rq_contains q x \<longleftrightarrow> x = Run_res (Res_timer k) \<or> rq_contains (sy_scheduler y) x"
    by (rule rq_push_ok)
  with ready zt(3) show ?thesis
    by (intro that [of ready]) (auto simp: scheduleUpdate_def scheduleOther_def bind_some y_def)
qed

lemma timer_input_wakes:
  assumes s: "sched_ok s" and pause: "Timer_in k a tm s = Some (Op_deschedule, v, s')"
    and d: "tm_data (sy_timers s k) \<noteq> 0x7fffffff" and tm: "unat tm + 2 ^ 31 < 2 ^ 64"
    and e: "\<not> eventsPermitted (Res_timer k) s'"
  shows "\<exists>ready s''. rq_contains (sy_scheduler s') (Run_res (Res_timer k))
    \<and> rq_wakeUpTime (sy_scheduler s') (Run_res (Res_timer k)) = ready
    \<and> Timer_run k ready s' = Some s'' \<and> queued s'' a \<and> time (sy_threads s'' a) = ready
    \<and> Timer_in k a ready s'' = Some (Op_continue, ticks ready, s'') \<and> sint (tm_data (sy_timers s k)) < sint (ticks ready)"
proof -
  from s pause obtain ready where r: "getEarliestReadyTime (sy_timers s k) tm = Some ready" "conditionMet (sy_timers s k) tm = Some False"
    "sy_timers s' k = (sy_timers s k)\<lparr>tm_pausedIn := Some a\<rparr>" "sched_ok s'" "er_owner (sy_ev s' (Res_timer k)) = Some a"
    "rq_contains (sy_scheduler s') (Run_res (Res_timer k))" "rq_wakeUpTime (sy_scheduler s') (Run_res (Res_timer k)) = ready"
    by (rule Timer_in_pauses)
  have met: "conditionMet (sy_timers s k) ready = Some True"
    by (rule ready_condition [OF r(1,2) d tm])
  have c: "conditionMet (x\<lparr>tm_pausedIn := p\<rparr>) ready = conditionMet x ready" for x p
    by (simp add: conditionMet_def)
  obtain t q where w: "wake a ready s' = Some ((set_thread a t s')\<lparr>sy_scheduler := q\<rparr>)"
    "\<forall>r. rq_contains q r \<longleftrightarrow> r = Run_res (Res_thread a) \<or> rq_contains (sy_scheduler s') r" "time t = ready"
    by (rule wake_ok [OF r(4)])
  define z where "z = (set_thread a t s')\<lparr>sy_scheduler := q\<rparr>"
  have z: "wake a ready s' = Some z" "queued z a" "time (sy_threads z a) = ready" "sy_timers z = sy_timers s'" "sy_ev z = sy_ev s'"
    using w by (simp_all add: z_def)
  define y where "y = set_timer k ((sy_timers z k)\<lparr>tm_pausedIn := None\<rparr>) z"
  have "Timer_run k ready s' = Some y"
    using e met z r(3) by (simp add: Timer_run_def c y_def)
  moreover have "Timer_in k a ready y = Some (Op_continue, ticks ready, y)"
    using met r(3,5) z(4,5) by (simp add: Timer_in_def updateOwner_def y_def c)
  moreover have "sint (tm_data (sy_timers s k)) < sint (ticks ready)"
    using met r(2) by (auto simp: conditionMet_def int32_def bind_some split: if_splits)
  ultimately show ?thesis
    using r(6,7) z(2,3) by (intro exI [of _ ready] exI [of _ y]) (simp add: y_def)
qed

subsection \<open>What timers promise\<close>

text \<open>
  C27. For a timer whose condition does not hold at a time, the earliest ready
  time is one at which it holds, in the same phase of the clock tick, and the
  condition holds in no earlier tick.  The data of the timer is not the largest
  signed value, for which the computation of the code overflows.
\<close>

theorem timer_ready_time:
  assumes "getEarliestReadyTime x tm = Some ready" and "conditionMet x tm = Some False" and "tm_data x \<noteq> 0x7fffffff"
    and "unat tm + 2 ^ 31 < 2 ^ 64"
  shows "conditionMet x ready = Some True \<and> unat ready mod 4 = unat tm mod 4
    \<and> (\<forall>t. tm \<le> t \<and> t div 4 < ready div 4 \<longrightarrow> conditionMet x t = Some False)"
  using ready_condition [OF assms] by blast

theorem timer_ready_time_witness:
  "getEarliestReadyTime \<lparr>tm_after = True, tm_data = 100, tm_pausedIn = None\<rparr> 6 = Some 406
    \<and> conditionMet \<lparr>tm_after = True, tm_data = 100, tm_pausedIn = None\<rparr> 406 = Some True
    \<and> conditionMet \<lparr>tm_after = True, tm_data = 100, tm_pausedIn = None\<rparr> 403 = Some False"
proof -
  let ?x = "\<lparr>tm_after = True, tm_data = 100, tm_pausedIn = None\<rparr>"
  have r: "getEarliestReadyTime ?x 6 = Some 406" "conditionMet ?x 6 = Some False"
    by code_simp+
  from timer_ready_time [OF this] have "conditionMet ?x 406 = Some True"
    "(6 :: ticks_t) \<le> 403 \<and> (403 :: ticks_t) div 4 < 406 div 4 \<longrightarrow> conditionMet ?x 403 = Some False"
    by simp_all
  moreover have "(6 :: ticks_t) \<le> 403 \<and> (403 :: ticks_t) div 4 < 406 div 4"
    by code_simp
  ultimately show ?thesis
    using r(1) by blast
qed

text \<open>
  C10. A thread that is paused by an input from a timer wakes up: the timer is
  queued with the ready time, running it then schedules the thread at that
  time, and the input executed again continues with a time after the one that
  the timer waits for.  The timer does not generate events for its owner.
\<close>

theorem timer_input_completes:
  assumes "sched_ok s" and "Timer_in k a tm s = Some (Op_deschedule, v, s')"
    and "tm_data (sy_timers s k) \<noteq> 0x7fffffff" and "unat tm + 2 ^ 31 < 2 ^ 64"
    and "\<not> eventsPermitted (Res_timer k) s'"
  shows "\<exists>ready s''. rq_contains (sy_scheduler s') (Run_res (Res_timer k))
    \<and> rq_wakeUpTime (sy_scheduler s') (Run_res (Res_timer k)) = ready
    \<and> Timer_run k ready s' = Some s'' \<and> queued s'' a \<and> time (sy_threads s'' a) = ready
    \<and> Timer_in k a ready s'' = Some (Op_continue, ucast (ready div CYCLES_PER_TICK), s'')
    \<and> sint (tm_data (sy_timers s k)) < sint (ucast (ready div CYCLES_PER_TICK) :: u32)"
  by (rule timer_input_wakes [OF assms])

definition demo_timer :: sys where
  "demo_timer = set_timer (0, 0) \<lparr>tm_after = True, tm_data = 100, tm_pausedIn = None\<rparr> demo_sys"

lemma demo_timer_pauses:
  obtains s where "Timer_in (0, 0) (0, 1) 6 demo_timer = Some (Op_deschedule, 0, s)" "\<not> eventsPermitted (Res_timer (0, 0)) s"
proof -
  have o: "er_owner (sy_ev demo_timer (Res_timer (0, 0))) = None" "\<not> er_eventsEnabled (sy_ev demo_timer (Res_timer (0, 0)))"
    by (simp_all add: demo_timer_def demo_sys_def SystemState_new_def core_eventable_def EventableResource_new_def blank_sys_def)
  define z where "z = set_timer (0, 0) \<lparr>tm_after = True, tm_data = 100, tm_pausedIn = Some (0, 1)\<rparr>
    (set_ev (Res_timer (0, 0)) ((sy_ev demo_timer (Res_timer (0, 0)))\<lparr>er_owner := Some (0, 1)\<rparr>) demo_timer)"
  have "sched_ok z"
    using demo_sched by (simp add: z_def demo_timer_def sched_ok_def)
  then obtain q where q: "rq_push (Run_res (Res_timer (0, 0))) 406 (sy_scheduler z) = Some q"
    by (rule rq_push_ok)
  have r: "getEarliestReadyTime \<lparr>tm_after = True, tm_data = 100, tm_pausedIn = Some (0, 1)\<rparr> 6 = Some 406"
    "conditionMet \<lparr>tm_after = True, tm_data = 100, tm_pausedIn = None\<rparr> 6 = Some False"
    by code_simp+
  show ?thesis
  proof (rule that)
    show "Timer_in (0, 0) (0, 1) 6 demo_timer = Some (Op_deschedule, 0, z\<lparr>sy_scheduler := q\<rparr>)"
      using o r q by (simp add: Timer_in_def updateOwner_def scheduleUpdate_def scheduleOther_def z_def demo_timer_def)
    show "\<not> eventsPermitted (Res_timer (0, 0)) (z\<lparr>sy_scheduler := q\<rparr>)"
      using o(2) by (simp add: eventsPermitted_def z_def)
  qed
qed

theorem timer_input_completes_witness:
  "\<exists>s ready s'. Timer_in (0, 0) (0, 1) 6 demo_timer = Some (Op_deschedule, 0, s)
    \<and> Timer_run (0, 0) ready s = Some s' \<and> queued s' (0, 1) \<and> time (sy_threads s' (0, 1)) = ready"
proof -
  obtain s where s: "Timer_in (0, 0) (0, 1) 6 demo_timer = Some (Op_deschedule, 0, s)" "\<not> eventsPermitted (Res_timer (0, 0)) s"
    by (rule demo_timer_pauses)
  have "sched_ok demo_timer"
    using demo_sched by (simp add: demo_timer_def sched_ok_def)
  moreover have "tm_data (sy_timers demo_timer (0, 0)) \<noteq> 0x7fffffff" "unat (6 :: ticks_t) + 2 ^ 31 < 2 ^ 64"
    by (simp_all add: demo_timer_def)
  ultimately show ?thesis
    using timer_input_completes [OF _ s(1) _ _ s(2)] s(1) by blast
qed

end
