(* ===== verification/ChannelLink.thy ===== *)
theory ChannelLink
  imports WholeSystem
begin

text \<open>
  Words over a channel (\<open>Chanend.cpp\<close>): two channel ends of which one is
  within a packet to the other, and the sequences of sends and receives on
  them.
\<close>

subsection \<open>Words on a channel\<close>

text \<open>The tokens of a word, as \<open>Chanend::out\<close> sends them.\<close>

definition word_tokens :: "u32 \<Rightarrow> token list" where
  "word_tokens v = map (\<lambda>b. Token b False)
     [ucast (drop_bit 24 v), ucast (drop_bit 16 v), ucast (drop_bit 8 v), ucast v]"

lemma length_word_tokens [simp]: "length (word_tokens v) = 4"
  by (simp add: word_tokens_def)

lemma be32_word: "be32 (ucast (drop_bit 24 v)) (ucast (drop_bit 16 v)) (ucast (drop_bit 8 v)) (ucast v) = v"
proof (rule word32_eqI)
  fix n :: nat
  assume "n < 32"
  then show "bit (be32 (ucast (drop_bit 24 v)) (ucast (drop_bit 16 v)) (ucast (drop_bit 8 v)) (ucast v)) n = bit v n"
    unfolding be32_def by (rule all_less_32 [rotated]) (simp add: bit_simps)
qed

text \<open>
  A channel end \<open>c\<close> is within a packet to the channel end \<open>d\<close>, whose buffer
  holds the words \<open>ws\<close>; \<open>d\<close> does not generate events.
\<close>

definition link_ok :: "addr \<Rightarrow> addr \<Rightarrow> u32 list \<Rightarrow> sys \<Rightarrow> bool" where
  "link_ok c d ws s \<longleftrightarrow> sched_ok s \<and> c \<noteq> d
     \<and> ce_inPacket (sy_chanends s c) \<and> \<not> ce_junkPacket (sy_chanends s c) \<and> ce_dest (sy_chanends s c) = Some (Ep_chanend d)
     \<and> ep_source (sy_endpoints s (Ep_chanend d)) = Some (Ep_chanend c)
     \<and> \<not> er_eventsEnabled (sy_ev s (Res_chanend d))
     \<and> rb_inv 8 (ce_buf (sy_chanends s d)) \<and> rb_list (ce_buf (sy_chanends s d)) = concat (map word_tokens ws)"

lemma length_words: "length (concat (map word_tokens ws)) = 4 * length ws"
  by (induction ws) simp_all

lemma link_length: "link_ok c d ws s \<Longrightarrow> length (rb_list (ce_buf (sy_chanends s d))) = 4 * length ws"
  unfolding link_ok_def by (simp only: length_words)

lemma link_bound: "link_ok c d ws s \<Longrightarrow> length ws \<le> 2"
  using link_length [of c d ws s] unfolding link_ok_def rb_inv_def length_rb_list by linarith

lemma link_space:
  assumes "link_ok c d ws s"
  shows "4 \<le> rb_remaining (ce_buf (sy_chanends s d)) \<longleftrightarrow> length ws < 2"
proof -
  have "unat (rb_remaining (ce_buf (sy_chanends s d))) = 8 - 4 * length ws"
    using rb_remaining_correct [of 8 "ce_buf (sy_chanends s d)"] link_length [OF assms] assms
    unfolding link_ok_def by metis
  then show ?thesis
    using link_bound [OF assms] by (auto simp: word_le_nat_alt)
qed

lemma link_cong:
  assumes "link_ok c d ws s" "sched_ok s'" "sy_endpoints s' = sy_endpoints s"
    "er_eventsEnabled (sy_ev s' (Res_chanend d)) = er_eventsEnabled (sy_ev s (Res_chanend d))"
    "ce_inPacket (sy_chanends s' c) = ce_inPacket (sy_chanends s c)" "ce_junkPacket (sy_chanends s' c) = ce_junkPacket (sy_chanends s c)"
    "ce_dest (sy_chanends s' c) = ce_dest (sy_chanends s c)" "ce_buf (sy_chanends s' d) = ce_buf (sy_chanends s d)"
  shows "link_ok c d ws s'"
  using assms by (simp add: link_ok_def)

text \<open>Waking the thread that waits on a channel end, if there is one.\<close>

lemma Chanend_notify_ok:
  assumes "sched_ok s"
  obtains s' where "Chanend_notify c tm s = Some s'" "sched_ok s'" "sy_endpoints s' = sy_endpoints s" "sy_ev s' = sy_ev s"
    "sy_chanends s' = (sy_chanends s)(c := (sy_chanends s c)\<lparr>ce_pausedOut := None\<rparr>)"
    "\<forall>a. ce_pausedOut (sy_chanends s c) = Some a \<longrightarrow> queued s' a \<and> time (sy_threads s' a) = tm"
proof (cases "ce_pausedOut (sy_chanends s c)")
  case None
  have "(sy_chanends s)(c := (sy_chanends s c)\<lparr>ce_pausedOut := None\<rparr>) = sy_chanends s"
    using None by (auto simp: fun_eq_iff)
  with None assms show ?thesis
    by (intro that [of s]) (simp_all add: Chanend_notify_def)
next
  case (Some a)
  from assms obtain t q where "wake a tm s = Some ((set_thread a t s)\<lparr>sy_scheduler := q\<rparr>)" "sched_ok ((set_thread a t s)\<lparr>sy_scheduler := q\<rparr>)"
    "\<forall>r. rq_contains q r \<longleftrightarrow> r = Run_res (Res_thread a) \<or> rq_contains (sy_scheduler s) r" "time t = tm"
    by (rule wake_ok [where a = a and tm = tm])
  with Some show ?thesis
    by (intro that [of "set_chanend c ((sy_chanends s c)\<lparr>ce_pausedOut := None\<rparr>) ((set_thread a t s)\<lparr>sy_scheduler := q\<rparr>)"])
      (simp_all add: Chanend_notify_def)
qed

lemma not_permitted: "\<not> er_eventsEnabled (sy_ev s r) \<Longrightarrow> \<not> eventsPermitted r s"
  by (auto simp: eventsPermitted_def Let_def split: option.splits)

lemma Chanend_update_ok:
  assumes "sched_ok s" "\<not> er_eventsEnabled (sy_ev s (Res_chanend d))" "4 \<le> rb_size (ce_buf (sy_chanends s d))"
  obtains s' where "Chanend_update d tm s = Some s'" "sched_ok s'" "sy_endpoints s' = sy_endpoints s" "sy_ev s' = sy_ev s"
    "sy_chanends s' = (sy_chanends s)(d := (sy_chanends s d)\<lparr>ce_pausedIn := None\<rparr>)"
    "\<forall>a. ce_pausedIn (sy_chanends s d) = Some a \<longrightarrow> queued s' a \<and> time (sy_threads s' a) = tm"
proof (cases "ce_pausedIn (sy_chanends s d)")
  case None
  have e: "\<not> rb_empty (ce_buf (sy_chanends s d))" "\<not> eventsPermitted (Res_chanend d) s"
    using assms(2,3) by (auto simp: rb_empty_def rb_size_def not_permitted)
  have "(sy_chanends s)(d := (sy_chanends s d)\<lparr>ce_pausedIn := None\<rparr>) = sy_chanends s"
    using None by (auto simp: fun_eq_iff)
  with None e assms(1) show ?thesis
    by (intro that [of s]) (simp_all add: Chanend_update_def)
next
  case (Some a)
  have e: "\<not> rb_empty (ce_buf (sy_chanends s d))" "\<not> eventsPermitted (Res_chanend d) s" "\<not> rb_size (ce_buf (sy_chanends s d)) < 4"
    using assms(2,3) by (auto simp: rb_empty_def rb_size_def not_permitted)
  from assms(1) obtain t q where "wake a tm s = Some ((set_thread a t s)\<lparr>sy_scheduler := q\<rparr>)" "sched_ok ((set_thread a t s)\<lparr>sy_scheduler := q\<rparr>)"
    "\<forall>r. rq_contains q r \<longleftrightarrow> r = Run_res (Res_thread a) \<or> rq_contains (sy_scheduler s) r" "time t = tm"
    by (rule wake_ok [where a = a and tm = tm])
  with Some e show ?thesis
    by (intro that [of "set_chanend d ((sy_chanends s d)\<lparr>ce_pausedIn := None\<rparr>) ((set_thread a t s)\<lparr>sy_scheduler := q\<rparr>)"])
      (simp_all add: Chanend_update_def)
qed

lemma fold_push:
  "fold (\<lambda>v. Chanend_push d (Token v False)) vs s =
    set_chanend d ((sy_chanends s d)\<lparr>ce_buf := fold rb_push_back (map (\<lambda>v. Token v False) vs) (ce_buf (sy_chanends s d))\<rparr>) s"
proof (induction vs arbitrary: s)
  case Nil
  then show ?case
    by (simp add: set_chanend_def)
next
  case (Cons v vs)
  show ?case
    by (simp add: Cons.IH) (simp add: Chanend_push_def set_chanend_def)
qed

lemma link_send:
  assumes link: "link_ok c d ws s" and room: "length ws < 2"
  obtains s' where "Chanend_out c a v tm s = Some (Op_continue, s')" "link_ok c d (ws @ [v]) s'"
    "\<forall>b. ce_pausedIn (sy_chanends s d) = Some b \<longrightarrow> queued s' b \<and> time (sy_threads s' b) = tm"
proof -
  define bs :: "u8 list" where "bs = [ucast (drop_bit 24 v), ucast (drop_bit 16 v), ucast (drop_bit 8 v), ucast v]"
  define z where "z = set_chanend d ((sy_chanends s d)\<lparr>ce_buf := fold rb_push_back (map (\<lambda>v. Token v False) bs) (ce_buf (sy_chanends s d))\<rparr>) s"
  have inv: "rb_inv 8 (ce_buf (sy_chanends s d))"
    using link by (simp add: link_ok_def)
  have "rb_inv 8 (ce_buf (sy_chanends z d)) \<and> rb_list (ce_buf (sy_chanends z d)) = rb_list (ce_buf (sy_chanends s d)) @ word_tokens v"
    using rb.push_all [OF inv, of "word_tokens v"] link_length [OF link] room
    by (simp add: z_def word_tokens_def bs_def)
  then have z: "rb_inv 8 (ce_buf (sy_chanends z d))" "rb_list (ce_buf (sy_chanends z d)) = concat (map word_tokens (ws @ [v]))"
    using link by (simp_all add: link_ok_def)
  have "sched_ok z" "\<not> er_eventsEnabled (sy_ev z (Res_chanend d))"
    using link by (simp_all add: z_def link_ok_def)
  moreover have "4 \<le> rb_size (ce_buf (sy_chanends z d))"
    using rb_size_correct [of "ce_buf (sy_chanends z d)"] z(2) length_words [of "ws @ [v]"] by (simp add: word_le_nat_alt)
  ultimately obtain s' where s': "Chanend_update d tm z = Some s'" "sched_ok s'" "sy_endpoints s' = sy_endpoints z" "sy_ev s' = sy_ev z"
    "sy_chanends s' = (sy_chanends z)(d := (sy_chanends z d)\<lparr>ce_pausedIn := None\<rparr>)"
    "\<forall>a. ce_pausedIn (sy_chanends z d) = Some a \<longrightarrow> queued s' a \<and> time (sy_threads s' a) = tm"
    by (rule Chanend_update_ok)
  then have rx: "Chanend_receiveDataTokens d tm bs s = Some s'"
    by (simp only: Chanend_receiveDataTokens_def fold_push z_def)
  show ?thesis
  proof (rule that)
    show "Chanend_out c a v tm s = Some (Op_continue, s')"
      using link link_space [OF link] room rx
      by (simp add: Chanend_out_def openRoute_def link_ok_def canAcceptTokens_def receiveDataTokens_def bs_def)
    show "link_ok c d (ws @ [v]) s'"
      using link z s'(2-5) by (simp add: link_ok_def) (simp add: z_def)
    show "\<forall>b. ce_pausedIn (sy_chanends s d) = Some b \<longrightarrow> queued s' b \<and> time (sy_threads s' b) = tm"
      using s'(6) by (simp add: z_def)
  qed
qed

lemma link_send_blocked:
  assumes link: "link_ok c d ws s" and room: "\<not> length ws < 2"
  obtains s' where "Chanend_out c a v tm s = Some (Op_deschedule, s')" "link_ok c d ws s'" "ce_pausedOut (sy_chanends s' c) = Some a"
proof (rule that)
  show "Chanend_out c a v tm s = Some (Op_deschedule, set_chanend c ((sy_chanends s c)\<lparr>ce_pausedOut := Some a\<rparr>) s)"
    using link link_space [OF link] room
    by (simp add: Chanend_out_def openRoute_def link_ok_def canAcceptTokens_def pause_out_def)
  show "link_ok c d ws (set_chanend c ((sy_chanends s c)\<lparr>ce_pausedOut := Some a\<rparr>) s)"
    using link by (auto simp: link_ok_def)
qed simp

lemma link_owner:
  assumes "link_ok c d ws s"
  obtains s' where "updateOwner (Res_chanend d) a s = Some s'" "link_ok c d ws s'" "sy_chanends s' = sy_chanends s"
    "sy_endpoints s' = sy_endpoints s"
proof (cases "er_owner (sy_ev s (Res_chanend d)) = Some a")
  case True
  with assms show ?thesis
    by (intro that [of s]) (simp_all add: updateOwner_def)
next
  case False
  with assms show ?thesis
    by (intro that [of "set_ev (Res_chanend d) ((sy_ev s (Res_chanend d))\<lparr>er_owner := Some a\<rparr>) s"])
      (simp_all add: updateOwner_def link_ok_def)
qed

lemma first_control_none:
  "(\<forall>k < n. \<not> isControl (rb_at b (i + of_nat k))) \<Longrightarrow> first_control b i n = None"
proof (induction n arbitrary: i)
  case (Suc n)
  have "\<not> isControl (rb_at b i)"
    using Suc.prems by (auto dest: spec [of _ 0])
  moreover have "first_control b (i + 1) n = None"
    using Suc.prems by (intro Suc.IH) (auto simp: add.assoc dest: spec [of _ "Suc _"])
  ultimately show ?case
    by simp
qed simp

lemma words_data: "t \<in> set (concat (map word_tokens ws)) \<Longrightarrow> \<not> isControl t"
  by (induction ws) (auto simp: word_tokens_def)

lemma link_no_control:
  assumes "link_ok c d ws s"
  shows "first_control (ce_buf (sy_chanends s d)) 0 (unat (min (rb_size (ce_buf (sy_chanends s d))) 4)) = None"
proof (intro first_control_none allI impI)
  fix k
  assume k: "k < unat (min (rb_size (ce_buf (sy_chanends s d))) 4)"
  then have "k < 4" "k < length (rb_list (ce_buf (sy_chanends s d)))"
    by (auto simp: rb_size_def min_def word_le_nat_alt split: if_splits)
  moreover from this have u: "unat (of_nat k :: u32) = k"
    by (simp add: unat_of_nat)
  ultimately have "rb_at (ce_buf (sy_chanends s d)) (of_nat k) \<in> set (rb_list (ce_buf (sy_chanends s d)))"
    using rb_at_correct [of 8 "ce_buf (sy_chanends s d)" "of_nat k"] assms unfolding link_ok_def by (metis nth_mem)
  then show "\<not> isControl (rb_at (ce_buf (sy_chanends s d)) (0 + of_nat k))"
    using assms words_data [of _ ws] by (simp add: link_ok_def)
qed

lemma link_receive:
  assumes link: "link_ok c d (v # ws) s"
  obtains s' where "Chanend_in d b tm s = Some (Op_continue, v, s')" "link_ok c d ws s'"
    "\<forall>a. ce_pausedOut (sy_chanends s c) = Some a \<longrightarrow> queued s' a \<and> time (sy_threads s' a) = tm"
proof -
  obtain y where y: "updateOwner (Res_chanend d) b s = Some y" "link_ok c d (v # ws) y" "sy_chanends y = sy_chanends s"
    "sy_endpoints y = sy_endpoints s"
    by (rule link_owner [OF link])
  let ?b = "ce_buf (sy_chanends s d)"
  have inv: "rb_inv 8 ?b" and list: "rb_list ?b = word_tokens v @ concat (map word_tokens ws)"
    using link by (simp_all add: link_ok_def)
  have size: "4 \<le> unat (rb_size ?b)"
    unfolding rb_size_correct list by simp
  have at: "rb_at ?b i = word_tokens v ! unat i" if "unat i < 4" for i
    using rb_at_correct [OF inv, of i] list that by (simp add: nth_append)
  define z where "z = set_chanend d ((sy_chanends y d)\<lparr>ce_buf := rb_pop_front_num 4 (ce_buf (sy_chanends y d))\<rparr>) y"
  have "sched_ok z"
    using y(2) by (simp add: z_def link_ok_def)
  then obtain s' where s': "Chanend_notify c tm z = Some s'" "sched_ok s'" "sy_endpoints s' = sy_endpoints z" "sy_ev s' = sy_ev z"
    "sy_chanends s' = (sy_chanends z)(c := (sy_chanends z c)\<lparr>ce_pausedOut := None\<rparr>)"
    "\<forall>a. ce_pausedOut (sy_chanends z c) = Some a \<longrightarrow> queued s' a \<and> time (sy_threads s' a) = tm"
    by (rule Chanend_notify_ok [where c = c and tm = tm])
  have src: "ep_source (sy_endpoints z (Ep_chanend d)) = Some (Ep_chanend c)" and ne: "c \<noteq> d"
    using y(2) by (simp_all add: z_def link_ok_def)
  have ns: "notify_source d tm z = Some s'"
    using src s'(1) by (simp add: notify_source_def notify_def)
  have val: "be32 (getValue (rb_at ?b 0)) (getValue (rb_at ?b 1)) (getValue (rb_at ?b 2)) (getValue (rb_at ?b 3)) = v"
    by (simp add: at word_tokens_def be32_word)
  show ?thesis
  proof (rule that)
    show "Chanend_in d b tm s = Some (Op_continue, v, s')"
      using y(1) ns val size link_no_control [OF y(2)] unfolding y(3) z_def
      by (simp add: Chanend_in_def Chanend_testwct_def Let_def word_less_nat_alt y(3))
    show "link_ok c d ws s'"
      using y(2) s'(2-5) ne rb_pop_front_num_inv [OF inv, of 4] list
      by (auto simp: link_ok_def z_def y(3))
    show "\<forall>a. ce_pausedOut (sy_chanends s c) = Some a \<longrightarrow> queued s' a \<and> time (sy_threads s' a) = tm"
      using s'(6) ne y(3) by (simp add: z_def)
  qed
qed

lemma link_receive_blocked:
  assumes link: "link_ok c d [] s"
  obtains s' where "Chanend_in d b tm s = Some (Op_deschedule, 0, s')" "link_ok c d [] s'" "ce_pausedIn (sy_chanends s' d) = Some b"
proof -
  obtain y where y: "updateOwner (Res_chanend d) b s = Some y" "link_ok c d [] y" "sy_chanends y = sy_chanends s"
    by (rule link_owner [OF link])
  have "unat (rb_size (ce_buf (sy_chanends s d))) = 0"
    unfolding rb_size_correct using link by (simp add: link_ok_def)
  then have "rb_size (ce_buf (sy_chanends s d)) < 4"
    by (simp add: unat_eq_0)
  with y link_no_control [OF y(2)] have "Chanend_in d b tm s = Some (Op_deschedule, 0, setPausedIn d b True y)"
    by (simp add: Chanend_in_def Chanend_testwct_def Let_def)
  moreover have "link_ok c d [] (setPausedIn d b True y)"
    using y(2) by (auto simp: setPausedIn_def link_ok_def)
  ultimately show ?thesis
    by (rule that) (simp add: setPausedIn_def)
qed

subsection \<open>Sequences of sends and receives\<close>

datatype chan_op = Send addr u32 ticks_t | Receive addr ticks_t

text \<open>
  A thread that is paused executes its instruction again when it is woken, so
  an operation that pauses adds nothing to the words sent or received.
\<close>

fun chan_ops :: "addr \<Rightarrow> addr \<Rightarrow> chan_op list \<Rightarrow> sys \<Rightarrow> (u32 list \<times> u32 list \<times> sys) option" where
  "chan_ops c d [] s = Some ([], [], s)"
| "chan_ops c d (Send a v tm # ops) s = do {
     (r, s) \<leftarrow> Chanend_out c a v tm s;
     (sent, received, s) \<leftarrow> chan_ops c d ops s;
     Some (if r = Op_continue then v # sent else sent, received, s)
   }"
| "chan_ops c d (Receive b tm # ops) s = do {
     (r, v, s) \<leftarrow> Chanend_in d b tm s;
     (sent, received, s) \<leftarrow> chan_ops c d ops s;
     Some (sent, if r = Op_continue then v # received else received, s)
   }"

lemma chan_ops_fifo:
  assumes "link_ok c d ws s"
  shows "\<exists>sent received s' ws'. chan_ops c d ops s = Some (sent, received, s') \<and> link_ok c d ws' s'
    \<and> ws @ sent = received @ ws'"
  using assms
proof (induction ops arbitrary: s ws)
  case (Cons p ops)
  show ?case
  proof (cases p)
    case (Send a v tm)
    show ?thesis
    proof (cases "length ws < 2")
      case True
      from Cons.prems True obtain z where z: "Chanend_out c a v tm s = Some (Op_continue, z)" "link_ok c d (ws @ [v]) z"
        by (rule link_send)
      from Cons.IH [OF z(2)] z(1) Send show ?thesis
        by auto
    next
      case False
      from Cons.prems False obtain z where z: "Chanend_out c a v tm s = Some (Op_deschedule, z)" "link_ok c d ws z"
        by (rule link_send_blocked)
      from Cons.IH [OF z(2)] z(1) Send show ?thesis
        by auto
    qed
  next
    case (Receive b tm)
    show ?thesis
    proof (cases ws)
      case Nil
      with Cons.prems obtain z where z: "Chanend_in d b tm s = Some (Op_deschedule, 0, z)" "link_ok c d [] z"
        by (auto elim: link_receive_blocked)
      from Cons.IH [OF z(2)] z(1) Receive Nil show ?thesis
        by auto
    next
      case (Cons v vs)
      with Cons.prems obtain z where z: "Chanend_in d b tm s = Some (Op_continue, v, z)" "link_ok c d vs z"
        by (auto elim: link_receive)
      from Cons.IH [OF z(2)] z(1) Receive Cons show ?thesis
        by auto
    qed
  qed
qed auto

subsection \<open>What a channel promises\<close>

text \<open>
  C5. The words that a channel delivers are those that were sent, in their
  order, with none lost or repeated: after any sequence of outputs and inputs
  on its two ends the words received and those still in the buffer are the
  words that were in the buffer and those sent since.  The operations always
  return.
\<close>

theorem channel_delivers_in_order:
  assumes "link_ok c d ws s"
  shows "\<exists>sent received s' ws'. chan_ops c d ops s = Some (sent, received, s') \<and> link_ok c d ws' s'
    \<and> ws @ sent = received @ ws' \<and> length ws' \<le> 2"
  using chan_ops_fifo [OF assms, of ops] link_bound by metis

text \<open>Channel end 0 is within a packet to channel end 1, whose buffer is empty.\<close>

definition demo_link :: sys where
  "demo_link = set_endpoint (Ep_chanend (0, 1)) \<lparr>ep_junkIncoming = False, ep_queue = [], ep_source = Some (Ep_chanend (0, 0))\<rparr>
     (set_chanend (0, 0) ((sy_chanends demo_sys (0, 0))\<lparr>ce_inPacket := True, ce_junkPacket := False, ce_dest := Some (Ep_chanend (0, 1))\<rparr>)
     demo_sys)"

lemma demo_link_ok: "link_ok (0, 0) (0, 1) [] demo_link"
  using demo_sched
  by (simp add: link_ok_def demo_link_def)
    (simp add: demo_sys_def SystemState_new_def Chanend_new_def core_eventable_def EventableResource_new_def blank_sys_def
      rb_inv_def rb_list_def rb_new_def)

theorem channel_delivers_in_order_witness:
  "\<exists>sent received s ws. chan_ops (0, 0) (0, 1) [Send (0, 0) 7 1, Send (0, 0) 8 2, Receive (0, 1) 3] demo_link = Some (sent, received, s)
    \<and> sent = received @ ws \<and> length ws \<le> 2"
  using channel_delivers_in_order [OF demo_link_ok, of "[Send (0, 0) 7 1, Send (0, 0) 8 2, Receive (0, 1) 3]"]
  by (metis append_Nil)

text \<open>
  C9. A channel makes progress.  While the buffer has room an output continues
  and wakes the thread that waits for input; while it holds a word an input
  continues with the oldest one and wakes the thread that waits for output.
  So at any time one of the two ends can continue, and a thread is only ever
  paused at a channel until the other end is used.
\<close>

theorem channel_progress:
  assumes "link_ok c d ws s"
  shows "(length ws < 2 \<longrightarrow> (\<exists>s'. Chanend_out c a v tm s = Some (Op_continue, s') \<and> link_ok c d (ws @ [v]) s'
      \<and> (\<forall>b. ce_pausedIn (sy_chanends s d) = Some b \<longrightarrow> queued s' b \<and> time (sy_threads s' b) = tm)))
    \<and> (ws \<noteq> [] \<longrightarrow> (\<exists>s'. Chanend_in d b tm s = Some (Op_continue, hd ws, s') \<and> link_ok c d (tl ws) s'
      \<and> (\<forall>a. ce_pausedOut (sy_chanends s c) = Some a \<longrightarrow> queued s' a \<and> time (sy_threads s' a) = tm)))
    \<and> (length ws = 2 \<longrightarrow> (\<exists>s'. Chanend_out c a v tm s = Some (Op_deschedule, s') \<and> ce_pausedOut (sy_chanends s' c) = Some a))
    \<and> (ws = [] \<longrightarrow> (\<exists>s'. Chanend_in d b tm s = Some (Op_deschedule, 0, s') \<and> ce_pausedIn (sy_chanends s' d) = Some b))"
proof (intro conjI impI)
  assume "length ws < 2"
  with assms show "\<exists>s'. Chanend_out c a v tm s = Some (Op_continue, s') \<and> link_ok c d (ws @ [v]) s'
      \<and> (\<forall>b. ce_pausedIn (sy_chanends s d) = Some b \<longrightarrow> queued s' b \<and> time (sy_threads s' b) = tm)"
    by (rule link_send) blast
next
  assume "ws \<noteq> []"
  with assms have "link_ok c d (hd ws # tl ws) s"
    by simp
  then show "\<exists>s'. Chanend_in d b tm s = Some (Op_continue, hd ws, s') \<and> link_ok c d (tl ws) s'
      \<and> (\<forall>a. ce_pausedOut (sy_chanends s c) = Some a \<longrightarrow> queued s' a \<and> time (sy_threads s' a) = tm)"
    by (rule link_receive) blast
next
  assume "length ws = 2"
  then have "\<not> length ws < 2"
    by simp
  with assms show "\<exists>s'. Chanend_out c a v tm s = Some (Op_deschedule, s') \<and> ce_pausedOut (sy_chanends s' c) = Some a"
    by (rule link_send_blocked) blast
next
  assume "ws = []"
  with assms have "link_ok c d [] s"
    by simp
  then show "\<exists>s'. Chanend_in d b tm s = Some (Op_deschedule, 0, s') \<and> ce_pausedIn (sy_chanends s' d) = Some b"
    by (rule link_receive_blocked) blast
qed

theorem channel_progress_witness:
  "\<exists>s'. Chanend_out (0, 0) (0, 0) 7 5 demo_link = Some (Op_continue, s') \<and> link_ok (0, 0) (0, 1) [7] s'"
  using channel_progress [OF demo_link_ok, of "(0, 0)" 7 5 "(0, 1)"] by auto

end
