(* ===== verification/Allocation.thy ===== *)
theory Allocation
  imports WholeSystem
begin

text \<open>
  Allocation and lookup of resources (\<open>Core::allocResource\<close>,
  \<open>Core::getResourceByID\<close>): every resource keeps the identifier it was
  constructed with, so the identifier that an allocation hands out leads back
  to the resource.
\<close>

subsection \<open>Identifiers of resources\<close>

definition ids_ok :: "sys \<Rightarrow> bool" where
  "ids_ok s \<longleftrightarrow>
     (\<forall>core n. n < 32 \<longrightarrow> res_type (er_ID (sy_ev s (Res_chanend (core, n)))) = RES_TYPE_CHANEND
        \<and> res_num (er_ID (sy_ev s (Res_chanend (core, n)))) = of_nat n) \<and>
     (\<forall>core n. n < 10 \<longrightarrow> res_type (er_ID (sy_ev s (Res_timer (core, n)))) = RES_TYPE_TIMER
        \<and> res_num (er_ID (sy_ev s (Res_timer (core, n)))) = of_nat n)"

lemma ids_ok_cong:
  assumes "\<And>r. er_ID (sy_ev s' r) = er_ID (sy_ev s r)"
  shows "ids_ok s' = ids_ok s"
  by (simp add: ids_ok_def assms)

lemma ids_minor:
  assumes "ids_ok s" "res_type (er_ID e) = res_type (er_ID (sy_ev s r))" "res_num (er_ID e) = res_num (er_ID (sy_ev s r))"
  shows "ids_ok (set_ev r e s)"
  using assms unfolding ids_ok_def by auto

lemma ids_ops:
  "updateOwner r a s = Some s' \<Longrightarrow> ids_ok s' = ids_ok s"
  "clearOwner r s = Some s' \<Longrightarrow> ids_ok s' = ids_ok s"
  "ids_ok (switch_mode r a b s) = ids_ok s" "ids_ok (mark_enabled r a s) = ids_ok s"
  by (rule ids_ok_cong; auto simp: updateOwner_def clearOwner_def switch_mode_def mark_enabled_def Let_def bind_some
      split: if_splits)+

lemma ids_use:
  "eventDisable r a s = Some s' \<Longrightarrow> ids_ok s' = ids_ok s"
  "eventableSetInUseOn r a s = Some s' \<Longrightarrow> ids_ok s' = ids_ok s"
  "eventableSetInUseOff r s = Some s' \<Longrightarrow> ids_ok s' = ids_ok s"
  by (rule ids_ok_cong; auto simp: updateOwner_def clearOwner_def eventDisable_def eventableSetInUseOn_def
      eventableSetInUseOff_def Let_def bind_some split: if_splits)+

interpretation ids: loose_inv ids_ok
  by unfold_locales (simp_all add: ids_minor ids_ops ids_use, simp_all add: ids_ok_def)

interpretation ids: reach_inv ids_ok
  by unfold_locales (simp_all add: ids_ok_def)

subsection \<open>Allocation\<close>

definition std_types :: "u32 set" where
  "std_types = {RES_TYPE_TIMER, RES_TYPE_CHANEND, RES_TYPE_SYNC, RES_TYPE_THREAD, RES_TYPE_LOCK}"

lemma std_typesE:
  assumes "ty \<in> std_types"
  obtains "ty = 1" | "ty = 2" | "ty = 3" | "ty = 4" | "ty = 5"
  using assms by (auto simp: std_types_def)

lemma isInUse_resource: "ty \<in> std_types \<Longrightarrow> \<exists>b. isInUse (resource ty a) s = Some b"
  by (erule std_typesE) (simp_all add: resource_def isInUse_def)

lemma res_alloc_ok:
  assumes "ty \<in> std_types" "isInUse (resource ty a) s = Some False"
  shows "\<exists>s'. res_alloc (resource ty a) cur s = Some s' \<and> isInUse (resource ty a) s' = Some True"
  using assms(1)
proof (rule std_typesE)
qed (use assms(2) in \<open>simp_all add: resource_def isInUse_def res_alloc_def Timer_alloc_def Chanend_alloc_def Sync_alloc_def
      Thread_alloc_def Lock_alloc_def eventableSetInUseOn_def Let_def\<close>)

lemma alloc_first_spec:
  assumes "ty \<in> std_types"
  shows "(\<exists>s' us i vs. alloc_first cur ty is s = Some (Some (resource ty (fst cur, i)), s')
      \<and> is = us @ i # vs \<and> (\<forall>j \<in> set us. isInUse (resource ty (fst cur, j)) s = Some True)
      \<and> isInUse (resource ty (fst cur, i)) s = Some False \<and> isInUse (resource ty (fst cur, i)) s' = Some True)
    \<or> alloc_first cur ty is s = Some (None, s) \<and> (\<forall>j \<in> set is. isInUse (resource ty (fst cur, j)) s = Some True)"
    (is "?found is \<or> ?none is")
proof (induction "is")
  case (Cons j js)
  obtain b where b: "isInUse (resource ty (fst cur, j)) s = Some b"
    using isInUse_resource [OF assms] by blast
  show ?case
  proof (cases b)
    case False
    with b have "isInUse (resource ty (fst cur, j)) s = Some False"
      by simp
    from res_alloc_ok [OF assms this] obtain s' where "res_alloc (resource ty (fst cur, j)) cur s = Some s'"
      "isInUse (resource ty (fst cur, j)) s' = Some True"
      by blast
    with b False have "?found (j # js)"
      by (intro exI [of _ s'] exI [of _ "[]"] exI [of _ j] exI [of _ js]) simp
    then show ?thesis ..
  next
    case True
    from Cons show ?thesis
    proof
      assume "?found js"
      then obtain s' us i vs where "alloc_first cur ty js s = Some (Some (resource ty (fst cur, i)), s')" "js = us @ i # vs"
        "\<forall>j \<in> set us. isInUse (resource ty (fst cur, j)) s = Some True"
        "isInUse (resource ty (fst cur, i)) s = Some False" "isInUse (resource ty (fst cur, i)) s' = Some True"
        by blast
      with b True have "?found (j # js)"
        by (intro exI [of _ s'] exI [of _ "j # us"] exI [of _ i] exI [of _ vs]) simp
      then show ?thesis ..
    qed (use b True in simp)
  qed
qed simp

lemma upt_split: "[0 ..< n] = us @ i # vs \<Longrightarrow> us = [0 ..< i] \<and> i < n"
proof -
  assume eq: "[0 ..< n] = us @ i # vs"
  have n: "length us < n"
    using arg_cong [OF eq, of length] by simp
  then have i: "i = length us"
    using arg_cong [OF eq, of "\<lambda>xs. xs ! length us"] by (simp del: upt_Suc)
  moreover have "us = take i [0 ..< n]"
    using eq i by simp
  ultimately show ?thesis
    using n by (simp add: take_upt)
qed

lemma allocResource_spec:
  assumes "ty \<in> std_types"
  shows "(\<exists>s' i. allocResource cur ty s = Some (Some (resource ty (fst cur, i)), s') \<and> i < resourceNum ty
      \<and> (\<forall>j < i. isInUse (resource ty (fst cur, j)) s = Some True)
      \<and> isInUse (resource ty (fst cur, i)) s = Some False \<and> isInUse (resource ty (fst cur, i)) s' = Some True)
    \<or> allocResource cur ty s = Some (None, s) \<and> (\<forall>j < resourceNum ty. isInUse (resource ty (fst cur, j)) s = Some True)"
proof -
  have a: "allocResource cur ty s = alloc_first cur ty [0 ..< resourceNum ty] s"
    using assms by (rule std_typesE) (simp_all add: allocResource_def LAST_STD_RES_TYPE_def allocatable_def)
  from alloc_first_spec [OF assms, of cur "[0 ..< resourceNum ty]" s] show ?thesis
  proof (elim disjE exE conjE)
    fix s' us i vs
    assume *: "alloc_first cur ty [0 ..< resourceNum ty] s = Some (Some (resource ty (fst cur, i)), s')"
      "[0 ..< resourceNum ty] = us @ i # vs" "\<forall>j \<in> set us. isInUse (resource ty (fst cur, j)) s = Some True"
      "isInUse (resource ty (fst cur, i)) s = Some False" "isInUse (resource ty (fst cur, i)) s' = Some True"
    with upt_split [OF *(2)] show ?thesis
      unfolding a by (intro disjI1 exI [of _ s'] exI [of _ i]) simp
  qed (simp add: a)
qed

lemma lookup_id:
  assumes "ids_ok s" "ty \<in> std_types" "i < resourceNum ty"
  shows "getResourceByID core (getID (resource ty (core, i)) s) = Some (Some (resource ty (core, i)))"
proof -
  have i: "unat (of_nat i :: u32) = i" "(of_nat i :: u32) < 256"
    using assms(2,3) by (auto simp: std_types_def resourceNum_def unat_of_nat word_less_nat_alt)
  have f: "res_type (getID (resource ty (core, i)) s) = ty" "res_num (getID (resource ty (core, i)) s) = of_nat i"
    using assms(2) by (rule std_typesE; use assms(1,3) i(2) in \<open>simp add: resource_def getID_def resourceNum_def ids_ok_def resID_fields\<close>)+
  have "ty \<noteq> RES_TYPE_PORT" "\<not> LAST_STD_RES_TYPE < ty"
    using assms(2) by (auto simp: std_types_def LAST_STD_RES_TYPE_def)
  then show ?thesis
    using assms(3) by (simp add: getResourceByID_def f i Let_def)
qed

subsection \<open>What allocation promises\<close>

lemma setNum_resID:
  assumes "ty < 256" "num < 256"
  shows "res_setNum num ty = resID ty num"
  unfolding res_setNum_def resID_def res_masks
  by (rule word32_eqI) (auto simp: bit_simps dest: small_bits [OF assms(1)] small_bits [OF assms(2)])

lemma new_ids: "ids_ok (SystemState_new cores cs romdc net clk0 s0)"
proof -
  have "of_nat n < (256 :: u32)" if "n < 32" for n
    using that by (simp add: word_less_nat_alt unat_of_nat)
  then show ?thesis
    by (auto simp: ids_ok_def SystemState_new_def core_eventable_def EventableResource_new_def setNum_resID resID_fields)
qed

lemmas reachable_ids = ids.reachable_inv [OF new_ids]

text \<open>
  C21. In every reachable state the allocation of a timer, channel end,
  synchroniser, thread or lock returns.  It gives the free resource with the
  lowest number, marks it in use, and its identifier then leads back to it; or
  all resources of that type are in use, and the state is left as it was.
\<close>

theorem allocation_first_free:
  assumes "reachable s" and "ty \<in> {RES_TYPE_TIMER, RES_TYPE_CHANEND, RES_TYPE_SYNC, RES_TYPE_THREAD, RES_TYPE_LOCK}"
  shows "(\<exists>s' i. allocResource cur ty s = Some (Some (resource ty (fst cur, i)), s') \<and> i < resourceNum ty
      \<and> (\<forall>j < i. isInUse (resource ty (fst cur, j)) s = Some True)
      \<and> isInUse (resource ty (fst cur, i)) s = Some False \<and> isInUse (resource ty (fst cur, i)) s' = Some True
      \<and> getResourceByID (fst cur) (getID (resource ty (fst cur, i)) s) = Some (Some (resource ty (fst cur, i))))
    \<or> allocResource cur ty s = Some (None, s) \<and> (\<forall>j < resourceNum ty. isInUse (resource ty (fst cur, j)) s = Some True)"
proof -
  have ty: "ty \<in> std_types"
    using assms(2) by (simp add: std_types_def)
  note ids = lookup_id [OF reachable_ids [OF assms(1)] ty, of _ "fst cur"]
  from allocResource_spec [OF ty, of cur s] ids show ?thesis
    by blast
qed

theorem allocation_first_free_witness:
  "\<exists>s i. allocResource (0, 0) RES_TYPE_CHANEND demo_ready = Some (Some (Res_chanend (0, i)), s) \<and> i < 32
     \<and> (\<forall>j < i. isInUse (Res_chanend (0, j)) demo_ready = Some True)"
proof -
  have "isInUse (Res_chanend (0, 0)) demo_ready = Some False"
    by (simp add: isInUse_def demo_ready_def demo_sys_def SystemState_new_def core_eventable_def EventableResource_new_def)
  moreover have "resource RES_TYPE_CHANEND a = Res_chanend a" "resourceNum RES_TYPE_CHANEND = 32" for a
    by (simp_all add: resource_def resourceNum_def)
  ultimately show ?thesis
    using allocation_first_free [OF demo_reachable, of RES_TYPE_CHANEND "(0, 0)"] by fastforce
qed

end
