(* ===== verification/Interrupts.thy ===== *)
theory Interrupts
  imports WholeSystem
begin

text \<open>
  Delivery of events and interrupts to a thread (\<open>Resource.cpp\<close>,
  \<open>SystemState.cpp\<close>) and the return from an interrupt by \<open>KRET\<close>.
\<close>

subsection \<open>Interrupts\<close>

definition handler_sr :: "sr_t \<Rightarrow> sr_t" where
  "handler_sr v = sr_set EEBLE False (sr_set INK True (sr_set ININT True (sr_set IEBLE False v)))"

lemma set_thread_twice: "set_thread a t (set_thread a u s) = set_thread a t s"
  by (simp add: set_thread_def)

lemma completeEvent_interrupt:
  assumes "length (regs (sy_threads s a)) = NUM_REGISTERS" "er_owner (sy_ev s r) = Some a" "\<not> dualIssue (sy_threads s a)"
  shows "completeEvent a r True s = Some (set_thread a (let t = sy_threads s a in
     t\<lparr>sr := handler_sr (sr t), 
       regs := (regs t)[SSR := ucast (sr t), SPC := thread_fromPc t (pc t), SED := regs t ! ED, ED := getTruncatedEV r a s],
       pc := er_vector (sy_ev s r)\<rparr>) s)"
proof -
  have tr: "getTruncatedEV r a (set_thread a t s) = getTruncatedEV r a s" for t
    by (simp add: getTruncatedEV_def Let_def)
  show ?thesis
    using assms
    by (simp add: completeEvent_def save_interrupted_def res_completeEvent_def set_reg_def writeRegister_def Let_def
        handler_sr_def tr thread_fromPc_def set_thread_twice)
qed

lemma pc_roundtrip: "p < 2 ^ 31 \<Longrightarrow> drop_bit 1 (push_bit 1 p + b - b) = (p :: u32)"
proof -
  assume "p < 2 ^ 31"
  then have "p AND mask 31 = p"
    by (intro less_mask_eq) simp
  then have p: "bit p n \<Longrightarrow> n < 31" for n
    by (metis bit_and_iff bit_mask_iff)
  have "drop_bit 1 (push_bit 1 p) = p"
  proof (rule word32_eqI)
    fix n :: nat
    assume "n < 32"
    show "bit (drop_bit 1 (push_bit 1 p)) n = bit p n"
      unfolding bit_drop_bit_eq o_def bit_push_bit_iff using p [of n] by auto
  qed
  then show ?thesis
    by simp
qed

lemma even_address: "b AND 1 = 0 \<Longrightarrow> (push_bit 1 p + b) AND 1 = (0 :: u32)"
  by (simp add: and_one_eq mod_2_eq_odd split: if_splits)

lemma kret_restores:
  fixes t t' :: cpu_thread
  assumes "length (regs t') = NUM_REGISTERS" "regs t' ! SPC = thread_fromPc t (pc t)" "regs t' ! SSR = ucast (sr t)"
    "regs t' ! SED = e" "decodeCache t' = decodeCache t"
    and pc: "pc t < 2 ^ 31" "dv_base (decodeCache t) AND 1 = 0" "CHECK_PC c (pc t)"
  shows "\<exists>ops f. read_operands (F0r KRET_0r) [] t' = Some ops
    \<and> body_0r KRET_0r ((start_frame (F0r KRET_0r) [] t' c dc)\<lparr>fr_op := ops\<rparr>) = Some (Back No_yield f)
    \<and> fr_nextPc f = pc t \<and> op 3 f = e \<and> sr_of (op 4 f) = sr_set WAITING False (sr t) \<and> fr_thread f = t'"
proof -
  let ?spc = "push_bit 1 (pc t) + dv_base (decodeCache t)"
  define f where "f = (start_frame (F0r KRET_0r) [] t' c dc)\<lparr>fr_op := [?spc, e, ucast (sr t), e, ucast (sr_set WAITING False (sr t))], fr_nextPc := pc t\<rparr>"
  have sr: "sr_of (ucast v) = v" for v :: sr_t
    unfolding sr_of_def by (rule bit_word_eqI) (auto simp: bit_simps)
  have ops: "read_operands (F0r KRET_0r) [] t' = Some [?spc, e, ucast (sr t), 0, 0]"
    using assms(1-4) by (simp add: read_operands_def explicit_ops_def implicit_ops_def implicit_0r_def implicit_KRET_def
        read_implicit_def thread_fromPc_def)
  have "?spc AND 1 = 0" "thread_toPc t' ?spc = pc t"
    using pc_roundtrip [OF pc(1)] even_address [OF pc(2)] assms(5) by (simp_all add: thread_toPc_def)
  then have "body_0r KRET_0r ((start_frame (F0r KRET_0r) [] t' c dc)\<lparr>fr_op := [?spc, e, ucast (sr t), 0, 0]\<rparr>) = Some (Back No_yield f)"
    using pc(3) by (simp add: body_0r_def KRET_body_def write_pc_def op_def set_op_def start_frame_def finish_def
        write_pc_unchecked_def f_def sr Let_def eval_nat_numeral)
  with ops show ?thesis
    by (intro exI [of _ "[?spc, e, ucast (sr t), 0, 0]"] exI [of _ f]) (simp add: f_def op_def sr start_frame_def)
qed

lemma interrupt_kret:
  assumes "length (regs (sy_threads s a)) = NUM_REGISTERS" "er_owner (sy_ev s r) = Some a" "\<not> dualIssue (sy_threads s a)"
    and "pc (sy_threads s a) < 2 ^ 31" "dv_base (decodeCache (sy_threads s a)) AND 1 = 0" "CHECK_PC c (pc (sy_threads s a))"
  shows "\<exists>s' ops f. completeEvent a r True s = Some s'
    \<and> pc (sy_threads s' a) = er_vector (sy_ev s r) \<and> regs (sy_threads s' a) ! ED = getTruncatedEV r a s
    \<and> \<not> bit (sr (sy_threads s' a)) IEBLE \<and> \<not> bit (sr (sy_threads s' a)) EEBLE \<and> bit (sr (sy_threads s' a)) ININT
    \<and> read_operands (F0r KRET_0r) [] (sy_threads s' a) = Some ops
    \<and> body_0r KRET_0r ((start_frame (F0r KRET_0r) [] (sy_threads s' a) c dc)\<lparr>fr_op := ops\<rparr>) = Some (Back No_yield f)
    \<and> fr_nextPc f = pc (sy_threads s a) \<and> op 3 f = regs (sy_threads s a) ! ED
    \<and> sr_of (op 4 f) = sr_set WAITING False (sr (sy_threads s a))"
proof -
  let ?t = "sy_threads s a"
  define t' where "t' = ?t\<lparr>sr := handler_sr (sr ?t),
       regs := (regs ?t)[SSR := ucast (sr ?t), SPC := thread_fromPc ?t (pc ?t), SED := regs ?t ! ED, ED := getTruncatedEV r a s],
       pc := er_vector (sy_ev s r)\<rparr>"
  have e: "completeEvent a r True s = Some (set_thread a t' s)"
    using completeEvent_interrupt [OF assms(1-3)] by (simp only: t'_def Let_def)
  have k: "\<exists>ops f. read_operands (F0r KRET_0r) [] t' = Some ops
    \<and> body_0r KRET_0r ((start_frame (F0r KRET_0r) [] t' c dc)\<lparr>fr_op := ops\<rparr>) = Some (Back No_yield f)
    \<and> fr_nextPc f = pc ?t \<and> op 3 f = regs ?t ! ED \<and> sr_of (op 4 f) = sr_set WAITING False (sr ?t) \<and> fr_thread f = t'"
    by (rule kret_restores) (use assms in \<open>simp_all add: t'_def\<close>)
  have "regs t' ! ED = getTruncatedEV r a s" "\<not> bit (sr t') IEBLE" "\<not> bit (sr t') EEBLE" "bit (sr t') ININT"
    using assms(1) by (simp_all add: t'_def handler_sr_def sr_set_def bit_simps)
  with e k show ?thesis
    by (intro exI [of _ "set_thread a t' s"]) (auto simp: t'_def)
qed

text \<open>
  In dual issue mode a register write of the bundle that is being executed is
  kept in a second register file until the next bundle starts.
\<close>

lemma interrupt_dual_issue:
  assumes "length (regs (sy_threads s a)) = NUM_REGISTERS" "length (regsBuffer (sy_threads s a)) = NUM_REGISTERS"
    "er_owner (sy_ev s r) = Some a" "dualIssue (sy_threads s a)" "bufferInitialized (sy_threads s a)"
  shows "\<exists>s'. completeEvent a r True s = Some s'
    \<and> regs (sy_threads s' a) ! SPC = thread_fromPc (sy_threads s a) (pc (sy_threads s a))
    \<and> regs (doPendingRegWrites (sy_threads s' a)) ! SPC = regsBuffer (sy_threads s a) ! SPC
    \<and> regs (doPendingRegWrites (sy_threads s' a)) ! SSR = regsBuffer (sy_threads s a) ! SSR"
  using assms
  by (simp add: completeEvent_def save_interrupted_def res_completeEvent_def set_reg_def writeRegister_def Let_def
      thread_fromPc_def doPendingRegWrites_def swap_buffers_def)

subsection \<open>Delivery to a waiting thread\<close>

lemma takeEvent_waiting:
  assumes "sched_ok s" "length (regs (sy_threads s a)) = NUM_REGISTERS" "er_owner (sy_ev s r) = Some a" "\<not> dualIssue (sy_threads s a)"
    "eventsPermitted r s" "\<not> er_interruptMode (sy_ev s r)" "\<not> isExecuting a s" "bit (sr (sy_threads s a)) WAITING"
  shows "\<exists>s'. event r tm s = Some s' \<and> queued s' a \<and> rq_wakeUpTime (sy_scheduler s') (Run_res (Res_thread a)) = tm
    \<and> pc (sy_threads s' a) = er_vector (sy_ev s r) \<and> time (sy_threads s' a) = tm
    \<and> regs (sy_threads s' a) ! ED = getTruncatedEV r a s
    \<and> \<not> bit (sr (sy_threads s' a)) EEBLE \<and> \<not> bit (sr (sy_threads s' a)) WAITING"
proof -
  define z where "z = cancel (pausedOn (sy_threads s a)) (set_thread a ((sy_threads s a)\<lparr>time := tm\<rparr>) s)"
  have c: "sy_threads (cancel p y) = sy_threads y" "sy_ev (cancel p y) = sy_ev y" "sy_cores (cancel p y) = sy_cores y"
    "sy_scheduler (cancel p y) = sy_scheduler y" for p y
    by (simp_all add: cancel_def split: option.splits res.splits)
  have "sched_ok z"
    using assms(1) by (simp add: z_def sched_ok_def c)
  then obtain q where q: "schedule a z = Some ((set_thread a (mark_scheduled (sy_threads z a)) z)\<lparr>sy_scheduler := q\<rparr>)"
    "rq_wakeUpTime q (Run_res (Res_thread a)) = time (sy_threads z a)"
    "\<forall>r. rq_contains q r \<longleftrightarrow> r = Run_res (Res_thread a) \<or> rq_contains (sy_scheduler z) r"
    by (rule schedule_ok)
  define y where "y = (set_thread a (mark_scheduled (sy_threads z a)) z)\<lparr>sy_scheduler := q\<rparr>"
  have y: "sy_threads y a = mark_scheduled ((sy_threads s a)\<lparr>time := tm\<rparr>)" "sy_ev y = sy_ev s" "sy_cores y = sy_cores s" "sy_scheduler y = q"
    by (simp_all add: y_def z_def c)
  have ev: "event r tm s = completeEvent a r False y"
    using assms(3,5-8) q(1) by (simp add: event_def takeEvent_other_def z_def y_def Let_def)
  have tr: "getTruncatedEV r a (set_thread a t y) = getTruncatedEV r a s" for t
    by (simp add: getTruncatedEV_def Let_def y)
  show ?thesis
    using assms(2-4) q(2,3) unfolding ev completeEvent_def res_completeEvent_def
    by (simp add: y tr mark_scheduled_def writeRegister_def set_reg_def Let_def sr_set_def bit_simps) (simp add: z_def c)
qed

subsection \<open>What delivery promises\<close>


text \<open>Thread 0 owns the timer 0, whose vector is the half-word 4.\<close>

definition demo_event :: "bool \<Rightarrow> sys" where
  "demo_event dual = set_ev (Res_timer (0, 0)) \<lparr>er_inUse = True, er_ID = 1, er_vector = 4, er_EV = 1, er_eventsEnabled = True,
       er_interruptMode = False, er_owner = Some (0, 0)\<rparr>
     (set_thread (0, 0) ((sy_threads demo_sys (0, 0))\<lparr>dualIssue := dual, pc := 2, sr := 0x41\<rparr>) demo_sys)"

lemma demo_thread_new: "sy_threads demo_sys (0, 0) =
    (Thread_new (sy_cores demo_sys 0) 0 True None 0 None)\<lparr>inUse := True\<rparr>"
  by (simp add: demo_sys_def SystemState_new_def core_thread_def Thread_alloc_def blank_sys_def Thread_new_def Let_def)

lemma demo_event_facts:
  "length (regs (sy_threads (demo_event b) (0, 0))) = NUM_REGISTERS" "length (regsBuffer (sy_threads (demo_event b) (0, 0))) = NUM_REGISTERS"
  "er_owner (sy_ev (demo_event b) (Res_timer (0, 0))) = Some (0, 0)" "dualIssue (sy_threads (demo_event b) (0, 0)) = b"
  "pc (sy_threads (demo_event b) (0, 0)) = 2" "bufferInitialized (sy_threads (demo_event b) (0, 0))"
  "er_vector (sy_ev (demo_event b) (Res_timer (0, 0))) = 4" "sr (sy_threads (demo_event b) (0, 0)) = 0x41"
  by (simp_all add: demo_event_def demo_thread_new Thread_new_def)


text \<open>
  C40. In dual issue mode an interrupt that arrives while register writes of
  the last bundle are pending loses the saved state: the saved pc and status
  are written to the register file that the next bundle replaces by the
  buffered one.
\<close>

theorem interrupt_state_lost_in_dual_issue:
  assumes "length (regs (sy_threads s a)) = NUM_REGISTERS" and "length (regsBuffer (sy_threads s a)) = NUM_REGISTERS"
    and "er_owner (sy_ev s r) = Some a" and "dualIssue (sy_threads s a)" and "bufferInitialized (sy_threads s a)"
  shows "\<exists>s'. completeEvent a r True s = Some s'
    \<and> regs (sy_threads s' a) ! SPC = thread_fromPc (sy_threads s a) (pc (sy_threads s a))
    \<and> regs (doPendingRegWrites (sy_threads s' a)) ! SPC = regsBuffer (sy_threads s a) ! SPC
    \<and> regs (doPendingRegWrites (sy_threads s' a)) ! SSR = regsBuffer (sy_threads s a) ! SSR"
  by (rule interrupt_dual_issue [OF assms])

theorem interrupt_state_lost_in_dual_issue_witness:
  "\<exists>s'. completeEvent (0, 0) (Res_timer (0, 0)) True (demo_event True) = Some s'
    \<and> regs (doPendingRegWrites (sy_threads s' (0, 0))) ! SSR = 0 \<and> sr (sy_threads (demo_event True) (0, 0)) = 0x41"
proof -
  have b: "dualIssue (sy_threads (demo_event True) (0, 0))" "regsBuffer (sy_threads (demo_event True) (0, 0)) ! SSR = 0"
    by (simp_all add: demo_event_def demo_thread_new Thread_new_def)
  from interrupt_state_lost_in_dual_issue [OF demo_event_facts(1-3) b(1) demo_event_facts(6)] b(2) show ?thesis
    using demo_event_facts(8) [of True] by metis
qed

text \<open>
  C22. An event of a resource whose owner waits with events enabled wakes the
  thread: it is scheduled at the time of the event, at the vector of the
  resource and with its event value, and further events are masked.
\<close>

theorem event_wakes_owner:
  assumes "sched_ok s" and "length (regs (sy_threads s a)) = NUM_REGISTERS" and "er_owner (sy_ev s r) = Some a"
    and "\<not> dualIssue (sy_threads s a)" and "eventsPermitted r s" and "\<not> er_interruptMode (sy_ev s r)"
    and "\<not> isExecuting a s" and "bit (sr (sy_threads s a)) WAITING"
  shows "\<exists>s'. event r tm s = Some s' \<and> queued s' a \<and> rq_wakeUpTime (sy_scheduler s') (Run_res (Res_thread a)) = tm
    \<and> pc (sy_threads s' a) = er_vector (sy_ev s r) \<and> time (sy_threads s' a) = tm
    \<and> regs (sy_threads s' a) ! ED = getTruncatedEV r a s
    \<and> \<not> bit (sr (sy_threads s' a)) EEBLE \<and> \<not> bit (sr (sy_threads s' a)) WAITING"
  by (rule takeEvent_waiting [OF assms])

theorem event_wakes_owner_witness:
  "\<exists>s'. event (Res_timer (0, 0)) 9 (demo_event False) = Some s' \<and> queued s' (0, 0) \<and> pc (sy_threads s' (0, 0)) = 4"
proof -
  have s: "sched_ok (demo_event False)"
    using demo_sched by (simp add: demo_event_def)
  have e: "eventsPermitted (Res_timer (0, 0)) (demo_event False)" "\<not> er_interruptMode (sy_ev (demo_event False) (Res_timer (0, 0)))"
    "\<not> isExecuting (0, 0) (demo_event False)" "bit (sr (sy_threads (demo_event False) (0, 0))) WAITING"
    by (simp_all add: eventsPermitted_def isExecuting_def demo_event_def demo_sys_def SystemState_new_def)
  from event_wakes_owner [OF s demo_event_facts(1,3) _ e, of 9] show ?thesis
    using demo_event_facts(4,7) [of False] by auto
qed

end
