(* ===== verification/Spec2Isabelle.thy ===== *)
theory Spec2Isabelle
  imports RingBuffer RunnableQueue EventList ExecSafe Synchronisation TimerWait ChannelLink Allocation Interrupts
begin

text \<open>
  AXE simulates systems of XMOS XCore processors.  A system is a network of
  nodes; a processor node has cores with memory, threads and resources
  (channel ends, timers, locks, synchronisers, ports, clock blocks) and a
  switch.  Threads execute instructions out of a cache of decoded entries, and
  a scheduler runs the threads and timers in the order of their wake up times.
  This development models the simulator in \<open>src/lib\<close> and the instruction
  table of \<open>src/utils/instgen/InstructionGen.cpp\<close>, from which the
  interpreter functions are generated.

  \<^bold>\<open>Conventions\<close> (theory Prelude).  A \<open>uint32_t\<close> is a \<open>32 word\<close>, and so on for the
  other widths.  A member function is a function on the record of its object
  that returns the record it leaves.  Host code that can fail an assertion,
  abort, index outside an array or run into undefined behaviour returns an
  \<open>option\<close>, with \<open>None\<close> for the failure; what the simulated program can
  observe of an error is a value (\<open>Raise\<close>, \<open>Op_illegal\<close>, \<open>Store_exception\<close>).
  Loops that follow simulated code are partial functions whose value is
  \<open>None\<close> if they do not end; no fuel is used anywhere.  Members that a
  constructor leaves uninitialised are arguments of the constructor.

  \<^bold>\<open>Data structures.\<close>
  \<^item> BitManip: \<open>BitManip.h\<close>, \<open>CRC.h\<close> and \<open>Endianness.h\<close>.  The loops compute what their
    names say; the 32 bit CRC is the 8 bit one on the four bytes; little endian
    accesses do not depend on the host.
  \<^item> RingBuffer: \<open>ring_buffer.h\<close>.  A ring buffer is a queue of bounded length.
  \<^item> RunnableQueue: \<open>RunnableQueue.h\<close> and \<open>RunnableQueue.cpp\<close>.  The intrusive linked
    list implements a list ordered by time; pushing is a stable sort.  The
    locale \<open>timed_queue\<close> is what the scheduler relies on.
  \<^item> EventList: the lists of event enabled resources in \<open>Thread.h\<close>.  The links that all
    lists share implement one list per thread and mode.

  \<^bold>\<open>Decoding.\<close>
  \<^item> InstructionOpcode: the opcodes with their size and operands, by format.
  \<^item> Decode, DecodeCorrect: \<open>Instruction.cpp\<close>, every case of the decoder.  It is total and
    decoding inverts encoding.
  \<^item> Transform: \<open>instructionDecode\<close> at an address, \<open>instructionTransform\<close>, and the
    code of a store.  Branch targets that it resolves are inside the cache.

  \<^bold>\<open>Memory and decode cache of a core.\<close>
  \<^item> DecodeCache, Core: \<open>DecodeCache.h\<close>, \<open>DecodeCache.cpp\<close>, the memory side of \<open>Core.h\<close> and
    \<open>Core.cpp\<close>, and the watchpoints.
  \<^item> Geometry, Invalidation, InvalidateRange, Coherence, CoherenceDecode, CoherenceOps,
    CoherenceReset, MemorySystem: every decoded entry is what decoding the
    memory gives now, after any sequence of stores, debugger writes,
    breakpoints, watchpoints and changes of the RAM base; the invalidation loops
    end inside the arrays; a store has the effect it should have.

  \<^bold>\<open>Threads and instructions.\<close>
  \<^item> ThreadState: the registers of a thread with the buffer of dual issue mode, its program
    counter and the entry of exceptions (\<open>Thread.h\<close>, \<open>Thread.cpp\<close>).
  \<^item> Arith: the arithmetic of the instruction table: division, multi-word arithmetic,
    saturation and bit interleaving are what the mathematics says.
  \<^item> Exec, ExecSafe: the code strings of the instructions on registers and memory and what
    \<open>emitInstFunction\<close> generates around them.  Executing an instruction keeps
    the cache coherent, the register files at their size and the program
    counter in range.

  \<^bold>\<open>Network.\<close>
  \<^item> ResourceID: the fields of resource identifiers, and tokens.
  \<^item> Node: \<open>Node.cpp\<close>, \<open>ProcessorNode.cpp\<close>, \<open>PeripheralNode.cpp\<close>.  The search for the
    destination of a packet returns and finds what the routing tables say.
  \<^item> SSwitch: \<open>SSwitch.cpp\<close>, \<open>SSwitchCtrlRegs.cpp\<close>.  Exactly the encoded requests are
    accepted; the state register of a link reads back what was set, except for
    the field that \<open>setBitRange\<close> wipes.

  \<^bold>\<open>The running system.\<close>  The record \<open>sys\<close> holds all objects of a system; an object is
  named by its core and its number there.
  \<^item> SysState: \<open>SystemState.h\<close>, \<open>Resource.cpp\<close>: scheduling, owners, event lists, delivery
    of events and interrupts.
  \<^item> Chan: \<open>ChanEndpoint.cpp\<close>, \<open>Chanend.cpp\<close>, and the switch as an endpoint.
  \<^item> ResourceOps: \<open>Lock.cpp\<close>, \<open>Timer.cpp\<close>, \<open>Synchroniser.cpp\<close>, allocation and lookup of
    resources, \<open>Thread::setC\<close>.
  \<^item> ResourceInst: the code strings of the instructions on resources.
  \<^item> Machine: the generated functions with their event checks and time slices, the functions
    written by hand, \<open>Thread::run\<close>, \<open>Thread::singleStep\<close> and \<open>SystemState::run\<close>.

  \<^bold>\<open>Invariants of the running system.\<close>  SysInv and MachineInv have a tower of locales: an
  invariant that survives the small updates of \<open>base_inv\<close> survives event
  delivery and receiving; \<open>machine_inv\<close> adds the operations that link objects
  and gives every instruction; \<open>reach_inv\<close> gives every step of \<open>machine_step\<close>;
  \<open>loose_inv\<close> is the case of invariants that do not speak about routes.  They
  are interpreted on the invariants of
  \<^item> SchedulerInv: the queue is a schedule;
  \<^item> EventsInv: the event lists hold what is owned and enabled;
  \<^item> RoutesInv: a packet in flight is the source of its destination;
  \<^item> Allocation: identifiers keep their type and number;
  \<^item> WholeSystem: the running object does not change within a dispatch.

  WholeSystem defines the states that a system reaches, from its construction
  through loading to any sequence of steps, states these invariants for them,
  and shows that \<open>SystemState::run\<close> takes only such steps.  Its witnesses run a
  program of seven instructions from its machine code.

  \<^bold>\<open>What the resources promise.\<close>
  \<^item> Synchronisation: locks are handed over in order and to one thread at a time, a waiting
    thread is served, a barrier releases its threads together.
  \<^item> TimerWait: an input that waits for a timer completes, at a time after the one waited for.
    The data of the timer is not the largest signed value and the time is at
    least \<open>2 ^ 31\<close> cycles from overflow; otherwise the arithmetic of the code
    overflows.
  \<^item> ChannelLink: words arrive in order, and one end of a channel can always continue.
  \<^item> Allocation: the first free resource is allocated and found again.
  \<^item> Interrupts: \<open>KRET\<close> undoes an interrupt, except in dual issue mode with pending writes;
    an event wakes its owner.

  \<^bold>\<open>Not modelled.\<close>  Ports, clock blocks and signals, and the peripherals behind them: an
  operation that reaches a port or clock block has no result here, and an
  instruction on ports is modelled up to the test that finds the port.  The
  just in time compiler and the variants of the instruction functions that it
  calls: reaching it only resets the execution frequency.  Tracing, statistics,
  symbol information, SDL, and the polling of the host.  The loader and the
  boot sequence, which read files through libraries: what they may do to a
  system is the rule \<open>load\<close> of \<open>reachable\<close>.  System calls, and with them the exit
  of a simulated program.  The command line, the C interface, ROM images and
  the tools of the test suite.
\<close>

end
